(* ===== verification/Prelude.thy ===== *)
theory Prelude
  imports Main "HOL-Library.Word"
begin

text \<open>
  Shared vocabulary of the development: the model's basic types, Rust's 64-bit
  addition with its wrap-around, the string functions of the standard library the
  program calls, a few facts about lists and maps, and the invariant rule used by
  every state machine.

  A Rust \<open>String\<close> is its UTF-8 byte sequence, held as a \<^typ>\<open>string\<close> (a list of
  8-bit characters), so \<open>length\<close> is \<open>String::len\<close>. File contents are lists of
  \<open>8 word\<close>. A \<open>u64\<close> is a \<^typ>\<open>nat\<close>; where an addition can exceed 64 bits it is
  written \<open>u64_add\<close>. \<open>saturating_sub\<close> is subtraction on \<^typ>\<open>nat\<close>.
\<close>

section \<open>Types\<close>

type_synonym byte = "8 word"
type_synonym bytes = "byte list"
type_synonym instant = nat \<comment> \<open>\<open>std::time::Instant\<close>, in milliseconds\<close>

named_theorems queue_defs \<open>the operations of the upload queue\<close>
named_theorems json_defs \<open>constructors and readers of JSON values\<close>
named_theorems relay_defs \<open>the operations of the relay hub\<close>
named_theorems client_defs \<open>the operations of the bridge's RPC client\<close>

text \<open>The error numbers the FUSE layer answers with.\<close>

datatype errno = ENOENT | EACCES | EEXIST | ENOTDIR | EISDIR | EIO | EROFS | EINVAL | ENOSYS

section \<open>Machine arithmetic\<close>

definition u64_add :: "nat \<Rightarrow> nat \<Rightarrow> nat" where
  "u64_add a b = (a + b) mod 2 ^ 64"

lemma u64_add_exact [simp]: "a + b < 2 ^ 64 \<Longrightarrow> u64_add a b = a + b"
  by (simp add: u64_add_def)

lemma u64_add_le: "u64_add a b \<le> a + b"
  by (simp add: u64_add_def)

lemma u64_add_bound [simp]: "u64_add a b < 2 ^ 64"
  by (simp add: u64_add_def)

section \<open>Strings\<close>

fun str_contains :: "string \<Rightarrow> string \<Rightarrow> bool" where
  "str_contains [] pat = (pat = [])"
| "str_contains (c # s) pat = (take (length pat) (c # s) = pat \<or> str_contains s pat)"

definition starts_with :: "string \<Rightarrow> string \<Rightarrow> bool" where
  "starts_with s pre \<longleftrightarrow> take (length pre) s = pre"

definition ends_with :: "string \<Rightarrow> string \<Rightarrow> bool" where
  "ends_with s suf \<longleftrightarrow> length suf \<le> length s \<and> drop (length s - length suf) s = suf"

definition strip_prefix_str :: "string \<Rightarrow> string \<Rightarrow> string option" where
  "strip_prefix_str pre s = (if starts_with s pre then Some (drop (length pre) s) else None)"

text \<open>\<open>str::trim_end_matches\<close> with a character pattern.\<close>

definition trim_end_matches :: "char \<Rightarrow> string \<Rightarrow> string" where
  "trim_end_matches c s = rev (dropWhile (\<lambda>x. x = c) (rev s))"

text \<open>\<open>str::split\<close> and \<open>str::split_once\<close> with a character pattern.\<close>

fun split_on :: "char \<Rightarrow> string \<Rightarrow> string list" where
  "split_on c [] = [[]]"
| "split_on c (x # xs) =
     (if x = c then [] # split_on c xs
      else (case split_on c xs of [] \<Rightarrow> [[x]] | w # ws \<Rightarrow> (x # w) # ws))"

fun split_once :: "char \<Rightarrow> string \<Rightarrow> (string \<times> string) option" where
  "split_once c [] = None"
| "split_once c (x # xs) =
     (if x = c then Some ([], xs)
      else map_option (\<lambda>(k, v). (x # k, v)) (split_once c xs))"

text \<open>\<open>char::is_whitespace\<close> on the ASCII characters, and \<open>str::trim\<close>.\<close>

definition whitespace :: "char \<Rightarrow> bool" where
  "whitespace c \<longleftrightarrow> c \<in> {CHR '' '', CHR 0x09, CHR 0x0A, CHR 0x0B, CHR 0x0C, CHR 0x0D}"

definition trim :: "string \<Rightarrow> string" where
  "trim s = rev (dropWhile whitespace (rev (dropWhile whitespace s)))"

text \<open>\<open>str::to_lowercase\<close> on the ASCII letters.\<close>

definition ascii_lower :: "char \<Rightarrow> char" where
  "ascii_lower c = (let n = of_char c in if 65 \<le> n \<and> n \<le> (90::nat) then char_of (n + 32) else c)"

definition to_lowercase :: "string \<Rightarrow> string" where
  "to_lowercase s = map ascii_lower s"

text \<open>\<open>join("\n")\<close>.\<close>

fun join_lines :: "string list \<Rightarrow> string" where
  "join_lines [] = []"
| "join_lines [l] = l"
| "join_lines (l # ls) = l @ [CHR 0x0A] @ join_lines ls"

text \<open>Decimal and fixed-width hexadecimal printing (\<open>{}\<close>, \<open>{:016x}\<close>).\<close>

fun show_nat :: "nat \<Rightarrow> string" where
  "show_nat n = (if n < 10 then [char_of (48 + n)] else show_nat (n div 10) @ [char_of (48 + n mod 10)])"

declare show_nat.simps [simp del]

definition hex_digit :: "nat \<Rightarrow> char" where
  "hex_digit d = (if d < 10 then char_of (48 + d) else char_of (87 + d))"

fun hex_pad :: "nat \<Rightarrow> nat \<Rightarrow> string" where
  "hex_pad 0 n = []"
| "hex_pad (Suc w) n = hex_pad w (n div 16) @ [hex_digit (n mod 16)]"

lemma length_hex_pad [simp]: "length (hex_pad w n) = w"
  by (induction w arbitrary: n) auto

lemma starts_with_append [simp]: "starts_with (pre @ s) pre"
  by (simp add: starts_with_def)

lemma starts_with_iff: "starts_with s pre \<longleftrightarrow> (\<exists>t. s = pre @ t)"
  by (metis append_eq_conv_conj append_take_drop_id starts_with_def)

lemma ends_with_append [simp]: "ends_with (s @ suf) suf"
  by (simp add: ends_with_def)

lemma ends_with_iff: "ends_with s suf \<longleftrightarrow> (\<exists>t. s = t @ suf)"
proof
  assume "ends_with s suf"
  then have "s = take (length s - length suf) s @ suf"
    by (metis append_take_drop_id ends_with_def)
  then show "\<exists>t. s = t @ suf" ..
qed auto

lemma str_contains_iff: "str_contains s pat \<longleftrightarrow> (\<exists>u v. s = u @ pat @ v)"
proof (induction s)
  case Nil
  then show ?case by auto
next
  case (Cons c s)
  have "take (length pat) (c # s) = pat \<longleftrightarrow> (\<exists>v. c # s = pat @ v)"
    by (metis append_eq_conv_conj append_take_drop_id)
  moreover have "(\<exists>u v. c # s = u @ pat @ v) \<longleftrightarrow>
      (\<exists>v. c # s = pat @ v) \<or> (\<exists>u v. s = u @ pat @ v)"
    by (metis append_Cons append_Nil list.exhaust list.inject)
  ultimately show ?case using Cons.IH by simp
qed

lemma trim_end_matches_no_suffix: "trim_end_matches c s = [] \<or> last (trim_end_matches c s) \<noteq> c"
  using hd_dropWhile [of "\<lambda>x. x = c" "rev s"]
  by (auto simp: trim_end_matches_def last_rev)

lemma trim_end_matches_id: "s = [] \<or> last s \<noteq> c \<Longrightarrow> trim_end_matches c s = s"
  by (cases s rule: rev_cases) (auto simp: trim_end_matches_def)

section \<open>Lists and maps\<close>

text \<open>\<open>entry(k).or_default()\<close> on a map of vectors.\<close>

definition get_vec :: "('k \<rightharpoonup> 'v list) \<Rightarrow> 'k \<Rightarrow> 'v list" where
  "get_vec m k = (case m k of None \<Rightarrow> [] | Some xs \<Rightarrow> xs)"

lemma get_vec_upd [simp]: "get_vec (m(k \<mapsto> xs)) k' = (if k' = k then xs else get_vec m k')"
  by (simp add: get_vec_def)

lemma get_vec_del [simp]: "get_vec (m(k := None)) k' = (if k' = k then [] else get_vec m k')"
  by (simp add: get_vec_def)

lemma get_vec_empty [simp]: "get_vec Map.empty k = []"
  by (simp add: get_vec_def)

lemma get_vec_Some: "m k = Some xs \<Longrightarrow> get_vec m k = xs"
  by (simp add: get_vec_def)

section \<open>Invariants of step relations\<close>

locale step_invariant =
  fixes step :: "'s \<Rightarrow> 's \<Rightarrow> bool"
    and I :: "'s \<Rightarrow> bool"
  assumes step_keeps: "step s t \<Longrightarrow> I s \<Longrightarrow> I t"
begin

lemma steps_keep: "step\<^sup>*\<^sup>* s t \<Longrightarrow> I s \<Longrightarrow> I t"
  by (induction rule: rtranclp_induct) (auto intro: step_keeps)

end

end
