(* ===== verification/Ranges.thy ===== *)
theory Ranges
  imports Prelude
begin

text \<open>
  The dirty-range lists of the upload queue (\<open>Range\<close> and \<open>merge_range\<close> of
  \<open>crates/bridge/src/fuse_fs.rs\<close>): half-open byte ranges, kept sorted, disjoint and
  non-adjacent, with the insertion that merges overlap and adjacency.
\<close>

type_synonym range = "nat \<times> nat"

section \<open>The code\<close>

text \<open>
  The \<open>while\<close> loop of \<open>merge_range\<close>: the ranges skipped before the merged one, the
  bounds of the merged one, and the ranges left after it.
\<close>

fun merge_loop :: "range list \<Rightarrow> nat \<Rightarrow> nat \<Rightarrow> range list \<times> nat \<times> nat \<times> range list" where
  "merge_loop [] new_start new_end = ([], new_start, new_end, [])"
| "merge_loop ((s, e) # rs) new_start new_end =
     (if e < new_start then
        (case merge_loop rs new_start new_end of (b, ns, ne, a) \<Rightarrow> ((s, e) # b, ns, ne, a))
      else if new_end < s then ([], new_start, new_end, (s, e) # rs)
      else merge_loop rs (min new_start s) (max new_end e))"

definition covered_bytes :: "range list \<Rightarrow> nat \<Rightarrow> nat \<Rightarrow> nat" where
  "covered_bytes ranges start end' =
     sum_list (map (\<lambda>(s, e). min e end' - max s start)
       (filter (\<lambda>(s, e). s < end' \<and> start < e) ranges))"

definition merge_range :: "range list \<Rightarrow> nat \<Rightarrow> nat \<Rightarrow> range list \<times> nat" where
  "merge_range ranges start end' =
     (if end' \<le> start then (ranges, 0)
      else case merge_loop ranges start end' of (b, ns, ne, a) \<Rightarrow>
        (b @ (ns, ne) # a, (ne - ns) - covered_bytes ranges start end'))"

section \<open>Well-formed lists and the bytes they cover\<close>

fun wf_ranges :: "range list \<Rightarrow> bool" where
  "wf_ranges [] = True"
| "wf_ranges ((s, e) # rs) = (s < e \<and> (\<forall>r \<in> set rs. e < fst r) \<and> wf_ranges rs)"

definition range_set :: "range list \<Rightarrow> nat set" where
  "range_set rs = (\<Union>(s, e) \<in> set rs. {s..<e})"

definition total_bytes :: "range list \<Rightarrow> nat" where
  "total_bytes rs = sum_list (map (\<lambda>(s, e). e - s) rs)"

lemma range_set_simps [simp]:
  "range_set [] = {}" "range_set ((s, e) # rs) = {s..<e} \<union> range_set rs"
  "range_set (xs @ ys) = range_set xs \<union> range_set ys"
  by (auto simp: range_set_def)

lemma total_bytes_simps [simp]:
  "total_bytes [] = 0" "total_bytes ((s, e) # rs) = (e - s) + total_bytes rs"
  "total_bytes (xs @ ys) = total_bytes xs + total_bytes ys"
  by (auto simp: total_bytes_def)

lemma covered_bytes_simps [simp]:
  "covered_bytes [] a b = 0"
  "covered_bytes ((s, e) # rs) a b =
     (if s < b \<and> a < e then min e b - max s a else 0) + covered_bytes rs a b"
  by (auto simp: covered_bytes_def)

lemma in_range_set: "(a, b) \<in> set rs \<Longrightarrow> a \<le> x \<Longrightarrow> x < b \<Longrightarrow> x \<in> range_set rs"
  unfolding range_set_def by (rule UN_I) auto

lemma finite_range_set [simp]: "finite (range_set rs)"
  by (auto simp: range_set_def)

lemma wf_ranges_append:
  "wf_ranges (xs @ ys) \<longleftrightarrow>
     wf_ranges xs \<and> wf_ranges ys \<and> (\<forall>x \<in> set xs. \<forall>y \<in> set ys. snd x < fst y)"
  by (induction xs rule: wf_ranges.induct) auto

lemma wf_ranges_nonempty: "wf_ranges rs \<Longrightarrow> (s, e) \<in> set rs \<Longrightarrow> s < e"
  by (induction rs rule: wf_ranges.induct) auto

lemma range_set_above: "\<forall>r \<in> set rs. x < fst r \<Longrightarrow> y \<in> range_set rs \<Longrightarrow> x < y"
  by (fastforce simp: range_set_def)

lemma card_range_set: "wf_ranges rs \<Longrightarrow> card (range_set rs) = total_bytes rs"
proof (induction rs rule: wf_ranges.induct)
  case (2 s e rs)
  then have "{s..<e} \<inter> range_set rs = {}"
    using range_set_above by fastforce
  with 2 show ?case by (simp add: card_Un_disjoint)
qed simp

lemma card_covered:
  "wf_ranges rs \<Longrightarrow> covered_bytes rs a b = card (range_set rs \<inter> {a..<b})"
proof (induction rs rule: wf_ranges.induct)
  case (2 s e rs)
  then have dis: "({s..<e} \<inter> {a..<b}) \<inter> (range_set rs \<inter> {a..<b}) = {}"
    using range_set_above by fastforce
  have "{s..<e} \<inter> {a..<b} = {max s a..<min e b}" by auto
  then have "card ({s..<e} \<inter> {a..<b}) = min e b - max s a" by simp
  moreover have "range_set ((s, e) # rs) \<inter> {a..<b} =
      ({s..<e} \<inter> {a..<b}) \<union> (range_set rs \<inter> {a..<b})" by auto
  moreover have "(if s < b \<and> a < e then min e b - max s a else 0) = min e b - max s a"
    using 2 by auto
  ultimately show ?case using 2 dis by (simp add: card_Un_disjoint del: if_split)
qed simp

section \<open>The loop\<close>

text \<open>
  What the loop keeps: nothing it outputs lies at or below a bound that was below all
  of its input, the output is well formed, and it covers the input and the new range.
\<close>

lemma merge_loop_bounds:
  assumes "merge_loop rs ns ne = (b, ns', ne', a)"
    and "x < ns" and "\<forall>r \<in> set rs. x < fst r"
  shows "x < ns' \<and> (\<forall>r \<in> set (b @ a). x < fst r)"
  using assms
  by (induction rs ns ne arbitrary: b a rule: merge_loop.induct)
    (auto split: if_splits prod.splits)

lemma merge_loop_grows:
  assumes "merge_loop rs ns ne = (b, ns', ne', a)"
  shows "ns' \<le> ns \<and> ne \<le> ne'"
  using assms
  by (induction rs ns ne arbitrary: b a rule: merge_loop.induct)
    (fastforce split: if_splits prod.splits)+

lemma merge_loop_wf:
  assumes "merge_loop rs ns ne = (b, ns', ne', a)" and "wf_ranges rs" and "ns < ne"
  shows "wf_ranges (b @ (ns', ne') # a)"
  using assms
proof (induction rs ns ne arbitrary: b a rule: merge_loop.induct)
  case (2 s e rs ns ne)
  show ?case
  proof (cases "e < ns")
    case True
    with "2.prems" obtain b1 where l: "merge_loop rs ns ne = (b1, ns', ne', a)"
      and b: "b = (s, e) # b1"
      by (auto split: prod.splits)
    with True 2 have "wf_ranges (b1 @ (ns', ne') # a)" by auto
    moreover have "e < ns' \<and> (\<forall>r \<in> set (b1 @ a). e < fst r)"
      using merge_loop_bounds [OF l True] "2.prems" by auto
    ultimately show ?thesis using b "2.prems" by auto
  next
    case False
    show ?thesis
    proof (cases "ne < s")
      case True
      with False "2.prems" show ?thesis by fastforce
    next
      case absorb: False
      with False 2 show ?thesis by auto
    qed
  qed
qed auto

lemma merge_loop_set:
  assumes "merge_loop rs ns ne = (b, ns', ne', a)" and "wf_ranges rs" and "ns < ne"
  shows "range_set (b @ (ns', ne') # a) = range_set rs \<union> {ns..<ne}"
  using assms
proof (induction rs ns ne arbitrary: b a rule: merge_loop.induct)
  case (2 s e rs ns ne)
  consider (skip) "e < ns" | (stop) "\<not> e < ns" "ne < s" | (absorb) "\<not> e < ns" "\<not> ne < s"
    by blast
  then show ?case
  proof cases
    case skip
    with 2 show ?thesis by (auto split: prod.splits)
  next
    case absorb
    with 2 have "range_set (b @ (ns', ne') # a) = range_set rs \<union> {min ns s..<max ne e}"
      by auto
    moreover have "{min ns s..<max ne e} = {s..<e} \<union> {ns..<ne}"
      using absorb "2.prems" by auto
    ultimately show ?thesis by auto
  qed (use 2 in auto)
qed auto

lemma merge_loop_exact:
  assumes "merge_loop rs ns ne = (b, ns', ne', a)" and "wf_ranges rs" and "ns < ne"
    and "\<forall>(s, e) \<in> set rs. s \<le> ne \<and> ns \<le> e \<longrightarrow> ns \<le> s \<and> e \<le> ne"
  shows "ns' = ns \<and> ne' = ne"
  using assms
proof (induction rs ns ne arbitrary: b a rule: merge_loop.induct)
  case (2 s e rs ns ne)
  consider (skip) "e < ns" | (stop) "\<not> e < ns" "ne < s" | (absorb) "\<not> e < ns" "\<not> ne < s"
    by blast
  then show ?case
  proof cases
    case skip
    with "2.prems"(1) obtain b1 where "merge_loop rs ns ne = (b1, ns', ne', a)"
      by (auto split: prod.splits)
    moreover have "wf_ranges rs"
      and "\<forall>(s, e) \<in> set rs. s \<le> ne \<and> ns \<le> e \<longrightarrow> ns \<le> s \<and> e \<le> ne"
      using "2.prems"(2,4) by simp_all
    ultimately show ?thesis using "2.IH"(1) [OF skip] "2.prems"(3) by blast
  next
    case stop
    with "2.prems"(1) show ?thesis by simp
  next
    case absorb
    with "2.prems"(4) have m: "min ns s = ns" "max ne e = ne" by auto
    with absorb "2.prems"(1) have "merge_loop rs ns ne = (b, ns', ne', a)" by simp
    moreover have "wf_ranges rs"
      and "\<forall>(s, e) \<in> set rs. s \<le> ne \<and> ns \<le> e \<longrightarrow> ns \<le> s \<and> e \<le> ne"
      using "2.prems"(2,4) by simp_all
    ultimately show ?thesis using "2.IH"(2) [OF absorb, unfolded m] "2.prems"(3) by blast
  qed
qed auto

text \<open>A range that touches the new one but sticks out of it is absorbed whole.\<close>

lemma merge_loop_sticks_out:
  assumes "merge_loop rs ns ne = (b, ns', ne', a)" and "wf_ranges rs" and "ns < ne"
    and "(s, e) \<in> set rs" and "s \<le> ne" and "ns \<le> e"
  shows "ns' \<le> s \<and> e \<le> ne'"
  using assms
proof (induction rs ns ne arbitrary: b a rule: merge_loop.induct)
  case (2 s1 e1 rs ns ne)
  consider (skip) "e1 < ns" | (stop) "\<not> e1 < ns" "ne < s1"
    | (absorb) "\<not> e1 < ns" "\<not> ne < s1"
    by blast
  then show ?case
  proof cases
    case skip
    with "2.prems"(1) obtain b1 where l: "merge_loop rs ns ne = (b1, ns', ne', a)"
      by (auto split: prod.splits)
    from skip "2.prems" have "(s, e) \<in> set rs" and "wf_ranges rs" by auto
    then show ?thesis using "2.IH"(1) [OF skip l] "2.prems"(3,5,6) by blast
  next
    case stop
    with "2.prems" show ?thesis by fastforce
  next
    case absorb
    show ?thesis
    proof (cases "(s, e) = (s1, e1)")
      case True
      from absorb "2.prems"(1) have
        "merge_loop rs (min ns s1) (max ne e1) = (b, ns', ne', a)" by simp
      from merge_loop_grows [OF this] True show ?thesis by simp
    next
      case False
      with "2.prems"(4) have "(s, e) \<in> set rs" by auto
      moreover from absorb "2.prems"(1) have
        "merge_loop rs (min ns s1) (max ne e1) = (b, ns', ne', a)" by simp
      moreover have "wf_ranges rs" "min ns s1 < max ne e1" "s \<le> max ne e1" "min ns s1 \<le> e"
        using "2.prems"(2,3,5,6) by auto
      ultimately show ?thesis using "2.IH"(2) [OF absorb] by blast
    qed
  qed
qed auto

section \<open>The insertion\<close>

lemma merge_range_wf:
  assumes "wf_ranges rs" shows "wf_ranges (fst (merge_range rs s e))"
  using assms merge_loop_wf [of rs s e]
  by (auto simp: merge_range_def split: prod.splits)

lemma merge_range_set:
  assumes "wf_ranges rs" shows "range_set (fst (merge_range rs s e)) = range_set rs \<union> {s..<e}"
  using assms merge_loop_set [of rs s e]
  by (auto simp: merge_range_def split: prod.splits)

lemma merge_range_nonempty: "s < e \<Longrightarrow> fst (merge_range rs s e) \<noteq> []"
  by (auto simp: merge_range_def split: prod.splits)

lemma merge_range_total:
  assumes "wf_ranges rs"
  shows "total_bytes (fst (merge_range rs s e)) = total_bytes rs + card ({s..<e} - range_set rs)"
proof -
  have "range_set rs \<union> {s..<e} = range_set rs \<union> ({s..<e} - range_set rs)" by auto
  then have "card (range_set rs \<union> {s..<e}) = card (range_set rs) + card ({s..<e} - range_set rs)"
    by (metis Diff_disjoint card_Un_disjoint finite_Diff finite_atLeastLessThan finite_range_set)
  then show ?thesis
    using assms by (metis card_range_set merge_range_set merge_range_wf)
qed

text \<open>
  The returned count never falls short of the newly covered bytes, and it is exactly
  their number if and only if every range that touches the new one lies inside it.
\<close>

lemma merged_span:
  assumes "wf_ranges rs" and "s < e" and "merge_loop rs s e = (b, ns, ne, a)"
  shows "ns \<le> s" "e \<le> ne" "{ns..<ne} \<subseteq> range_set rs \<union> {s..<e}"
    "snd (merge_range rs s e) = (ne - ns) - card (range_set rs \<inter> {s..<e})"
  using assms merge_loop_set [OF assms(3,1,2)] merge_loop_grows [OF assms(3)]
  by (auto simp: merge_range_def card_covered)

lemma new_plus_covered:
  "card ({s..<e} - R) + card (R \<inter> {s..<e}) = e - (s::nat)"
proof -
  have "card {s..<e} = card ({s..<e} - R) + card ({s..<e} \<inter> R)"
    by (metis add.commute card_Int_Diff finite_atLeastLessThan)
  then show ?thesis by (simp add: Int_commute)
qed

lemma merge_range_count_ge:
  assumes "wf_ranges rs"
  shows "card ({s..<e} - range_set rs) \<le> snd (merge_range rs s e)"
proof (cases "s < e")
  case True
  obtain b ns ne a where l: "merge_loop rs s e = (b, ns, ne, a)" by (metis prod_cases4)
  note m = merged_span [OF assms True l]
  have "e - s \<le> ne - ns" using m(1,2) by simp
  then show ?thesis using m(4) new_plus_covered [of s e "range_set rs"] by simp
qed simp

lemma merge_range_count_iff:
  assumes wf: "wf_ranges rs" and "s < e"
  shows "snd (merge_range rs s e) = card ({s..<e} - range_set rs) \<longleftrightarrow>
    (\<forall>(c, d) \<in> set rs. c \<le> e \<and> s \<le> d \<longrightarrow> s \<le> c \<and> d \<le> e)"
proof -
  obtain b ns ne a where l: "merge_loop rs s e = (b, ns, ne, a)" by (metis prod_cases4)
  note m = merged_span [OF wf \<open>s < e\<close> l]
  have "snd (merge_range rs s e) = card ({s..<e} - range_set rs) \<longleftrightarrow> ne - ns = e - s"
    using m(1,2,4) \<open>s < e\<close> new_plus_covered [of s e "range_set rs"] by linarith
  also have "\<dots> \<longleftrightarrow> ns = s \<and> ne = e" using m(1,2) \<open>s < e\<close> by linarith
  also have "\<dots> \<longleftrightarrow> (\<forall>(c, d) \<in> set rs. c \<le> e \<and> s \<le> d \<longrightarrow> s \<le> c \<and> d \<le> e)"
  proof
    assume "ns = s \<and> ne = e"
    then show "\<forall>(c, d) \<in> set rs. c \<le> e \<and> s \<le> d \<longrightarrow> s \<le> c \<and> d \<le> e"
      using merge_loop_sticks_out [OF l wf \<open>s < e\<close>] by blast
  next
    assume "\<forall>(c, d) \<in> set rs. c \<le> e \<and> s \<le> d \<longrightarrow> s \<le> c \<and> d \<le> e"
    then show "ns = s \<and> ne = e" by (rule merge_loop_exact [OF l wf \<open>s < e\<close>])
  qed
  finally show ?thesis .
qed

section \<open>The interface\<close>

text \<open>
  What a client of the range lists relies on: insertion keeps well-formedness, adds
  exactly the inserted bytes, and counts at least the new ones.
\<close>

locale byte_range_store =
  fixes ins :: "'r \<Rightarrow> nat \<Rightarrow> nat \<Rightarrow> 'r \<times> nat"
    and bytes_of :: "'r \<Rightarrow> nat set"
    and ok :: "'r \<Rightarrow> bool"
  assumes ok_ins: "ok r \<Longrightarrow> ok (fst (ins r s e))"
    and bytes_ins: "ok r \<Longrightarrow> bytes_of (fst (ins r s e)) = bytes_of r \<union> {s..<e}"
    and count_ins: "ok r \<Longrightarrow> card ({s..<e} - bytes_of r) \<le> snd (ins r s e)"
    and finite_bytes: "finite (bytes_of r)"
begin

lemma ins_all:
  assumes "ok r"
  shows "ok (fold (\<lambda>(s, e) r. fst (ins r s e)) xs r) \<and>
    bytes_of (fold (\<lambda>(s, e) r. fst (ins r s e)) xs r) = bytes_of r \<union> (\<Union>(s, e) \<in> set xs. {s..<e})"
  using assms
proof (induction xs arbitrary: r)
  case (Cons x xs)
  obtain s e where x: "x = (s, e)" by fastforce
  have "ok (fst (ins r s e))" using Cons.prems by (rule ok_ins)
  from Cons.IH [OF this] show ?case using Cons.prems by (simp add: x bytes_ins Un_assoc)
qed simp

lemma ins_card:
  assumes "ok r"
  shows "card (bytes_of (fst (ins r s e))) \<le> card (bytes_of r) + snd (ins r s e)"
proof -
  have "card (bytes_of r \<union> {s..<e}) \<le> card (bytes_of r) + card ({s..<e} - bytes_of r)"
    by (metis Un_Diff_cancel card_Un_le)
  then show ?thesis using bytes_ins [OF assms] count_ins [OF assms, of s e] by simp
qed

end

interpretation dirty_ranges: byte_range_store merge_range range_set wf_ranges
  by unfold_locales
    (auto simp: merge_range_wf merge_range_set merge_range_count_ge)

end
