(* ===== verification/Paths.thy ===== *)
theory Paths
  imports Prelude
begin

text \<open>
  \<open>std::path\<close> on Unix as the program uses it. A \<open>PathBuf\<close> is its sequence of
  components, the view on which its \<open>Eq\<close>, \<open>Hash\<close>, \<open>join\<close>, \<open>strip_prefix\<close>, \<open>parent\<close>
  and \<open>file_name\<close> are defined; \<open>path_string\<close> is the text it prints as.
\<close>

datatype component = RootDir | CurDir | ParentDir | Normal string

type_synonym path = "component list"

section \<open>Parsing and printing\<close>

definition comps_of :: "string list \<Rightarrow> path" where
  "comps_of parts =
     map (\<lambda>w. if w = ''..'' then ParentDir else Normal w)
       (filter (\<lambda>w. w \<noteq> [] \<and> w \<noteq> ''.'') parts)"

definition path_of :: "string \<Rightarrow> path" where
  "path_of s =
     (let parts = split_on (CHR ''/'') s in
      if starts_with s ''/'' then RootDir # comps_of parts
      else if hd parts = ''.'' then CurDir # comps_of (tl parts)
      else comps_of parts)"

fun comp_string :: "component \<Rightarrow> string" where
  "comp_string RootDir = []"
| "comp_string CurDir = ''.''"
| "comp_string ParentDir = ''..''"
| "comp_string (Normal w) = w"

fun join_slash :: "string list \<Rightarrow> string" where
  "join_slash [] = []"
| "join_slash [w] = w"
| "join_slash (w # ws) = w @ ''/'' @ join_slash ws"

definition path_string :: "path \<Rightarrow> string" where
  "path_string p = (if p = [RootDir] then ''/'' else join_slash (map comp_string p))"

section \<open>Operations\<close>

definition path_join :: "path \<Rightarrow> path \<Rightarrow> path" where
  "path_join base rel =
     (case rel of
        RootDir # _ \<Rightarrow> rel
      | CurDir # rest \<Rightarrow> if base = [] then rel else base @ rest
      | _ \<Rightarrow> base @ rel)"

definition strip_prefix :: "path \<Rightarrow> path \<Rightarrow> path option" where
  "strip_prefix base p = (if take (length base) p = base then Some (drop (length base) p) else None)"

definition parent :: "path \<Rightarrow> path option" where
  "parent p = (if p = [] \<or> last p = RootDir then None else Some (butlast p))"

definition file_name :: "path \<Rightarrow> string option" where
  "file_name p = (if p = [] then None else case last p of Normal w \<Rightarrow> Some w | _ \<Rightarrow> None)"

text \<open>A relative path: what \<open>strip_prefix\<close> leaves below a directory.\<close>

definition relative :: "path \<Rightarrow> bool" where
  "relative p \<longleftrightarrow> (\<forall>c \<in> set p. c \<noteq> RootDir \<and> c \<noteq> CurDir)"

section \<open>Laws\<close>

lemma strip_prefix_Some_iff [simp]: "strip_prefix base p = Some rel \<longleftrightarrow> p = base @ rel"
  by (auto simp: strip_prefix_def) (metis append_take_drop_id)

lemma strip_prefix_append [simp]: "strip_prefix base (base @ rel) = Some rel"
  by simp

lemma path_join_relative [simp]: "relative rel \<Longrightarrow> path_join base rel = base @ rel"
  by (auto simp: path_join_def relative_def split: list.splits component.splits)

lemma relative_Normal [simp]: "relative [Normal w]"
  by (simp add: relative_def)

lemma relative_append [simp]: "relative (p @ q) \<longleftrightarrow> relative p \<and> relative q"
  by (auto simp: relative_def)

lemma parent_snoc_Normal [simp]: "parent (p @ [Normal w]) = Some p"
  by (simp add: parent_def)

lemma file_name_snoc_Normal [simp]: "file_name (p @ [Normal w]) = Some w"
  by (simp add: file_name_def)

text \<open>A well-formed name is one path component; a well-formed path has the root first.\<close>

definition good_name :: "string \<Rightarrow> bool" where
  "good_name w \<longleftrightarrow> w \<noteq> [] \<and> w \<noteq> ''.'' \<and> w \<noteq> ''..'' \<and> CHR ''/'' \<notin> set w"

fun good_comp :: "component \<Rightarrow> bool" where
  "good_comp ParentDir = True"
| "good_comp (Normal w) = good_name w"
| "good_comp _ = False"

definition good_rel :: "path \<Rightarrow> bool" where
  "good_rel p \<longleftrightarrow> (\<forall>c \<in> set p. good_comp c)"

lemma good_rel_relative: "good_rel p \<Longrightarrow> relative p"
  by (auto simp: good_rel_def relative_def)

lemma comps_of_good: "good_comp c \<Longrightarrow> comps_of (comp_string c # ws) = c # comps_of ws"
  by (cases c) (auto simp: comps_of_def good_name_def)

lemma good_comp_no_slash: "good_comp c \<Longrightarrow> CHR ''/'' \<notin> set (comp_string c)"
  by (cases c) (auto simp: good_name_def)

lemma split_on_no_sep: "c \<notin> set w \<Longrightarrow> split_on c w = [w]"
  by (induction w) auto

lemma split_on_nonempty [simp]: "split_on c s \<noteq> []"
  by (cases s) (auto split: list.splits)

lemma split_on_sep:
  "c \<notin> set w \<Longrightarrow> split_on c (w @ c # s) = w # split_on c s"
  by (induction w) (auto split: list.splits)

lemma split_join_slash:
  "ws \<noteq> [] \<Longrightarrow> \<forall>w \<in> set ws. CHR ''/'' \<notin> set w \<Longrightarrow> split_on (CHR ''/'') (join_slash ws) = ws"
  by (induction ws rule: join_slash.induct) (auto simp: split_on_no_sep split_on_sep)

lemma comps_of_strings: "good_rel p \<Longrightarrow> comps_of (map comp_string p) = p"
proof (induction p)
  case Nil
  show ?case by (simp add: comps_of_def)
qed (simp add: good_rel_def comps_of_good)

lemma good_rel_no_slash:
  "good_rel p \<Longrightarrow> \<forall>w \<in> set (map comp_string p). CHR ''/'' \<notin> set w"
  by (simp add: good_rel_def good_comp_no_slash)

lemma join_slash_Nil_Cons: "join_slash ([] # w # ws) = CHR ''/'' # join_slash (w # ws)"
  by simp

lemma path_of_path_string:
  assumes "good_rel p"
  shows "path_of (path_string (RootDir # p)) = RootDir # p"
proof (cases p)
  case Nil
  then show ?thesis by (simp add: path_of_def path_string_def starts_with_def comps_of_def)
next
  case (Cons c q)
  let ?t = "join_slash (map comp_string p)"
  have s: "path_string (RootDir # p) = CHR ''/'' # ?t"
    by (simp add: path_string_def Cons)
  have "split_on (CHR ''/'') (CHR ''/'' # ?t) = [] # map comp_string p"
    using good_rel_no_slash [OF assms] by (simp add: split_join_slash Cons)
  then show ?thesis using comps_of_strings [OF assms]
    by (simp add: s path_of_def starts_with_def comps_of_def)
qed

lemma path_string_inj:
  "good_rel p \<Longrightarrow> good_rel q \<Longrightarrow>
    path_string (RootDir # p) = path_string (RootDir # q) \<longleftrightarrow> p = q"
  by (metis list.inject path_of_path_string)

end
