(* ===== verification/Upload_Queue.thy ===== *)
theory Upload_Queue
  imports Ranges Paths
begin

text \<open>
  The write-behind upload queue (\<open>QueueState\<close>, \<open>UploadQueue\<close> of
  \<open>crates/bridge/src/fuse_fs.rs\<close>). Every method takes the mutex once, so it is one
  atomic function on the state; the tasks that call it interleave, which is the step
  relation \<open>q_step\<close>. The two waiting methods are functions of the states they
  observe at each wake-up. Byte counters are unbounded naturals; the offsets of a
  range are \<open>u64\<close> and their additions wrap.
\<close>

section \<open>State\<close>

definition WRITE_WINDOW :: nat where "WRITE_WINDOW = 32 * 1024 * 1024"
definition QUEUE_CAP :: nat where "QUEUE_CAP = 96 * 1024 * 1024"
definition CHUNK_MAX :: nat where "CHUNK_MAX = 4 * 1024 * 1024"

datatype send_outcome = Sent | Retry | Drop

record queue_state =
  dirty :: "path \<rightharpoonup> range list"
  inflight :: "path \<rightharpoonup> range list"
  blocked :: "path set"
  dirty_bytes :: nat
  inflight_bytes :: nat
  errors :: nat
  retry_after :: instant
  backoff_ms :: nat

definition new_queue :: "instant \<Rightarrow> queue_state" where
  "new_queue now = \<lparr>dirty = Map.empty, inflight = Map.empty, blocked = {}, dirty_bytes = 0,
     inflight_bytes = 0, errors = 0, retry_after = now, backoff_ms = 0\<rparr>"

section \<open>Operations\<close>

definition overlaps_any :: "range list \<Rightarrow> nat \<Rightarrow> nat \<Rightarrow> bool" where
  "overlaps_any fl start end' \<longleftrightarrow> (\<exists>(s, e) \<in> set fl. start < e \<and> s < end')"

definition enqueue :: "path \<Rightarrow> nat \<Rightarrow> nat \<Rightarrow> queue_state \<Rightarrow> queue_state" where
  "enqueue p start end' q =
     (if end' \<le> start then q
      else
        let q1 = (case inflight q p of
                    None \<Rightarrow> q
                  | Some fl \<Rightarrow>
                      if overlaps_any fl start end' then q\<lparr>blocked := insert p (blocked q)\<rparr> else q);
            (rs, n) = merge_range (get_vec (dirty q) p) start end'
        in q1\<lparr>dirty := (dirty q)(p \<mapsto> rs), dirty_bytes := dirty_bytes q + n\<rparr>)"

text \<open>The part of \<open>take_batch\<close> that moves one piece from the dirty front to the in-flight list.\<close>

fun shrink_front :: "nat \<Rightarrow> range list \<Rightarrow> range list" where
  "shrink_front piece_end [] = []"
| "shrink_front piece_end ((s, e) # rs) = (if piece_end < e then (piece_end, e) # rs else rs)"

definition claim :: "path \<Rightarrow> nat \<Rightarrow> nat \<Rightarrow> queue_state \<Rightarrow> queue_state" where
  "claim p s piece_end q =
     (let rs = shrink_front piece_end (get_vec (dirty q) p) in
      q\<lparr>dirty := (if rs = [] then (dirty q)(p := None) else (dirty q)(p \<mapsto> rs)),
        dirty_bytes := dirty_bytes q - (piece_end - s),
        inflight_bytes := inflight_bytes q + (piece_end - s),
        inflight := (inflight q)(p \<mapsto> get_vec (inflight q) p @ [(s, piece_end)])\<rparr>)"

definition piece_end :: "nat \<Rightarrow> nat \<Rightarrow> nat \<Rightarrow> nat" where
  "piece_end s e window_left = min (min e (u64_add s CHUNK_MAX)) (u64_add s window_left)"

text \<open>The inner loop: pieces of one path until it is empty or the window is full.\<close>

function take_path ::
  "path \<Rightarrow> nat \<Rightarrow> queue_state \<Rightarrow> (path \<times> range) list \<Rightarrow> queue_state \<times> nat \<times> (path \<times> range) list"
where
  "take_path p window_left q out =
     (case get_vec (dirty q) p of
        [] \<Rightarrow> (q\<lparr>dirty := (dirty q)(p := None)\<rparr>, window_left, out)
      | (s, e) # _ \<Rightarrow>
          let pe = piece_end s e window_left in
          if pe \<le> s then (q, window_left, out)
          else
            let q' = claim p s pe q; w' = window_left - (pe - s); out' = out @ [(p, (s, pe))]
            in if w' = 0 then (q', w', out') else take_path p w' q' out')"
  by pat_completeness auto
termination
proof (relation "measure (\<lambda>(p, w, q, out). w)", goal_cases)
  case (2 p w q out x xs s e pe q' w' out')
  have "pe \<le> s + w"
    using u64_add_le [of s w] by (simp add: 2 piece_end_def)
  with 2 show ?case by auto
qed simp

declare take_path.simps [simp del]

text \<open>The outer loop, over the paths in the iteration order of the hash map's keys.\<close>

fun take_paths ::
  "path list \<Rightarrow> nat \<Rightarrow> queue_state \<Rightarrow> (path \<times> range) list \<Rightarrow> queue_state \<times> (path \<times> range) list"
where
  "take_paths [] window_left q out = (q, out)"
| "take_paths (p # ps) window_left q out =
     (if window_left = 0 then (q, out)
      else if p \<in> blocked q then take_paths ps window_left q out
      else case take_path p window_left q out of (q', w', out') \<Rightarrow> take_paths ps w' q' out')"

definition take_batch ::
  "instant \<Rightarrow> path list \<Rightarrow> queue_state \<Rightarrow> queue_state \<times> (path \<times> range) list" where
  "take_batch now keys q =
     (if keys = [] \<or> now < retry_after q then (q, [])
      else
        let window_left = WRITE_WINDOW - inflight_bytes q in
        if window_left = 0 then (q, []) else take_paths keys window_left q [])"

definition drop_inflight :: "path \<Rightarrow> range \<Rightarrow> queue_state \<Rightarrow> queue_state" where
  "drop_inflight p r q =
     q\<lparr>inflight_bytes := inflight_bytes q - (snd r - fst r),
       inflight := (case inflight q p of
           None \<Rightarrow> inflight q
         | Some rs \<Rightarrow>
             (let rs' = filter (\<lambda>x. x \<noteq> r) rs in
              if rs' = [] then (inflight q)(p := None) else (inflight q)(p \<mapsto> rs')))\<rparr>"

definition next_backoff :: "nat \<Rightarrow> nat" where
  "next_backoff b = min (max b 100 * 2) 2000"

definition record_outcome :: "instant \<Rightarrow> path \<Rightarrow> range \<Rightarrow> send_outcome \<Rightarrow> queue_state \<Rightarrow> queue_state" where
  "record_outcome now p r outcome q =
     (case outcome of
        Sent \<Rightarrow> q\<lparr>retry_after := now, backoff_ms := 0\<rparr>
      | Retry \<Rightarrow>
          let b = next_backoff (backoff_ms q);
              (rs, n) = merge_range (get_vec (dirty q) p) (fst r) (snd r)
          in q\<lparr>errors := errors q + 1, backoff_ms := b, retry_after := now + b,
               dirty := (dirty q)(p \<mapsto> rs), dirty_bytes := dirty_bytes q + n\<rparr>
      | Drop \<Rightarrow> q\<lparr>errors := errors q + 1\<rparr>)"

definition release_block :: "path \<Rightarrow> queue_state \<Rightarrow> queue_state" where
  "release_block p q = (if inflight q p = None then q\<lparr>blocked := blocked q - {p}\<rparr> else q)"

definition finish :: "instant \<Rightarrow> path \<Rightarrow> range \<Rightarrow> send_outcome \<Rightarrow> queue_state \<Rightarrow> queue_state" where
  "finish now p r outcome q = release_block p (record_outcome now p r outcome (drop_inflight p r q))"

section \<open>Waiting\<close>

definition pending_any :: "path list \<Rightarrow> queue_state \<Rightarrow> bool" where
  "pending_any paths q \<longleftrightarrow>
     (\<exists>p \<in> set paths. get_vec (dirty q) p \<noteq> [] \<or> get_vec (inflight q) p \<noteq> [])"

datatype drain_wake = Woken queue_state | DeadlineHit

text \<open>
  \<open>wait_drain\<close>: the state at each check of the loop. \<open>None\<close> is "still waiting".
\<close>

fun drain_loop ::
  "path list \<Rightarrow> nat \<Rightarrow> queue_state \<Rightarrow> drain_wake list \<Rightarrow> (errno + unit) option" where
  "drain_loop paths start_errors q ws =
     (if \<not> pending_any paths q then Some (Inr ())
      else if start_errors < errors q then Some (Inl EIO)
      else case ws of
        [] \<Rightarrow> None
      | DeadlineHit # _ \<Rightarrow> Some (Inl EIO)
      | Woken q' # ws' \<Rightarrow> drain_loop paths start_errors q' ws')"

declare drain_loop.simps [simp del]

definition wait_drain :: "path list \<Rightarrow> queue_state \<Rightarrow> drain_wake list \<Rightarrow> (errno + unit) option" where
  "wait_drain paths q ws = drain_loop paths (errors q) q ws"

text \<open>\<open>wait_below\<close> returns at the first observed state whose backlog is within the cap.\<close>

fun wait_below :: "nat \<Rightarrow> queue_state list \<Rightarrow> bool" where
  "wait_below cap [] = False"
| "wait_below cap (q # qs) = (dirty_bytes q \<le> cap \<or> wait_below cap qs)"

section \<open>The tasks around the queue\<close>

text \<open>
  FUSE handlers enqueue, the flusher claims batches, and each send task reports the
  outcome of a range it was given. A kernel file offset is at most \<open>2^63\<close>.
\<close>

definition off_max :: nat where "off_max = 2 ^ 63"

inductive q_step :: "queue_state \<Rightarrow> queue_state \<Rightarrow> bool" where
  q_enqueue: "end' \<le> off_max \<Longrightarrow> q_step q (enqueue p start end' q)"
| q_take: "set keys = dom (dirty q) \<Longrightarrow> distinct keys \<Longrightarrow> q_step q (fst (take_batch now keys q))"
| q_finish: "r \<in> set (get_vec (inflight q) p) \<Longrightarrow> q_step q (finish now p r outcome q)"

inductive_cases q_stepE: "q_step q q'"

lemmas queue_op_defs = enqueue_def claim_def take_batch_def drop_inflight_def
  record_outcome_def release_block_def finish_def

end
