(* ===== verification/Upload_Queue_Inv.thy ===== *)
theory Upload_Queue_Inv
  imports Upload_Queue
begin

text \<open>
  The invariant of the upload queue and its preservation by every operation. Per path:
  the dirty list is well formed, in-flight ranges are pairwise disjoint, and dirty and
  in-flight bytes are disjoint unless the path is blocked. Globally: \<open>inflight_bytes\<close> is
  the exact in-flight total and stays within the window, and \<open>dirty_bytes\<close> is at least
  the dirty total; the difference is the \<open>slack\<close>, which no operation reduces.
\<close>

section \<open>Disjoint in-flight ranges\<close>

fun disjoint_ranges :: "range list \<Rightarrow> bool" where
  "disjoint_ranges [] = True"
| "disjoint_ranges ((s, e) # rs) =
     (s < e \<and> (\<forall>(a, b) \<in> set rs. e \<le> a \<or> b \<le> s) \<and> disjoint_ranges rs)"

lemma disjoint_ranges_nonempty: "disjoint_ranges rs \<Longrightarrow> (s, e) \<in> set rs \<Longrightarrow> s < e"
  by (induction rs rule: disjoint_ranges.induct) auto

lemma range_set_Int_empty:
  assumes "\<forall>(a, b) \<in> set rs. a < b" and "s < e"
  shows "range_set rs \<inter> {s..<e} = {} \<longleftrightarrow> (\<forall>(a, b) \<in> set rs. e \<le> a \<or> b \<le> s)"
proof
  assume emp: "range_set rs \<inter> {s..<e} = {}"
  show "\<forall>(a, b) \<in> set rs. e \<le> a \<or> b \<le> s"
  proof safe
    fix a b
    assume ab: "(a, b) \<in> set rs" and "\<not> b \<le> s"
    show "e \<le> a"
    proof (rule ccontr)
      assume "\<not> e \<le> a"
      moreover from assms(1) ab have "a < b" by blast
      ultimately have "max a s \<in> range_set rs" and "max a s \<in> {s..<e}"
        using in_range_set [OF ab, of "max a s"] \<open>\<not> b \<le> s\<close> assms(2) by auto
      with emp show False by blast
    qed
  qed
next
  assume "\<forall>(a, b) \<in> set rs. e \<le> a \<or> b \<le> s"
  then show "range_set rs \<inter> {s..<e} = {}" by (fastforce simp: range_set_def)
qed

lemma overlaps_any_iff:
  assumes "disjoint_ranges fl" and "start < end'"
  shows "overlaps_any fl start end' \<longleftrightarrow> range_set fl \<inter> {start..<end'} \<noteq> {}"
proof -
  have "\<forall>(a, b) \<in> set fl. a < b" using disjoint_ranges_nonempty [OF assms(1)] by blast
  from range_set_Int_empty [OF this assms(2)] show ?thesis
    by (auto simp: overlaps_any_def not_le)
qed

lemma disjoint_ranges_snoc:
  "disjoint_ranges (rs @ [(s, e)]) \<longleftrightarrow>
     disjoint_ranges rs \<and> s < e \<and> (\<forall>(a, b) \<in> set rs. e \<le> a \<or> b \<le> s)"
  by (induction rs rule: disjoint_ranges.induct) auto

lemma disjoint_ranges_filter: "disjoint_ranges rs \<Longrightarrow> disjoint_ranges (filter P rs)"
  by (induction rs rule: disjoint_ranges.induct) auto

text \<open>Removing one claimed range removes exactly its bytes.\<close>

lemma disjoint_ranges_remove:
  assumes "disjoint_ranges rs" and "r \<in> set rs"
  shows "range_set (filter (\<lambda>x. x \<noteq> r) rs) = range_set rs - {fst r..<snd r}"
    and "total_bytes (filter (\<lambda>x. x \<noteq> r) rs) + (snd r - fst r) = total_bytes rs"
  using assms
proof (induction rs rule: disjoint_ranges.induct)
  case (2 s e rs)
  { case 1
    show ?case
    proof (cases "r = (s, e)")
      case True
      with 1 have dj: "\<forall>(a, b) \<in> set rs. e \<le> a \<or> b \<le> s" and "s < e" by auto
      then have "r \<notin> set rs" using True by auto
      then have "filter (\<lambda>x. x \<noteq> r) rs = rs" by (auto intro: filter_True)
      moreover have "range_set rs \<inter> {s..<e} = {}"
        using dj by (fastforce simp: range_set_def)
      ultimately show ?thesis using True by auto
    next
      case False
      with 1 have r: "r \<in> set rs" by auto
      with 1 have "snd r \<le> s \<or> e \<le> fst r" by (cases r) fastforce
      with 1 2 r False show ?thesis by auto
    qed
  next
    case 2
    show ?case
    proof (cases "r = (s, e)")
      case True
      with 2 have "r \<notin> set rs" by auto
      then have "filter (\<lambda>x. x \<noteq> r) rs = rs" by (auto intro: filter_True)
      then show ?thesis using True by simp
    next
      case False
      with 2 "2.IH" show ?thesis by auto
    qed }
qed auto

section \<open>Byte totals over all paths\<close>

definition load :: "(path \<rightharpoonup> range list) \<Rightarrow> nat" where
  "load m = (\<Sum>p \<in> dom m. total_bytes (get_vec m p))"

lemma load_superset:
  "finite A \<Longrightarrow> dom m \<subseteq> A \<Longrightarrow> load m = (\<Sum>p \<in> A. total_bytes (get_vec m p))"
  unfolding load_def
  by (rule sum.mono_neutral_left) (auto simp: get_vec_def dom_def split: option.splits)

lemma load_upd:
  assumes "finite (dom m)"
  shows "load (m(p \<mapsto> xs)) + total_bytes (get_vec m p) = load m + total_bytes xs"
proof -
  let ?A = "insert p (dom m)"
  have "load m = (\<Sum>x \<in> ?A. total_bytes (get_vec m x))"
    and "load (m(p \<mapsto> xs)) = (\<Sum>x \<in> ?A. total_bytes (get_vec (m(p \<mapsto> xs)) x))"
    by (rule load_superset; use assms in auto)+
  moreover have "(\<Sum>x \<in> ?A - {p}. total_bytes (get_vec (m(p \<mapsto> xs)) x)) =
      (\<Sum>x \<in> ?A - {p}. total_bytes (get_vec m x))"
    by (rule sum.cong) auto
  ultimately show ?thesis
    using assms by (simp add: sum.remove [of ?A p])
qed

lemma load_del:
  assumes "finite (dom m)"
  shows "load (m(p := None)) + total_bytes (get_vec m p) = load m"
proof -
  let ?A = "insert p (dom m)"
  have "load m = (\<Sum>x \<in> ?A. total_bytes (get_vec m x))"
    and "load (m(p := None)) = (\<Sum>x \<in> ?A. total_bytes (get_vec (m(p := None)) x))"
    by (rule load_superset; use assms in auto)+
  moreover have "(\<Sum>x \<in> ?A - {p}. total_bytes (get_vec (m(p := None)) x)) =
      (\<Sum>x \<in> ?A - {p}. total_bytes (get_vec m x))"
    by (rule sum.cong) auto
  ultimately show ?thesis
    using assms by (simp add: sum.remove [of ?A p])
qed

lemma load_ge:
  assumes "finite (dom m)"
  shows "total_bytes (get_vec m p) \<le> load m"
  using load_del [OF assms, of p] by simp

section \<open>The invariant\<close>

definition path_inv :: "queue_state \<Rightarrow> path \<Rightarrow> bool" where
  "path_inv q p \<longleftrightarrow>
     wf_ranges (get_vec (dirty q) p) \<and> disjoint_ranges (get_vec (inflight q) p) \<and>
     (p \<notin> blocked q \<longrightarrow>
        range_set (get_vec (dirty q) p) \<inter> range_set (get_vec (inflight q) p) = {}) \<and>
     (p \<in> blocked q \<longrightarrow> get_vec (inflight q) p \<noteq> []) \<and>
     (\<forall>r \<in> set (get_vec (dirty q) p) \<union> set (get_vec (inflight q) p). snd r \<le> off_max) \<and>
     dirty q p \<noteq> Some [] \<and> inflight q p \<noteq> Some []"

definition count_inv :: "queue_state \<Rightarrow> bool" where
  "count_inv q \<longleftrightarrow>
     finite (dom (dirty q)) \<and> finite (dom (inflight q)) \<and>
     load (dirty q) \<le> dirty_bytes q \<and> inflight_bytes q = load (inflight q) \<and>
     inflight_bytes q \<le> WRITE_WINDOW \<and>
     (backoff_ms q = 0 \<or> 200 \<le> backoff_ms q \<and> backoff_ms q \<le> 2000)"

definition queue_inv :: "queue_state \<Rightarrow> bool" where
  "queue_inv q \<longleftrightarrow> (\<forall>p. path_inv q p) \<and> count_inv q"

definition slack :: "queue_state \<Rightarrow> nat" where
  "slack q = dirty_bytes q - load (dirty q)"

definition pending_bytes :: "queue_state \<Rightarrow> path \<Rightarrow> nat set" where
  "pending_bytes q p = range_set (get_vec (dirty q) p) \<union> range_set (get_vec (inflight q) p)"

lemma queue_inv_new: "queue_inv (new_queue now)"
  by (simp add: queue_inv_def path_inv_def count_inv_def new_queue_def load_def)

lemma path_inv_cong:
  "get_vec (dirty q') p = get_vec (dirty q) p \<Longrightarrow> get_vec (inflight q') p = get_vec (inflight q) p \<Longrightarrow>
   (p \<in> blocked q' \<longleftrightarrow> p \<in> blocked q) \<Longrightarrow> dirty q' p = dirty q p \<Longrightarrow>
   inflight q' p = inflight q p \<Longrightarrow> path_inv q' p = path_inv q p"
  by (simp add: path_inv_def)

lemma ends_bounded_iff:
  assumes "\<forall>(a, b) \<in> set rs. a < b"
  shows "(\<forall>r \<in> set rs. snd r \<le> B) \<longleftrightarrow> range_set rs \<subseteq> {..<B}"
proof
  assume "range_set rs \<subseteq> {..<B}"
  show "\<forall>r \<in> set rs. snd r \<le> B"
  proof safe
    fix a b
    assume ab: "(a, b) \<in> set rs"
    with assms have "a < b" by blast
    then have "b - 1 \<in> range_set rs" using in_range_set [OF ab, of "b - 1"] by simp
    with \<open>range_set rs \<subseteq> {..<B}\<close> \<open>a < b\<close> show "snd (a, b) \<le> B" by auto
  qed
qed (fastforce simp: range_set_def)

lemma wf_ends_bounded:
  "wf_ranges rs \<Longrightarrow> (\<forall>r \<in> set rs. snd r \<le> B) \<longleftrightarrow> range_set rs \<subseteq> {..<B}"
  using wf_ranges_nonempty [of rs] by (intro ends_bounded_iff) blast

lemma merge_range_bounded:
  assumes "wf_ranges rs" and "\<forall>r \<in> set rs. snd r \<le> B" and "e \<le> B"
  shows "\<forall>r \<in> set (fst (merge_range rs s e)). snd r \<le> B"
proof -
  have "range_set rs \<subseteq> {..<B}" using assms(2) wf_ends_bounded [OF assms(1)] by blast
  then have "range_set (fst (merge_range rs s e)) \<subseteq> {..<B}"
    using assms(3) by (auto simp: merge_range_set [OF assms(1)])
  then show ?thesis using wf_ends_bounded [OF merge_range_wf [OF assms(1)]] by blast
qed

text \<open>Adding a range to a dirty list: what \<open>enqueue\<close> and a requeue share.\<close>

definition add_dirty :: "path \<Rightarrow> nat \<Rightarrow> nat \<Rightarrow> queue_state \<Rightarrow> queue_state" where
  "add_dirty p s e q =
     q\<lparr>dirty := (dirty q)(p \<mapsto> fst (merge_range (get_vec (dirty q) p) s e)),
       dirty_bytes := dirty_bytes q + snd (merge_range (get_vec (dirty q) p) s e)\<rparr>"

lemma add_dirty_simps [simp]:
  "inflight (add_dirty p s e q) = inflight q" "blocked (add_dirty p s e q) = blocked q"
  "inflight_bytes (add_dirty p s e q) = inflight_bytes q" "errors (add_dirty p s e q) = errors q"
  "backoff_ms (add_dirty p s e q) = backoff_ms q"
  by (simp_all add: add_dirty_def)

lemma add_dirty_counts:
  assumes "count_inv q" and "wf_ranges (get_vec (dirty q) p)"
  shows "count_inv (add_dirty p s e q)" and "slack q \<le> slack (add_dirty p s e q)"
proof -
  let ?rs = "get_vec (dirty q) p"
  have fin: "finite (dom (dirty q))" using assms(1) by (simp add: count_inv_def)
  have "load (dirty (add_dirty p s e q)) + total_bytes ?rs =
      load (dirty q) + (total_bytes ?rs + card ({s..<e} - range_set ?rs))"
    using load_upd [OF fin, of p "fst (merge_range ?rs s e)"]
    by (simp add: add_dirty_def merge_range_total [OF assms(2)])
  then have l: "load (dirty (add_dirty p s e q)) =
      load (dirty q) + card ({s..<e} - range_set ?rs)" by simp
  have n: "card ({s..<e} - range_set ?rs) \<le> snd (merge_range ?rs s e)"
    by (rule merge_range_count_ge [OF assms(2)])
  show "count_inv (add_dirty p s e q)"
    using assms(1) l n by (auto simp: count_inv_def add_dirty_def)
  show "slack q \<le> slack (add_dirty p s e q)"
    using assms(1) l n unfolding slack_def count_inv_def
    by (simp add: add_dirty_def)
qed

lemma add_dirty_path_inv:
  assumes "queue_inv q" and "s < e" and "e \<le> off_max"
    and "p \<notin> blocked q \<longrightarrow> {s..<e} \<inter> range_set (get_vec (inflight q) p) = {}"
  shows "path_inv (add_dirty p s e q) p'"
proof (cases "p' = p")
  case False
  then have "path_inv (add_dirty p s e q) p' = path_inv q p'"
    by (intro path_inv_cong) (simp_all add: add_dirty_def)
  then show ?thesis using assms(1) by (simp add: queue_inv_def)
next
  case True
  have pi: "path_inv q p" using assms(1) by (simp add: queue_inv_def)
  then have wf: "wf_ranges (get_vec (dirty q) p)" by (simp add: path_inv_def)
  have d: "get_vec (dirty (add_dirty p s e q)) p = fst (merge_range (get_vec (dirty q) p) s e)"
    "dirty (add_dirty p s e q) p \<noteq> Some []"
    using merge_range_nonempty [OF assms(2)] by (simp_all add: add_dirty_def)
  have "\<forall>r \<in> set (get_vec (dirty q) p). snd r \<le> off_max" using pi by (auto simp: path_inv_def)
  from merge_range_bounded [OF wf this assms(3)] pi assms(4) True d
  show ?thesis
    by (auto simp: path_inv_def merge_range_wf merge_range_set wf)
qed

lemma add_dirty_inv:
  assumes "queue_inv q" and "s < e" and "e \<le> off_max"
    and "p \<notin> blocked q \<longrightarrow> {s..<e} \<inter> range_set (get_vec (inflight q) p) = {}"
  shows "queue_inv (add_dirty p s e q)"
  using add_dirty_path_inv [OF assms] add_dirty_counts(1) [of q p s e] assms(1)
  by (auto simp: queue_inv_def path_inv_def)

lemma add_dirty_pending:
  assumes "wf_ranges (get_vec (dirty q) p)"
  shows "pending_bytes (add_dirty p s e q) p' =
    pending_bytes q p' \<union> (if p' = p then {s..<e} else {})"
  using assms by (auto simp: pending_bytes_def add_dirty_def merge_range_set)

section \<open>Enqueue\<close>

definition block_path :: "path \<Rightarrow> queue_state \<Rightarrow> queue_state" where
  "block_path p q = q\<lparr>blocked := insert p (blocked q)\<rparr>"

lemma block_path_inv:
  assumes "queue_inv q" and "get_vec (inflight q) p \<noteq> []"
  shows "queue_inv (block_path p q)"
  using assms by (auto simp: queue_inv_def path_inv_def count_inv_def block_path_def)

lemma enqueue_alt:
  "enqueue p s e q =
     (if e \<le> s then q
      else add_dirty p s e (if overlaps_any (get_vec (inflight q) p) s e then block_path p q else q))"
  by (auto simp: enqueue_def add_dirty_def block_path_def get_vec_def overlaps_any_def
      split: option.splits prod.splits)

lemma enqueue_inv:
  assumes "queue_inv q" and "e \<le> off_max"
  shows "queue_inv (enqueue p s e q)"
proof (cases "e \<le> s")
  case False
  let ?fl = "get_vec (inflight q) p"
  let ?q = "if overlaps_any ?fl s e then block_path p q else q"
  have dj: "disjoint_ranges ?fl" using assms(1) by (simp add: queue_inv_def path_inv_def)
  have ov: "overlaps_any ?fl s e \<longleftrightarrow> range_set ?fl \<inter> {s..<e} \<noteq> {}"
    using overlaps_any_iff [OF dj] False by simp
  have "queue_inv ?q"
    using assms(1) block_path_inv [OF assms(1), of p] by (cases "?fl = []") (auto simp: overlaps_any_def)
  moreover have "p \<notin> blocked ?q \<longrightarrow> {s..<e} \<inter> range_set (get_vec (inflight ?q) p) = {}"
    using ov by (auto simp: block_path_def)
  ultimately show ?thesis using False assms(2) add_dirty_inv [of ?q s e p]
    by (simp add: enqueue_alt)
qed (use assms in \<open>simp add: enqueue_alt\<close>)

lemma enqueue_pending:
  assumes "queue_inv q"
  shows "pending_bytes (enqueue p s e q) p' = pending_bytes q p' \<union> (if p' = p then {s..<e} else {})"
proof -
  have wf: "wf_ranges (get_vec (dirty q) p)" using assms by (simp add: queue_inv_def path_inv_def)
  then have "wf_ranges (get_vec (dirty (block_path p q)) p)" by (simp add: block_path_def)
  from add_dirty_pending [OF this] add_dirty_pending [OF wf]
  show ?thesis by (auto simp: enqueue_alt pending_bytes_def block_path_def)
qed

lemma enqueue_slack:
  assumes "queue_inv q"
  shows "slack q \<le> slack (enqueue p s e q)"
proof -
  have c: "count_inv q" "wf_ranges (get_vec (dirty q) p)"
    using assms by (simp_all add: queue_inv_def path_inv_def)
  moreover have "count_inv (block_path p q)" "wf_ranges (get_vec (dirty (block_path p q)) p)"
    "slack (block_path p q) = slack q"
    using c by (simp_all add: count_inv_def block_path_def slack_def)
  ultimately have "slack q \<le> slack (add_dirty p s e q)"
    and "slack q \<le> slack (add_dirty p s e (block_path p q))"
    using add_dirty_counts(2) [of q p s e] add_dirty_counts(2) [of "block_path p q" p s e] by simp_all
  then show ?thesis by (simp add: enqueue_alt)
qed

end
