(* ===== verification/Upload_Queue_Steps.thy ===== *)
theory Upload_Queue_Steps
  imports Upload_Queue_Inv
begin

text \<open>
  The claiming loop of \<open>take_batch\<close> and the bookkeeping of \<open>finish\<close>: both keep the queue
  invariant, and no pending byte is lost. The last section lifts the invariant and the
  monotone slack to every reachable state.
\<close>

section \<open>Claiming one piece\<close>

lemma shrink_front_facts:
  assumes "wf_ranges ((s, e) # rest)" and "s < pe" and "pe \<le> e"
  shows "wf_ranges (shrink_front pe ((s, e) # rest))"
    and "range_set (shrink_front pe ((s, e) # rest)) = range_set ((s, e) # rest) - {s..<pe}"
    and "total_bytes (shrink_front pe ((s, e) # rest)) + (pe - s) = total_bytes ((s, e) # rest)"
    and "\<forall>r \<in> set (shrink_front pe ((s, e) # rest)). \<exists>r' \<in> set ((s, e) # rest). snd r \<le> snd r'"
proof -
  have above: "\<And>x. x \<in> range_set rest \<Longrightarrow> e < x"
    using assms(1) by (auto intro: range_set_above)
  show "wf_ranges (shrink_front pe ((s, e) # rest))" using assms by auto
  show "range_set (shrink_front pe ((s, e) # rest)) = range_set ((s, e) # rest) - {s..<pe}"
    using assms by (auto dest: above)
  show "total_bytes (shrink_front pe ((s, e) # rest)) + (pe - s) = total_bytes ((s, e) # rest)"
    using assms by auto
  show "\<forall>r \<in> set (shrink_front pe ((s, e) # rest)). \<exists>r' \<in> set ((s, e) # rest). snd r \<le> snd r'"
    by auto
qed

definition claimable :: "path \<Rightarrow> nat \<Rightarrow> nat \<Rightarrow> queue_state \<Rightarrow> bool" where
  "claimable p s pe q \<longleftrightarrow> p \<notin> blocked q \<and> s < pe \<and> pe - s \<le> CHUNK_MAX \<and>
     inflight_bytes q + (pe - s) \<le> WRITE_WINDOW \<and>
     (\<exists>e rest. get_vec (dirty q) p = (s, e) # rest \<and> pe \<le> e)"

lemma claim_vecs:
  "get_vec (dirty (claim p s pe q)) p' =
     (if p' = p then shrink_front pe (get_vec (dirty q) p) else get_vec (dirty q) p')"
  "get_vec (inflight (claim p s pe q)) p' =
     (if p' = p then get_vec (inflight q) p @ [(s, pe)] else get_vec (inflight q) p')"
  "dirty (claim p s pe q) p \<noteq> Some []" "inflight (claim p s pe q) p \<noteq> Some []"
  "p' \<noteq> p \<Longrightarrow> dirty (claim p s pe q) p' = dirty q p'"
  "p' \<noteq> p \<Longrightarrow> inflight (claim p s pe q) p' = inflight q p'"
  by (simp_all add: claim_def Let_def)

lemma claim_simps [simp]:
  "blocked (claim p s pe q) = blocked q" "errors (claim p s pe q) = errors q"
  "backoff_ms (claim p s pe q) = backoff_ms q" "retry_after (claim p s pe q) = retry_after q"
  "inflight_bytes (claim p s pe q) = inflight_bytes q + (pe - s)"
  "dirty_bytes (claim p s pe q) = dirty_bytes q - (pe - s)"
  by (simp_all add: claim_def Let_def)

lemma claim_loads:
  assumes "count_inv q" and "wf_ranges ((s, e) # rest)" and "get_vec (dirty q) p = (s, e) # rest"
    and "s < pe" and "pe \<le> e"
  shows "load (dirty (claim p s pe q)) + (pe - s) = load (dirty q)"
    and "load (inflight (claim p s pe q)) = load (inflight q) + (pe - s)"
    and "pe - s \<le> dirty_bytes q"
proof -
  have fin: "finite (dom (dirty q))" "finite (dom (inflight q))"
    using assms(1) by (simp_all add: count_inv_def)
  note sh = shrink_front_facts(3) [OF assms(2,4,5)]
  show d: "load (dirty (claim p s pe q)) + (pe - s) = load (dirty q)"
  proof (cases "shrink_front pe ((s, e) # rest) = []")
    case True
    then have "dirty (claim p s pe q) = (dirty q)(p := None)"
      by (simp add: claim_def Let_def assms(3))
    with True sh load_del [OF fin(1), of p] show ?thesis by (simp add: assms(3) del: shrink_front.simps)
  next
    case False
    then have "dirty (claim p s pe q) = (dirty q)(p \<mapsto> shrink_front pe ((s, e) # rest))"
      by (simp add: claim_def Let_def assms(3) del: shrink_front.simps)
    with sh load_upd [OF fin(1), of p "shrink_front pe ((s, e) # rest)"]
    show ?thesis by (simp add: assms(3) del: shrink_front.simps)
  qed
  show "load (inflight (claim p s pe q)) = load (inflight q) + (pe - s)"
    using load_upd [OF fin(2), of p "get_vec (inflight q) p @ [(s, pe)]"]
    by (simp add: claim_def Let_def)
  show "pe - s \<le> dirty_bytes q" using d assms(1) by (simp add: count_inv_def)
qed

lemma claim_path_inv:
  assumes "path_inv q p" and "claimable p s pe q"
  shows "path_inv (claim p s pe q) p"
proof -
  obtain e rest where v: "get_vec (dirty q) p = (s, e) # rest" and pe: "pe \<le> e" "s < pe"
    and nb: "p \<notin> blocked q" using assms(2) by (auto simp: claimable_def)
  have wf: "wf_ranges ((s, e) # rest)" and dj: "disjoint_ranges (get_vec (inflight q) p)"
    and sep: "range_set ((s, e) # rest) \<inter> range_set (get_vec (inflight q) p) = {}"
    and bd: "\<forall>r \<in> set ((s, e) # rest) \<union> set (get_vec (inflight q) p). snd r \<le> off_max"
    using assms(1) v nb by (simp_all add: path_inv_def)
  note sh = shrink_front_facts [OF wf pe(2,1)]
  have "{s..<pe} \<subseteq> range_set ((s, e) # rest)" using pe by auto
  then have "range_set (get_vec (inflight q) p) \<inter> {s..<pe} = {}" using sep by blast
  moreover have "\<forall>(a, b) \<in> set (get_vec (inflight q) p). a < b"
    using disjoint_ranges_nonempty [OF dj] by blast
  ultimately have "\<forall>(a, b) \<in> set (get_vec (inflight q) p). pe \<le> a \<or> b \<le> s"
    using range_set_Int_empty pe(2) by blast
  then have "disjoint_ranges (get_vec (inflight q) p @ [(s, pe)])"
    using dj pe by (simp add: disjoint_ranges_snoc)
  moreover have one: "range_set [(s, pe)] = {s..<pe}" by simp
  moreover have "pe \<le> off_max" using bd pe by auto
  moreover have "\<forall>r \<in> set (shrink_front pe ((s, e) # rest)). snd r \<le> off_max"
    using sh(4) bd by (meson UnI1 le_trans)
  moreover have "range_set (shrink_front pe ((s, e) # rest)) \<inter>
      range_set (get_vec (inflight q) p @ [(s, pe)]) = {}"
    unfolding sh(2) range_set_simps(3) one using sep by blast
  ultimately show ?thesis
    using sh(1) bd nb by (auto simp: path_inv_def claim_vecs v simp del: shrink_front.simps)
qed

lemma claim_inv:
  assumes "queue_inv q" and "claimable p s pe q"
  shows "queue_inv (claim p s pe q)"
    and "pending_bytes (claim p s pe q) p' = pending_bytes q p'"
    and "slack (claim p s pe q) = slack q"
proof -
  obtain e rest where v: "get_vec (dirty q) p = (s, e) # rest" and pe: "s < pe" "pe \<le> e"
    and w: "inflight_bytes q + (pe - s) \<le> WRITE_WINDOW"
    using assms(2) by (auto simp: claimable_def)
  have wf: "wf_ranges ((s, e) # rest)" and c: "count_inv q"
    using assms(1) v [symmetric] by (simp_all add: queue_inv_def path_inv_def)
  note l = claim_loads [OF c wf v pe]
  have "path_inv (claim p s pe q) x" for x
  proof (cases "x = p")
    case True
    then show ?thesis using claim_path_inv assms by (simp add: queue_inv_def)
  next
    case False
    then have "path_inv (claim p s pe q) x = path_inv q x"
      by (intro path_inv_cong) (simp_all add: claim_vecs)
    then show ?thesis using assms(1) by (simp add: queue_inv_def)
  qed
  moreover have "finite (dom (dirty (claim p s pe q)))" "finite (dom (inflight (claim p s pe q)))"
    using c by (simp_all add: claim_def Let_def count_inv_def)
  ultimately show "queue_inv (claim p s pe q)"
    using c l w by (auto simp: queue_inv_def count_inv_def)
  show "slack (claim p s pe q) = slack q" using l c by (simp add: slack_def count_inv_def)
  have "{s..<pe} \<subseteq> range_set ((s, e) # rest)" using pe by auto
  moreover have "range_set [(s, pe)] = {s..<pe}" by simp
  ultimately have "(range_set ((s, e) # rest) - {s..<pe}) \<union> (R \<union> range_set [(s, pe)]) =
      range_set ((s, e) # rest) \<union> R" for R
    by blast
  then show "pending_bytes (claim p s pe q) p' = pending_bytes q p'"
    using shrink_front_facts(2) [OF wf pe]
    by (simp add: pending_bytes_def claim_vecs v del: shrink_front.simps range_set_simps(2))
qed

section \<open>Claiming a batch\<close>

inductive claims :: "queue_state \<Rightarrow> (path \<times> range) list \<Rightarrow> queue_state \<Rightarrow> bool" for q0 where
  claims_none: "claims q0 [] q0"
| claims_piece: "claims q0 out q \<Longrightarrow> claimable p s pe q \<Longrightarrow>
     claims q0 (out @ [(p, (s, pe))]) (claim p s pe q)"

lemma claims_keep:
  assumes "claims q out q'" and "queue_inv q"
  shows "queue_inv q' \<and> blocked q' = blocked q \<and> errors q' = errors q \<and>
    (\<forall>p. pending_bytes q' p = pending_bytes q p) \<and> slack q' = slack q \<and>
    inflight_bytes q' = inflight_bytes q + sum_list (map (\<lambda>(p, s, e). e - s) out) \<and>
    (\<forall>(p, s, e) \<in> set out. p \<notin> blocked q \<and> s < e \<and> e - s \<le> CHUNK_MAX) \<and>
    (\<forall>p. get_vec (inflight q') p =
       get_vec (inflight q) p @ map snd (filter (\<lambda>x. fst x = p) out))"
  using assms
proof (induction rule: claims.induct)
  case (claims_piece out q' p s pe)
  then show ?case
    using claim_inv [of q' p s pe] by (auto simp: claim_vecs claimable_def)
qed simp

lemma claims_dirty_dom:
  assumes "claims q out q'" shows "dirty q p = None \<Longrightarrow> dirty q' p = None"
  using assms
proof (induction rule: claims.induct)
  case (claims_piece out q' p' s pe)
  then have "p \<noteq> p'" by (auto simp: claimable_def get_vec_def)
  with claims_piece show ?case by (simp add: claim_vecs)
qed simp

lemma take_path_claims:
  assumes "claims q0 out q" and "queue_inv q" and "p \<notin> blocked q"
    and "inflight_bytes q + w \<le> WRITE_WINDOW" and "take_path p w q out = (q', w', out')"
  shows "claims q0 out' q' \<and> queue_inv q' \<and> blocked q' = blocked q \<and>
    inflight_bytes q' + w' = inflight_bytes q + w \<and>
    (\<forall>x. x \<noteq> p \<longrightarrow> dirty q' x = dirty q x) \<and> (0 < w \<longrightarrow> w' = 0 \<or> dirty q' p = None)"
  using assms
proof (induction p w q out rule: take_path.induct)
  case (1 p w q out)
  show ?case
  proof (cases "get_vec (dirty q) p")
    case Nil
    have "dirty q p \<noteq> Some []" using "1.prems"(2) by (simp add: queue_inv_def path_inv_def)
    with Nil have "dirty q p = None" by (auto simp: get_vec_def split: option.splits)
    then have "q\<lparr>dirty := (dirty q)(p := None)\<rparr> = q" by (simp add: fun_upd_idem)
    then have "(q', w', out') = (q, w, out)"
      using "1.prems"(5) Nil by (simp add: take_path.simps [of p w q out])
    then show ?thesis using "1.prems"(1-4) \<open>dirty q p = None\<close> by simp
  next
    case (Cons x rest)
    obtain s e where x: "x = (s, e)" by fastforce
    define pe where "pe = piece_end s e w"
    have "path_inv q p" using "1.prems"(2) by (simp add: queue_inv_def)
    then have "wf_ranges ((s, e) # rest)" "e \<le> off_max"
      using Cons x by (simp_all add: path_inv_def)
    then have se: "s < e" "s < off_max" by auto
    have "w \<le> WRITE_WINDOW" using "1.prems"(4) by simp
    then have "u64_add s CHUNK_MAX = s + CHUNK_MAX" "u64_add s w = s + w"
      using se by (auto simp: off_max_def WRITE_WINDOW_def CHUNK_MAX_def)
    then have pe: "pe = min (min e (s + CHUNK_MAX)) (s + w)" by (simp add: pe_def piece_end_def)
    show ?thesis
    proof (cases "pe \<le> s")
      case True
      with se pe have "w = 0" by (auto simp: CHUNK_MAX_def min_def split: if_splits)
      moreover have "take_path p w q out = (q, w, out)"
        using True by (simp add: take_path.simps [of p w q out] Cons x pe_def [symmetric])
      ultimately show ?thesis using "1.prems" by auto
    next
      case False
      define q1 where "q1 = claim p s pe q"
      define w1 where "w1 = w - (pe - s)"
      have w: "pe - s \<le> w" "pe - s \<le> CHUNK_MAX" "pe \<le> e" using pe by linarith+
      then have "inflight_bytes q + (pe - s) \<le> WRITE_WINDOW" using "1.prems"(4) by linarith
      then have cl: "claimable p s pe q"
        using False "1.prems"(3) Cons x w by (simp add: claimable_def)
      note c = claim_inv(1) [OF "1.prems"(2) cl, folded q1_def]
      have q1: "claims q0 (out @ [(p, s, pe)]) q1" "p \<notin> blocked q1" "blocked q1 = blocked q"
        "inflight_bytes q1 + w1 = inflight_bytes q + w"
        "\<forall>x. x \<noteq> p \<longrightarrow> dirty q1 x = dirty q x"
        using claims_piece [OF "1.prems"(1) cl] "1.prems"(3) w
        by (simp_all add: q1_def w1_def claim_vecs)
      have "take_path p w q out = (if w1 = 0 then (q1, w1, out @ [(p, s, pe)])
          else take_path p w1 q1 (out @ [(p, s, pe)]))"
        using False
        by (simp add: take_path.simps [of p w q out] Cons x pe_def [symmetric] q1_def w1_def Let_def)
      from this [symmetric] "1.prems"(5) have step: "(if w1 = 0 then (q1, w1, out @ [(p, s, pe)])
          else take_path p w1 q1 (out @ [(p, s, pe)])) = (q', w', out')" by (rule trans)
      show ?thesis
      proof (cases "w1 = 0")
        case True
        with step q1 c show ?thesis by auto
      next
        case w1: False
        then have "take_path p w1 q1 (out @ [(p, s, pe)]) = (q', w', out')" using step by simp
        note ih = "1.IH" [OF Cons x [symmetric] pe_def False q1_def w1_def refl w1 q1(1) c q1(2) _ this]
        have "inflight_bytes q1 + w1 \<le> WRITE_WINDOW" using q1(4) "1.prems"(4) by simp
        from ih [OF this] q1 w1 show ?thesis by simp
      qed
    qed
  qed
qed

lemma take_paths_claims:
  assumes "claims q0 out q" and "queue_inv q" and "inflight_bytes q + w \<le> WRITE_WINDOW"
    and "take_paths ps w q out = (q', out')" and "distinct ps"
  shows "claims q0 out' q' \<and> (\<forall>x. x \<notin> set ps \<longrightarrow> dirty q' x = dirty q x) \<and>
    (inflight_bytes q' = inflight_bytes q + w \<or>
       (\<forall>p \<in> set ps. p \<notin> blocked q \<longrightarrow> dirty q' p = None))"
  using assms
proof (induction ps arbitrary: w q out)
  case Nil
  then show ?case by simp
next
  case (Cons p ps)
  consider "w = 0" | "0 < w" "p \<in> blocked q" | "0 < w" "p \<notin> blocked q" by blast
  then show ?case
  proof cases
    case 1
    then show ?thesis using Cons.prems by simp
  next
    case 2
    then show ?thesis using Cons by auto
  next
    case 3
    obtain q1 w1 out1 where t: "take_path p w q out = (q1, w1, out1)" by (metis prod_cases3)
    note a = take_path_claims [OF Cons.prems(1,2) 3(2) Cons.prems(3) t]
    have "take_paths ps w1 q1 out1 = (q', out')" using Cons.prems(4) 3 t by simp
    note b = Cons.IH [OF _ _ _ this]
    have "inflight_bytes q1 + w1 \<le> WRITE_WINDOW" using a Cons.prems(3) by simp
    with b a Cons.prems(5) have c: "claims q0 out' q'" "\<forall>x. x \<notin> set ps \<longrightarrow> dirty q' x = dirty q1 x"
      "inflight_bytes q' = inflight_bytes q1 + w1 \<or>
        (\<forall>p \<in> set ps. p \<notin> blocked q1 \<longrightarrow> dirty q' p = None)"
      by simp_all
    have w1: "w1 = 0 \<longrightarrow> q' = q1"
      using \<open>take_paths ps w1 q1 out1 = (q', out')\<close> by (cases ps) auto
    show ?thesis using a c w1 3 Cons.prems(5) by (cases "w1 = 0") auto
  qed
qed

lemma take_batch_claims:
  assumes "queue_inv q" and "distinct keys" and "take_batch now keys q = (q', out)"
  shows "claims q out q'"
    and "now < retry_after q \<or> inflight_bytes q' = WRITE_WINDOW \<or>
      (\<forall>p \<in> set keys. p \<notin> blocked q \<longrightarrow> dirty q' p = None)"
proof -
  have w: "inflight_bytes q \<le> WRITE_WINDOW" using assms(1) by (simp add: queue_inv_def count_inv_def)
  then have "inflight_bytes q + (WRITE_WINDOW - inflight_bytes q) \<le> WRITE_WINDOW" by simp
  note t = take_paths_claims [OF claims_none assms(1) this _ assms(2)]
  show "claims q out q'"
    using assms(3) t claims_none [of q] by (auto simp: take_batch_def Let_def split: if_splits)
  show "now < retry_after q \<or> inflight_bytes q' = WRITE_WINDOW \<or>
      (\<forall>p \<in> set keys. p \<notin> blocked q \<longrightarrow> dirty q' p = None)"
    using assms(3) t w by (auto simp: take_batch_def Let_def split: if_splits)
qed

section \<open>Recording an outcome\<close>

lemma drop_inflight_vecs:
  "get_vec (inflight (drop_inflight p r q)) p' =
     (if p' = p then filter (\<lambda>x. x \<noteq> r) (get_vec (inflight q) p) else get_vec (inflight q) p')"
  by (auto simp: drop_inflight_def get_vec_def Let_def split: option.splits)

lemma drop_inflight_simps [simp]:
  "dirty (drop_inflight p r q) = dirty q" "blocked (drop_inflight p r q) = blocked q"
  "dirty_bytes (drop_inflight p r q) = dirty_bytes q" "errors (drop_inflight p r q) = errors q"
  "backoff_ms (drop_inflight p r q) = backoff_ms q" "retry_after (drop_inflight p r q) = retry_after q"
  by (simp_all add: drop_inflight_def)

lemma drop_inflight_Some:
  "inflight (drop_inflight p r q) p' = Some [] \<Longrightarrow> inflight q p' = Some []"
  by (auto simp: drop_inflight_def Let_def split: option.splits if_splits)

lemma drop_inflight_counts:
  assumes "count_inv q" and "disjoint_ranges (get_vec (inflight q) p)"
    and "r \<in> set (get_vec (inflight q) p)"
  shows "count_inv (drop_inflight p r q)"
proof -
  let ?rs = "get_vec (inflight q) p"
  let ?rs' = "filter (\<lambda>x. x \<noteq> r) ?rs"
  have fin: "finite (dom (inflight q))" using assms(1) by (simp add: count_inv_def)
  obtain rs where s: "inflight q p = Some rs" and rs: "?rs = rs"
    using assms(3) by (cases "inflight q p") (simp_all add: get_vec_def)
  note tb = disjoint_ranges_remove(2) [OF assms(2,3)]
  have "load (inflight (drop_inflight p r q)) + (snd r - fst r) = load (inflight q)"
  proof (cases "?rs' = []")
    case True
    then have "inflight (drop_inflight p r q) = (inflight q)(p := None)"
      by (simp add: drop_inflight_def s rs)
    then show ?thesis using load_del [OF fin, of p] tb True by simp
  next
    case False
    then have "inflight (drop_inflight p r q) = (inflight q)(p \<mapsto> ?rs')"
      by (simp add: drop_inflight_def s rs)
    then show ?thesis using load_upd [OF fin, of p ?rs'] tb by simp
  qed
  moreover have "finite (dom (inflight (drop_inflight p r q)))"
    using fin by (simp add: drop_inflight_def s Let_def)
  moreover have "inflight_bytes (drop_inflight p r q) = inflight_bytes q - (snd r - fst r)"
    by (simp add: drop_inflight_def)
  ultimately show ?thesis using assms(1) by (auto simp: count_inv_def)
qed

lemma drop_inflight_other:
  "p' \<noteq> p \<Longrightarrow> inflight (drop_inflight p r q) p' = inflight q p'"
  by (auto simp: drop_inflight_def Let_def split: option.splits)

lemma release_block_simps [simp]:
  "dirty (release_block p q) = dirty q" "inflight (release_block p q) = inflight q"
  "dirty_bytes (release_block p q) = dirty_bytes q" "errors (release_block p q) = errors q"
  "inflight_bytes (release_block p q) = inflight_bytes q"
  "backoff_ms (release_block p q) = backoff_ms q" "retry_after (release_block p q) = retry_after q"
  by (simp_all add: release_block_def)

lemma record_outcome_simps [simp]:
  "inflight (record_outcome now p r oc q) = inflight q"
  "blocked (record_outcome now p r oc q) = blocked q"
  "inflight_bytes (record_outcome now p r oc q) = inflight_bytes q"
  by (cases oc; simp add: record_outcome_def Let_def split: prod.splits)+

lemma record_outcome_dirty:
  "dirty (record_outcome now p r oc q) =
     dirty (if oc = Retry then add_dirty p (fst r) (snd r) q else q)"
  "dirty_bytes (record_outcome now p r oc q) =
     dirty_bytes (if oc = Retry then add_dirty p (fst r) (snd r) q else q)"
  by (cases oc; simp add: record_outcome_def add_dirty_def Let_def split: prod.splits)+

lemma record_outcome_backoff:
  "backoff_ms (record_outcome now p r oc q) =
     (case oc of Sent \<Rightarrow> 0 | Retry \<Rightarrow> next_backoff (backoff_ms q) | Drop \<Rightarrow> backoff_ms q)"
  "errors (record_outcome now p r oc q) = (if oc = Sent then errors q else errors q + 1)"
  by (cases oc; simp add: record_outcome_def Let_def split: prod.splits)+

lemma next_backoff_bounds: "200 \<le> next_backoff b \<and> next_backoff b \<le> 2000"
  by (auto simp: next_backoff_def)

lemmas finish_simps = finish_def record_outcome_dirty drop_inflight_vecs record_outcome_backoff

lemma finish_alt:
  "finish now p r oc q = record_outcome now p r oc (release_block p (drop_inflight p r q))"
  by (cases oc) (auto simp: finish_def record_outcome_def release_block_def Let_def
      split: prod.splits)

lemma released_inv:
  assumes "queue_inv q" and "r \<in> set (get_vec (inflight q) p)"
  shows "queue_inv (release_block p (drop_inflight p r q))"
proof -
  let ?q = "release_block p (drop_inflight p r q)"
  have pi: "path_inv q p" and c: "count_inv q" using assms(1) by (simp_all add: queue_inv_def)
  then have dj: "disjoint_ranges (get_vec (inflight q) p)" by (simp add: path_inv_def)
  have "path_inv ?q x" for x
  proof (cases "x = p")
    case True
    have ne: "inflight (drop_inflight p r q) p \<noteq> Some []"
      using drop_inflight_Some [of p r q p] pi by (auto simp: path_inv_def)
    then have "inflight (drop_inflight p r q) p = None \<longleftrightarrow>
        get_vec (inflight (drop_inflight p r q)) p = []"
      by (auto simp: get_vec_def split: option.splits)
    then show ?thesis
      using pi True ne disjoint_ranges_filter [OF dj] disjoint_ranges_remove(1) [OF dj assms(2)]
      by (auto simp: path_inv_def drop_inflight_vecs release_block_def)
  next
    case False
    then have "path_inv ?q x = path_inv q x"
      by (intro path_inv_cong) (auto simp: drop_inflight_vecs drop_inflight_other release_block_def)
    then show ?thesis using assms(1) by (simp add: queue_inv_def)
  qed
  moreover have "count_inv ?q"
    using drop_inflight_counts [OF c dj assms(2)] by (simp add: count_inv_def)
  ultimately show ?thesis by (simp add: queue_inv_def)
qed

lemma in_flight_facts:
  assumes "queue_inv q" and "r \<in> set (get_vec (inflight q) p)"
  shows "fst r < snd r" and "snd r \<le> off_max"
    and "{fst r..<snd r} \<subseteq> range_set (get_vec (inflight q) p)"
    and "range_set (filter (\<lambda>x. x \<noteq> r) (get_vec (inflight q) p)) =
      range_set (get_vec (inflight q) p) - {fst r..<snd r}"
proof -
  have pi: "path_inv q p" using assms(1) by (simp add: queue_inv_def)
  then have dj: "disjoint_ranges (get_vec (inflight q) p)" by (simp add: path_inv_def)
  show "fst r < snd r" using disjoint_ranges_nonempty [OF dj, of "fst r" "snd r"] assms(2) by simp
  show "snd r \<le> off_max" using pi assms(2) by (simp add: path_inv_def)
  show "{fst r..<snd r} \<subseteq> range_set (get_vec (inflight q) p)"
    using in_range_set [of "fst r" "snd r"] assms(2) by auto
  show "range_set (filter (\<lambda>x. x \<noteq> r) (get_vec (inflight q) p)) =
      range_set (get_vec (inflight q) p) - {fst r..<snd r}"
    by (rule disjoint_ranges_remove(1) [OF dj assms(2)])
qed

lemma finish_inv:
  assumes "queue_inv q" and "r \<in> set (get_vec (inflight q) p)"
  shows "queue_inv (finish now p r oc q)" and "slack q \<le> slack (finish now p r oc q)"
proof -
  let ?q = "release_block p (drop_inflight p r q)"
  let ?a = "add_dirty p (fst r) (snd r) ?q"
  note qi = released_inv [OF assms]
  note f = in_flight_facts [OF assms]
  have sl: "slack ?q = slack q" by (simp add: slack_def)
  have ai: "queue_inv ?a"
    using f by (intro add_dirty_inv [OF qi]) (auto simp: drop_inflight_vecs)
  have as: "slack ?q \<le> slack ?a"
    using qi by (intro add_dirty_counts(2)) (simp_all add: queue_inv_def path_inv_def)
  have "queue_inv (record_outcome now p r oc ?q) \<and> slack q \<le> slack (record_outcome now p r oc ?q)"
  proof (cases "oc = Retry")
    case True
    have "backoff_ms (record_outcome now p r oc ?q) = next_backoff (backoff_ms ?q)"
      using True by (simp add: record_outcome_backoff)
    with ai as sl True next_backoff_bounds [of "backoff_ms ?q"] show ?thesis
      by (simp add: queue_inv_def path_inv_def count_inv_def record_outcome_dirty slack_def)
  next
    case False
    with qi sl show ?thesis
      by (cases oc) (auto simp: queue_inv_def path_inv_def count_inv_def record_outcome_dirty
          record_outcome_backoff slack_def)
  qed
  then show "queue_inv (finish now p r oc q)" and "slack q \<le> slack (finish now p r oc q)"
    by (simp_all add: finish_alt)
qed

lemma finish_vecs:
  "get_vec (inflight (finish now p r oc q)) p' =
     (if p' = p then filter (\<lambda>x. x \<noteq> r) (get_vec (inflight q) p) else get_vec (inflight q) p')"
  "get_vec (dirty (finish now p r oc q)) p' =
     (if p' = p \<and> oc = Retry then fst (merge_range (get_vec (dirty q) p) (fst r) (snd r))
      else get_vec (dirty q) p')"
  by (auto simp: finish_simps add_dirty_def)

lemma finish_pending:
  assumes "queue_inv q" and "r \<in> set (get_vec (inflight q) p)"
  shows "pending_bytes (finish now p r oc q) p' =
    (if p' \<noteq> p \<or> oc = Retry then pending_bytes q p'
     else range_set (get_vec (dirty q) p) \<union> (range_set (get_vec (inflight q) p) - {fst r..<snd r}))"
proof -
  have wf: "wf_ranges (get_vec (dirty q) p)" using assms(1) by (simp add: queue_inv_def path_inv_def)
  note f = in_flight_facts [OF assms]
  show ?thesis
    using f(3) by (auto simp: pending_bytes_def finish_vecs f(4) merge_range_set [OF wf])
qed

section \<open>Reachable states\<close>

lemma q_step_keeps:
  assumes "q_step q q'" and "queue_inv q"
  shows "queue_inv q'" and "slack q \<le> slack q'"
proof -
  have "queue_inv q' \<and> slack q \<le> slack q'"
    using assms
  proof (cases rule: q_step.cases)
    case (q_enqueue e p s)
    then show ?thesis using enqueue_inv enqueue_slack assms(2) by simp
  next
    case (q_take keys now)
    obtain q1 out where t: "take_batch now keys q = (q1, out)" by fastforce
    from claims_keep [OF take_batch_claims(1) [OF assms(2) q_take(3) t] assms(2)] t q_take(1)
    show ?thesis by simp
  next
    case (q_finish r p now oc)
    then show ?thesis using finish_inv assms(2) by simp
  qed
  then show "queue_inv q'" and "slack q \<le> slack q'" by simp_all
qed

interpretation queue: step_invariant q_step queue_inv
  by unfold_locales (rule q_step_keeps(1))

lemma reachable_queue_inv: "q_step\<^sup>*\<^sup>* (new_queue now) q \<Longrightarrow> queue_inv q"
  by (rule queue.steps_keep [OF _ queue_inv_new])

lemma q_steps_slack:
  "q_step\<^sup>*\<^sup>* q q' \<Longrightarrow> queue_inv q \<Longrightarrow> slack q \<le> slack q'"
proof (induction rule: rtranclp_induct)
  case (step q1 q2)
  then have "queue_inv q1" using queue.steps_keep by blast
  with step show ?case using q_step_keeps(2) by fastforce
qed simp

end
