(* ===== verification/Upload_Queue_Props.thy ===== *)
theory Upload_Queue_Props
  imports Upload_Queue_Steps
begin

text \<open>The properties of the range lists and of the upload queue.\<close>

section \<open>Range lists\<close>

text \<open>Inserting a range keeps the list sorted, disjoint and non-adjacent, and the
  list covers exactly the old bytes and the new range.\<close>

theorem merge_range_correct:
  assumes "wf_ranges ranges" and "merge_range ranges start end' = (ranges', n)"
  shows "wf_ranges ranges' \<and> range_set ranges' = range_set ranges \<union> {start..<end'}"
  using dirty_ranges.ok_ins [OF assms(1), of start end'] dirty_ranges.bytes_ins [OF assms(1), of start end']
    assms(2) by simp

theorem merge_range_correct_witness:
  "wf_ranges [(0, 4), (6, 9), (20, 30)] \<and>
   merge_range [(0, 4), (6, 9), (20, 30)] 4 7 = ([(0, 9), (20, 30)], 8) \<and>
   range_set [(0, 9), (20, 30)] = range_set [(0, 4), (6, 9), (20, 30)] \<union> {4..<7}"
proof -
  have "wf_ranges [(0, 4), (6, 9), (20, 30)]" by simp
  moreover have "merge_range [(0, 4), (6, 9), (20, 30)] 4 7 = ([(0, 9), (20, 30)], 8)"
    by (simp add: merge_range_def covered_bytes_def)
  ultimately show ?thesis using merge_range_correct by blast
qed

text \<open>The count \<open>merge_range\<close> returns is never less than the number of newly
  covered bytes, and it equals that number exactly when every range that overlaps or
  touches the new one lies inside it; the comment of the function claims equality
  always.\<close>

theorem merge_range_count:
  assumes "wf_ranges ranges" and "start < end'" and "merge_range ranges start end' = (ranges', n)"
  shows "card ({start..<end'} - range_set ranges) \<le> n \<and>
    (n = card ({start..<end'} - range_set ranges) \<longleftrightarrow>
       (\<forall>(s, e) \<in> set ranges. s \<le> end' \<and> start \<le> e \<longrightarrow> start \<le> s \<and> e \<le> end'))"
  using merge_range_count_ge [OF assms(1), of start end'] merge_range_count_iff [OF assms(1,2)]
    assms(3) by simp

theorem merge_range_count_witness:
  "merge_range [(0, 10)] 10 20 = ([(0, 20)], 20) \<and> card ({10..<20} - range_set [(0, 10)]) \<le> 20 \<and>
   (20 = card ({10..<20} - range_set [(0::nat, 10)]) \<longleftrightarrow> False)"
proof -
  have wf: "wf_ranges [(0, 10)]" and lt: "(10::nat) < 20" by simp_all
  have m: "merge_range [(0, 10)] 10 20 = ([(0, 20)], 20)"
    by (simp add: merge_range_def covered_bytes_def)
  have "(\<forall>(s, e) \<in> set [(0::nat, 10::nat)]. s \<le> 20 \<and> 10 \<le> e \<longrightarrow> 10 \<le> s \<and> e \<le> 20) \<longleftrightarrow> False"
    by simp
  with merge_range_count [OF wf lt m] m show ?thesis by blast
qed

section \<open>The queue\<close>

text \<open>C1: in every state the queue can reach, no two in-flight ranges of a path
  overlap, a path whose dirty bytes overlap an in-flight send is blocked, and the
  in-flight counter is the exact number of bytes in flight and within the window. So two
  \<open>WRITE_AT\<close> requests for the same byte are never outstanding together.\<close>

theorem in_flight_writes_never_overlap:
  assumes "q_step\<^sup>*\<^sup>* (new_queue now) q"
  shows "disjoint_ranges (get_vec (inflight q) p) \<and>
    (p \<notin> blocked q \<longrightarrow>
       range_set (get_vec (dirty q) p) \<inter> range_set (get_vec (inflight q) p) = {}) \<and>
    inflight_bytes q = load (inflight q) \<and> inflight_bytes q \<le> WRITE_WINDOW"
  using reachable_queue_inv [OF assms] by (simp add: queue_inv_def path_inv_def count_inv_def)

definition sample_path :: path where "sample_path = [RootDir, Normal ''f'']"

definition sample_queue :: queue_state where
  "sample_queue = fst (take_batch 0 [sample_path] (enqueue sample_path 0 10 (new_queue 0)))"

lemma sample_queue_reachable: "q_step\<^sup>*\<^sup>* (new_queue 0) sample_queue"
proof -
  have "q_step (new_queue 0) (enqueue sample_path 0 10 (new_queue 0))"
    by (rule q_enqueue) (simp add: off_max_def)
  moreover have "q_step (enqueue sample_path 0 10 (new_queue 0)) sample_queue"
    unfolding sample_queue_def
    by (rule q_take) (auto simp: enqueue_def new_queue_def merge_range_def split: if_splits)
  ultimately show ?thesis by (meson converse_rtranclp_into_rtranclp rtranclp.rtrancl_refl)
qed

lemma sample_queue_vecs:
  "get_vec (dirty sample_queue) sample_path = []"
  "get_vec (inflight sample_queue) sample_path = [(0, 10)]"
  by (simp_all add: sample_queue_def take_batch_def take_path.simps enqueue_def new_queue_def
      merge_range_def claim_def piece_end_def WRITE_WINDOW_def CHUNK_MAX_def Let_def)

theorem in_flight_writes_never_overlap_witness:
  "get_vec (inflight sample_queue) sample_path = [(0, 10)] \<and>
   disjoint_ranges (get_vec (inflight sample_queue) sample_path)"
  using in_flight_writes_never_overlap [OF sample_queue_reachable, of sample_path] sample_queue_vecs
  by simp

text \<open>C2: a claimed batch takes bytes from the dirty lists to the in-flight lists and
  loses none; each claimed piece is non-empty, at most \<open>CHUNK_MAX\<close> long and of a path that
  is not blocked, and all claims together stay within what is left of the window.\<close>

theorem take_batch_moves_bytes:
  assumes "queue_inv q" and "distinct keys" and "take_batch now keys q = (q', batch)"
  shows "pending_bytes q' p = pending_bytes q p \<and>
    get_vec (inflight q') p = get_vec (inflight q) p @ map snd (filter (\<lambda>x. fst x = p) batch) \<and>
    (\<forall>(p', s, e) \<in> set batch. p' \<notin> blocked q \<and> s < e \<and> e - s \<le> CHUNK_MAX) \<and>
    inflight_bytes q + sum_list (map (\<lambda>(p', s, e). e - s) batch) \<le> WRITE_WINDOW"
proof -
  note k = claims_keep [OF take_batch_claims(1) [OF assms] assms(1)]
  then have "inflight_bytes q' \<le> WRITE_WINDOW" by (simp add: queue_inv_def count_inv_def)
  with k show ?thesis by simp
qed

theorem take_batch_moves_bytes_witness:
  "let q = enqueue sample_path 0 10 (new_queue 0) in
   snd (take_batch 0 [sample_path] q) = [(sample_path, (0, 10))] \<and>
   pending_bytes (fst (take_batch 0 [sample_path] q)) sample_path = pending_bytes q sample_path"
proof -
  let ?q = "enqueue sample_path 0 10 (new_queue 0)"
  have qi: "queue_inv ?q" by (rule enqueue_inv [OF queue_inv_new]) (simp add: off_max_def)
  have b: "snd (take_batch 0 [sample_path] ?q) = [(sample_path, (0, 10))]"
    by (simp add: take_batch_def take_path.simps enqueue_def new_queue_def
        merge_range_def claim_def piece_end_def WRITE_WINDOW_def CHUNK_MAX_def Let_def)
  have "distinct [sample_path]" by simp
  from take_batch_moves_bytes [OF qi this, of 0, OF surjective_pairing, of sample_path] b
  show ?thesis by (simp add: Let_def)
qed

text \<open>The flusher never idles with work to do: outside the back-off pause, after a
  batch is claimed either the window is full or no unblocked path has dirty bytes left.\<close>

theorem take_batch_work_conserving:
  assumes "queue_inv q" and "set keys = dom (dirty q)" and "distinct keys"
    and "retry_after q \<le> now" and "take_batch now keys q = (q', batch)"
  shows "inflight_bytes q' = WRITE_WINDOW \<or> (\<forall>p. p \<notin> blocked q' \<longrightarrow> dirty q' p = None)"
proof -
  note k = claims_keep [OF take_batch_claims(1) [OF assms(1,3,5)] assms(1)]
  have rest: "dirty q' p = None" if "p \<notin> set keys" for p
    using that assms(2) claims_dirty_dom [OF take_batch_claims(1) [OF assms(1,3,5)]] by blast
  show ?thesis
    using take_batch_claims(2) [OF assms(1,3,5)] assms(4) k rest by (auto simp: not_less)
qed

theorem take_batch_work_conserving_witness:
  "let q = enqueue sample_path 0 10 (new_queue 0); q' = fst (take_batch 5 [sample_path] q) in
   inflight_bytes q' = WRITE_WINDOW \<or> (\<forall>p. p \<notin> blocked q' \<longrightarrow> dirty q' p = None)"
proof -
  let ?q = "enqueue sample_path 0 10 (new_queue 0)"
  have qi: "queue_inv ?q" by (rule enqueue_inv [OF queue_inv_new]) (simp add: off_max_def)
  have k: "set [sample_path] = dom (dirty ?q)" "distinct [sample_path]" "retry_after ?q \<le> 5"
    by (auto simp: enqueue_def new_queue_def merge_range_def split: if_splits)
  from take_batch_work_conserving [OF qi k surjective_pairing] show ?thesis by (simp add: Let_def)
qed

text \<open>C3: reporting a send. The range leaves the in-flight list and nothing else does;
  \<open>Sent\<close> removes exactly its bytes from what is pending (bytes rewritten meanwhile stay
  dirty), \<open>Retry\<close> keeps every byte pending, counts an error and backs off 200 to 2000 ms,
  \<open>Drop\<close> counts an error; the path is unblocked once nothing of it is in flight.\<close>

theorem finish_correct:
  assumes "queue_inv q" and "r \<in> set (get_vec (inflight q) p)"
  shows "get_vec (inflight (finish now p r outcome q)) p = filter (\<lambda>x. x \<noteq> r) (get_vec (inflight q) p) \<and>
    (case outcome of
       Sent \<Rightarrow> pending_bytes (finish now p r outcome q) p =
           range_set (get_vec (dirty q) p) \<union> (range_set (get_vec (inflight q) p) - {fst r..<snd r}) \<and>
         errors (finish now p r outcome q) = errors q \<and> retry_after (finish now p r outcome q) = now
     | Retry \<Rightarrow> pending_bytes (finish now p r outcome q) p = pending_bytes q p \<and>
         errors (finish now p r outcome q) = errors q + 1 \<and>
         now + 200 \<le> retry_after (finish now p r outcome q) \<and>
         retry_after (finish now p r outcome q) \<le> now + 2000
     | Drop \<Rightarrow> errors (finish now p r outcome q) = errors q + 1) \<and>
    (filter (\<lambda>x. x \<noteq> r) (get_vec (inflight q) p) = [] \<longrightarrow> p \<notin> blocked (finish now p r outcome q)) \<and>
    (\<forall>p'. p' \<noteq> p \<longrightarrow> pending_bytes (finish now p r outcome q) p' = pending_bytes q p')"
proof -
  have e: "errors (finish now p r outcome q) = (if outcome = Sent then errors q else errors q + 1)"
    by (simp add: finish_simps)
  have a: "outcome = Sent \<Longrightarrow> retry_after (finish now p r outcome q) = now"
    "outcome = Retry \<Longrightarrow> retry_after (finish now p r outcome q) = now + next_backoff (backoff_ms q)"
    by (auto simp: finish_def record_outcome_def Let_def split: prod.splits)
  have "path_inv (finish now p r outcome q) p"
    using finish_inv(1) [OF assms] by (simp add: queue_inv_def)
  then have b: "filter (\<lambda>x. x \<noteq> r) (get_vec (inflight q) p) = [] \<longrightarrow>
      p \<notin> blocked (finish now p r outcome q)"
    by (auto simp: path_inv_def finish_vecs)
  show ?thesis
    using a b e next_backoff_bounds [of "backoff_ms q"]
    by (cases outcome) (simp_all add: finish_vecs finish_pending [OF assms])
qed

theorem finish_correct_witness:
  "pending_bytes (finish 7 sample_path (0, 10) Retry sample_queue) sample_path =
     pending_bytes sample_queue sample_path"
proof -
  have "(0, 10) \<in> set (get_vec (inflight sample_queue) sample_path)" by (simp add: sample_queue_vecs)
  from finish_correct [OF reachable_queue_inv [OF sample_queue_reachable] this, of 7 Retry]
  show ?thesis by simp
qed

section \<open>The backlog counter\<close>

text \<open>\<open>n\<close> consecutive writes of \<open>c\<close> bytes to one file.\<close>

fun sequential_writes :: "path \<Rightarrow> nat \<Rightarrow> nat \<Rightarrow> queue_state \<Rightarrow> queue_state" where
  "sequential_writes p c 0 q = q"
| "sequential_writes p c (Suc n) q = enqueue p (n * c) (Suc n * c) (sequential_writes p c n q)"

lemma sequential_writes_new:
  assumes "0 < c"
  shows "dirty (sequential_writes p c n (new_queue now)) =
      (if n = 0 then Map.empty else Map.empty(p \<mapsto> [(0, n * c)]))"
    and "2 * dirty_bytes (sequential_writes p c n (new_queue now)) = c * n * Suc n"
    and "inflight (sequential_writes p c n (new_queue now)) = Map.empty"
proof -
  have "dirty (sequential_writes p c n (new_queue now)) =
      (if n = 0 then Map.empty else Map.empty(p \<mapsto> [(0, n * c)])) \<and>
    2 * dirty_bytes (sequential_writes p c n (new_queue now)) = c * n * Suc n \<and>
    inflight (sequential_writes p c n (new_queue now)) = Map.empty"
  proof (induction n)
    case 0
    then show ?case by (simp add: new_queue_def)
  next
    case (Suc n)
    define s where "s = sequential_writes p c n (new_queue now)"
    have "get_vec (dirty s) p = (if n = 0 then [] else [(0, n * c)])"
      using Suc.IH by (simp add: s_def get_vec_def del: sequential_writes.simps)
    then have m: "merge_range (get_vec (dirty s) p) (n * c) (Suc n * c) = ([(0, Suc n * c)], Suc n * c)"
      using assms by (simp add: merge_range_def)
    have "sequential_writes p c (Suc n) (new_queue now) = add_dirty p (n * c) (Suc n * c) s"
      using Suc.IH assms by (simp add: s_def enqueue_alt overlaps_any_def)
    then show ?case using Suc.IH m by (auto simp: add_dirty_def s_def [symmetric] algebra_simps)
  qed
  then show "dirty (sequential_writes p c n (new_queue now)) =
      (if n = 0 then Map.empty else Map.empty(p \<mapsto> [(0, n * c)]))"
    and "2 * dirty_bytes (sequential_writes p c n (new_queue now)) = c * n * Suc n"
    and "inflight (sequential_writes p c n (new_queue now)) = Map.empty"
    by blast+
qed

lemma sequential_writes_reachable:
  assumes "n * c \<le> off_max"
  shows "q_step\<^sup>*\<^sup>* (new_queue now) (sequential_writes p c n (new_queue now))"
  using assms
proof (induction n)
  case (Suc n)
  then have "q_step\<^sup>*\<^sup>* (new_queue now) (sequential_writes p c n (new_queue now))" by simp
  moreover have "q_step (sequential_writes p c n (new_queue now)) (sequential_writes p c (Suc n) (new_queue now))"
    using Suc.prems by (simp add: q_enqueue)
  ultimately show ?case by (rule rtranclp.rtrancl_into_rtrancl)
qed simp

text \<open>\<open>n\<close> sequential writes of \<open>c\<close> bytes leave \<open>n * c\<close> dirty bytes in one range but
  make \<open>dirty_bytes\<close> grow to \<open>c * n * (n + 1) / 2\<close>: the backlog counter is quadratic in
  the number of writes because each adjacent merge counts the whole merged range.\<close>

theorem sequential_backlog_is_quadratic:
  assumes "0 < c" and "0 < n"
  shows "get_vec (dirty (sequential_writes p c n (new_queue now))) p = [(0, n * c)] \<and>
    load (dirty (sequential_writes p c n (new_queue now))) = n * c \<and>
    2 * dirty_bytes (sequential_writes p c n (new_queue now)) = c * n * (n + 1)"
  using sequential_writes_new [OF assms(1), of p n now] assms(2) by (simp add: load_def)

theorem sequential_backlog_is_quadratic_witness:
  "dirty_bytes (sequential_writes sample_path 10 3 (new_queue 0)) = 60"
  using sequential_backlog_is_quadratic [of 10 3 sample_path 0] by simp



section \<open>Draining\<close>

lemma drain_loop_cases:
  "drain_loop paths se q ws = Some res \<Longrightarrow>
   (case res of
      Inr _ \<Rightarrow> \<exists>q'. (q' = q \<or> Woken q' \<in> set ws) \<and> \<not> pending_any paths q'
    | Inl err \<Rightarrow> err = EIO \<and> (DeadlineHit \<in> set ws \<or>
        (\<exists>q'. (q' = q \<or> Woken q' \<in> set ws) \<and> se < errors q')))"
proof (induction ws arbitrary: q)
  case Nil
  then show ?case by (subst (asm) drain_loop.simps) (auto split: if_splits)
next
  case (Cons w ws)
  show ?case
  proof (cases "\<not> pending_any paths q \<or> se < errors q")
    case True
    with Cons.prems show ?thesis by (subst (asm) drain_loop.simps) (auto split: if_splits)
  next
    case False
    show ?thesis
    proof (cases w)
      case DeadlineHit
      with Cons.prems False show ?thesis by (subst (asm) drain_loop.simps) auto
    next
      case (Woken q1)
      then have "drain_loop paths se q1 ws = Some res"
        using Cons.prems False by (subst (asm) drain_loop.simps) simp
      from Cons.IH [OF this] show ?thesis unfolding Woken by (cases res) auto
    qed
  qed
qed

lemma drain_loop_returns: "DeadlineHit \<in> set ws \<Longrightarrow> drain_loop paths se q ws \<noteq> None"
proof (induction ws arbitrary: q)
  case (Cons w ws)
  then show ?case by (cases w; subst drain_loop.simps) auto
qed simp



text \<open>C6: a permanent failure of the last outstanding send is not reported. If the only
  pending bytes of a path are in one in-flight range and that send is dropped, the
  error counter grows, the bytes are gone from the queue, and the drain that was waiting
  returns \<open>Ok\<close>; the comment of \<open>SendOutcome::Drop\<close> says the error surfaces.\<close>

theorem dropped_send_drains_ok:
  assumes "queue_inv q" and "get_vec (dirty q) p = []" and "get_vec (inflight q) p = [r]"
  shows "errors q < errors (finish now p r Drop q) \<and>
    pending_bytes (finish now p r Drop q) p = {} \<and>
    wait_drain [p] q [Woken (finish now p r Drop q)] = Some (Inr ())"
proof -
  have v: "get_vec (dirty (finish now p r Drop q)) p = []"
    "get_vec (inflight (finish now p r Drop q)) p = []"
    using assms(2,3) by (simp_all add: finish_vecs)
  then have "\<not> pending_any [p] (finish now p r Drop q)" by (simp add: pending_any_def)
  moreover have "pending_any [p] q" using assms(3) by (simp add: pending_any_def)
  ultimately show ?thesis
    using v by (simp add: wait_drain_def drain_loop.simps pending_bytes_def finish_simps)
qed

theorem dropped_send_drains_ok_witness:
  "wait_drain [sample_path] sample_queue [Woken (finish 3 sample_path (0, 10) Drop sample_queue)] =
     Some (Inr ())"
  using dropped_send_drains_ok [OF reachable_queue_inv [OF sample_queue_reachable]
      sample_queue_vecs, of 3] by blast

end
