(* ===== verification/Write_Behind.thy ===== *)
theory Write_Behind
  imports Upload_Queue_Steps
begin

text \<open>
  The write-behind pipeline end to end: a FUSE \<open>write\<close> stores bytes in the local cache file
  and queues their range; the flusher claims ranges, reads the bytes back from the cache,
  sends them with \<open>WRITE_AT\<close> and reports the outcome (\<open>write\<close>, \<open>flusher_loop\<close> of
  \<open>crates/bridge/src/fuse_fs.rs\<close>). File contents are functions from offsets to bytes.
  \<open>user\<close> and \<open>dropped\<close> are ghosts: the byte last written at an offset by the user, and the
  offsets whose send was dropped.
\<close>

section \<open>State and operations\<close>

datatype send_phase =
    Reading "nat \<rightharpoonup> byte" \<comment> \<open>bytes read back from the cache so far\<close>
  | Applied \<comment> \<open>the target has executed the \<open>WRITE_AT\<close>\<close>

record wb_state =
  wq :: queue_state
  cache :: "path \<Rightarrow> nat \<Rightarrow> byte"
  target :: "path \<Rightarrow> nat \<Rightarrow> byte"
  unqueued :: "(path \<times> range) list" \<comment> \<open>written to the cache, \<open>enqueue_upload\<close> not yet run\<close>
  phase :: "path \<Rightarrow> range \<Rightarrow> send_phase" \<comment> \<open>of each in-flight range\<close>
  late :: "(path \<times> range \<times> (nat \<rightharpoonup> byte)) list" \<comment> \<open>timed-out requests still on their way\<close>
  user :: "path \<Rightarrow> nat \<rightharpoonup> byte"
  dropped :: "path \<Rightarrow> nat set"

definition wb_init :: "instant \<Rightarrow> (path \<Rightarrow> nat \<Rightarrow> byte) \<Rightarrow> (path \<Rightarrow> nat \<Rightarrow> byte) \<Rightarrow> wb_state" where
  "wb_init now c t = \<lparr>wq = new_queue now, cache = c, target = t, unqueued = [],
     phase = (\<lambda>_ _. Applied), late = [], user = (\<lambda>_. Map.empty), dropped = (\<lambda>_. {})\<rparr>"

definition put_bytes :: "nat \<Rightarrow> bytes \<Rightarrow> (nat \<Rightarrow> byte) \<Rightarrow> nat \<Rightarrow> byte" where
  "put_bytes off data f = (\<lambda>i. if off \<le> i \<and> i < off + length data then data ! (i - off) else f i)"

definition put_range :: "range \<Rightarrow> (nat \<rightharpoonup> byte) \<Rightarrow> (nat \<Rightarrow> byte) \<Rightarrow> nat \<Rightarrow> byte" where
  "put_range r g f = (\<lambda>i. if fst r \<le> i \<and> i < snd r then the (g i) else f i)"

text \<open>The cache half of \<open>write\<close>; \<open>enqueue_upload\<close> follows as a step of its own.\<close>

definition cache_write :: "path \<Rightarrow> nat \<Rightarrow> bytes \<Rightarrow> wb_state \<Rightarrow> wb_state" where
  "cache_write p off data s =
     s\<lparr>cache := (cache s)(p := put_bytes off data (cache s p)),
       user := (user s)(p := (\<lambda>i. if off \<le> i \<and> i < off + length data then Some (data ! (i - off))
                                  else user s p i)),
       unqueued := (p, off, off + length data) # unqueued s\<rparr>"

definition enqueue_upload :: "path \<Rightarrow> nat \<Rightarrow> nat \<Rightarrow> queue_state \<Rightarrow> queue_state" where
  "enqueue_upload p off data_len q =
     (if data_len = 0 then q else enqueue p off (u64_add off data_len) q)"

definition queue_write :: "path \<Rightarrow> range \<Rightarrow> wb_state \<Rightarrow> wb_state" where
  "queue_write p r s =
     s\<lparr>wq := enqueue_upload p (fst r) (snd r - fst r) (wq s), unqueued := remove1 (p, r) (unqueued s)\<rparr>"

text \<open>One round of the flusher: every range of the claimed batch starts its own task.\<close>

definition flush_batch :: "instant \<Rightarrow> path list \<Rightarrow> wb_state \<Rightarrow> wb_state" where
  "flush_batch now keys s =
     (case take_batch now keys (wq s) of (q, batch) \<Rightarrow>
        s\<lparr>wq := q,
          phase := (\<lambda>p r. if (p, r) \<in> set batch then Reading Map.empty else phase s p r)\<rparr>)"

text \<open>The task reads its range back in pieces, sends it, and reports.\<close>

definition read_back :: "path \<Rightarrow> range \<Rightarrow> range \<Rightarrow> wb_state \<Rightarrow> wb_state" where
  "read_back p r piece s =
     (case phase s p r of
        Applied \<Rightarrow> s
      | Reading f \<Rightarrow>
          s\<lparr>phase := (phase s)(p := (phase s p)(r := Reading
              (\<lambda>i. if fst piece \<le> i \<and> i < snd piece then Some (cache s p i) else f i)))\<rparr>)"

definition complete :: "range \<Rightarrow> (nat \<rightharpoonup> byte) \<Rightarrow> bool" where
  "complete r f \<longleftrightarrow> (\<forall>i \<in> {fst r..<snd r}. f i \<noteq> None)"

definition apply_send :: "path \<Rightarrow> range \<Rightarrow> (nat \<rightharpoonup> byte) \<Rightarrow> wb_state \<Rightarrow> wb_state" where
  "apply_send p r f s =
     s\<lparr>target := (target s)(p := put_range r f (target s p)),
       phase := (phase s)(p := (phase s p)(r := Applied))\<rparr>"

definition report_send :: "instant \<Rightarrow> path \<Rightarrow> range \<Rightarrow> send_outcome \<Rightarrow> wb_state \<Rightarrow> wb_state" where
  "report_send now p r outcome s =
     s\<lparr>wq := finish now p r outcome (wq s),
       dropped := (if outcome = Drop then (dropped s)(p := dropped s p \<union> {fst r..<snd r})
                   else dropped s)\<rparr>"

section \<open>Steps\<close>

text \<open>
  \<open>Sent\<close> is reported only after the target answered. \<open>Retry\<close> may be reported in any phase
  (short read-back, connection loss before or after the target acted), \<open>Drop\<close> too.
\<close>

inductive wb_step :: "wb_state \<Rightarrow> wb_state \<Rightarrow> bool" where
  wb_write: "off + length data \<le> off_max \<Longrightarrow> wb_step s (cache_write p off data s)"
| wb_queue: "(p, r) \<in> set (unqueued s) \<Longrightarrow> wb_step s (queue_write p r s)"
| wb_flush: "set keys = dom (dirty (wq s)) \<Longrightarrow> distinct keys \<Longrightarrow> wb_step s (flush_batch now keys s)"
| wb_read: "r \<in> set (get_vec (inflight (wq s)) p) \<Longrightarrow> wb_step s (read_back p r piece s)"
| wb_apply: "r \<in> set (get_vec (inflight (wq s)) p) \<Longrightarrow> phase s p r = Reading f \<Longrightarrow> complete r f \<Longrightarrow>
     wb_step s (apply_send p r f s)"
| wb_sent: "r \<in> set (get_vec (inflight (wq s)) p) \<Longrightarrow> phase s p r = Applied \<Longrightarrow>
     wb_step s (report_send now p r Sent s)"
| wb_failed: "r \<in> set (get_vec (inflight (wq s)) p) \<Longrightarrow> outcome \<noteq> Sent \<Longrightarrow>
     wb_step s (report_send now p r outcome s)"

text \<open>
  Two things the code does not exclude: a request that timed out on the bridge is still
  executed by the target later, and a read-side fetch (prefetch, read miss, background
  sync) stores remote bytes in the cache over bytes the user has just written.
\<close>

inductive race_step :: "wb_state \<Rightarrow> wb_state \<Rightarrow> bool" where
  race_plain: "wb_step s t \<Longrightarrow> race_step s t"
| race_timeout: "r \<in> set (get_vec (inflight (wq s)) p) \<Longrightarrow> phase s p r = Reading f \<Longrightarrow> complete r f \<Longrightarrow>
     race_step s ((report_send now p r Retry s)\<lparr>late := (p, r, f) # late s\<rparr>)"
| race_late: "(p, r, f) \<in> set (late s) \<Longrightarrow>
     race_step s (s\<lparr>target := (target s)(p := put_range r f (target s p)),
                    late := remove1 (p, r, f) (late s)\<rparr>)"
| race_fill: "race_step s (s\<lparr>cache := (cache s)(p := put_range r (\<lambda>i. Some (target s p i)) (cache s p))\<rparr>)"

section \<open>The invariant\<close>

definition in_range :: "nat \<Rightarrow> range \<Rightarrow> bool" where
  "in_range i r \<longleftrightarrow> fst r \<le> i \<and> i < snd r"

definition send_ok :: "wb_state \<Rightarrow> path \<Rightarrow> range \<Rightarrow> nat \<Rightarrow> bool" where
  "send_ok s p r i \<longleftrightarrow>
     (case phase s p r of
        Reading f \<Rightarrow> f i = None \<or> f i = Some (cache s p i)
      | Applied \<Rightarrow> target s p i = cache s p i)"

text \<open>A byte whose target copy may still differ from the cache because it is to be sent again.\<close>

definition unsent :: "wb_state \<Rightarrow> path \<Rightarrow> nat \<Rightarrow> bool" where
  "unsent s p i \<longleftrightarrow> i \<in> dropped s p \<or> (\<exists>r. (p, r) \<in> set (unqueued s) \<and> in_range i r) \<or>
     i \<in> range_set (get_vec (dirty (wq s)) p)"

definition byte_ok :: "wb_state \<Rightarrow> path \<Rightarrow> nat \<Rightarrow> bool" where
  "byte_ok s p i \<longleftrightarrow> unsent s p i \<or>
     (\<forall>r \<in> set (get_vec (inflight (wq s)) p). in_range i r \<longrightarrow> send_ok s p r i) \<and>
     (i \<notin> range_set (get_vec (inflight (wq s)) p) \<longrightarrow> target s p i = cache s p i)"

definition wb_inv :: "wb_state \<Rightarrow> bool" where
  "wb_inv s \<longleftrightarrow> queue_inv (wq s) \<and>
     (\<forall>(p, a, b) \<in> set (unqueued s). a \<le> b \<and> b \<le> off_max) \<and>
     (\<forall>p i v. user s p i = Some v \<longrightarrow> cache s p i = v \<and> byte_ok s p i)"

lemma wb_inv_init: "wb_inv (wb_init now c t)"
  by (simp add: wb_inv_def wb_init_def queue_inv_new)

lemma in_range_set_iff: "i \<in> range_set rs \<longleftrightarrow> (\<exists>r \<in> set rs. in_range i r)"
  by (force simp: range_set_def in_range_def)

text \<open>At most one in-flight range holds a given byte.\<close>

lemma disjoint_unique:
  "disjoint_ranges rs \<Longrightarrow> r \<in> set rs \<Longrightarrow> r' \<in> set rs \<Longrightarrow> in_range i r \<Longrightarrow> in_range i r' \<Longrightarrow> r = r'"
  by (induction rs rule: disjoint_ranges.induct) (fastforce simp: in_range_def)+

lemma queue_inv_disjoint: "queue_inv q \<Longrightarrow> disjoint_ranges (get_vec (inflight q) p)"
  by (simp add: queue_inv_def path_inv_def)

lemma wb_inv_queue: "wb_inv s \<Longrightarrow> queue_inv (wq s)"
  by (simp add: wb_inv_def)

lemma wb_invI:
  assumes "queue_inv (wq t)" and "\<And>p a b. (p, a, b) \<in> set (unqueued t) \<Longrightarrow> a \<le> b \<and> b \<le> off_max"
    and "\<And>p i v. user t p i = Some v \<Longrightarrow> cache t p i = v \<and> byte_ok t p i"
  shows "wb_inv t"
  using assms by (auto simp: wb_inv_def)

lemma wb_invD:
  assumes "wb_inv s"
  shows "(p, a, b) \<in> set (unqueued s) \<Longrightarrow> a \<le> b \<and> b \<le> off_max"
    and "user s p i = Some v \<Longrightarrow> cache s p i = v" and "user s p i = Some v \<Longrightarrow> byte_ok s p i"
  using assms by (auto simp: wb_inv_def)

lemma byte_ok_mono:
  assumes "byte_ok s p i" and "unsent s p i \<Longrightarrow> unsent t p i"
    and "get_vec (inflight (wq t)) p = get_vec (inflight (wq s)) p"
    and "phase t p = phase s p" and "cache t p i = cache s p i" and "target t p i = target s p i"
  shows "byte_ok t p i"
proof -
  have "send_ok t p r i = send_ok s p r i" for r
    using assms(4-6) by (simp add: send_ok_def cong: send_phase.case_cong)
  then show ?thesis using assms by (auto simp: byte_ok_def)
qed

section \<open>Every step keeps it\<close>

lemma cache_write_inv:
  assumes "wb_inv s" and "off + length data \<le> off_max"
  shows "wb_inv (cache_write p off data s)"
proof (rule wb_invI)
  show "queue_inv (wq (cache_write p off data s))"
    using wb_inv_queue [OF assms(1)] by (simp add: cache_write_def)
  show "a \<le> b \<and> b \<le> off_max" if "(p', a, b) \<in> set (unqueued (cache_write p off data s))" for p' a b
    using that assms wb_invD(1) [OF assms(1), of p' a b] by (auto simp: cache_write_def)
next
  fix p' i v
  assume u: "user (cache_write p off data s) p' i = Some v"
  show "cache (cache_write p off data s) p' i = v \<and> byte_ok (cache_write p off data s) p' i"
  proof (cases "p' = p \<and> in_range i (off, off + length data)")
    case True
    then show ?thesis using u
      by (auto simp: cache_write_def put_bytes_def byte_ok_def unsent_def in_range_def)
  next
    case False
    have same: "cache (cache_write p off data s) p' i = cache s p' i"
      using False by (auto simp: cache_write_def put_bytes_def in_range_def)
    have "user s p' i = Some v"
      using u False by (auto simp: cache_write_def in_range_def split: if_splits)
    note d = wb_invD(2,3) [OF assms(1) this]
    have "byte_ok (cache_write p off data s) p' i"
      by (rule byte_ok_mono [OF d(2)]) (use same in \<open>auto simp: unsent_def cache_write_def\<close>)
    with d(1) same show ?thesis by simp
  qed
qed

lemma queue_write_inv:
  assumes "wb_inv s" and "(p, r) \<in> set (unqueued s)"
  shows "wb_inv (queue_write p r s)"
proof -
  obtain a b where r: "r = (a, b)" by fastforce
  note ab = wb_invD(1) [OF assms(1) assms(2) [unfolded r]]
  note qi = wb_inv_queue [OF assms(1)]
  have e: "enqueue_upload p a (b - a) (wq s) = enqueue p a b (wq s)"
    using ab by (auto simp: enqueue_upload_def off_max_def enqueue_def)
  have wf: "wf_ranges (get_vec (dirty (wq s)) p)" using qi by (simp add: queue_inv_def path_inv_def)
  have v: "range_set (get_vec (dirty (enqueue p a b (wq s))) x) =
      range_set (get_vec (dirty (wq s)) x) \<union> (if x = p then {a..<b} else {})" for x
    by (auto simp: enqueue_alt add_dirty_def block_path_def merge_range_set [OF wf])
  have fl: "inflight (enqueue p a b (wq s)) = inflight (wq s)"
    by (simp add: enqueue_alt block_path_def)
  show ?thesis
  proof (rule wb_invI)
    show "queue_inv (wq (queue_write p r s))"
      using enqueue_inv [OF qi, of b p a] ab by (simp add: queue_write_def r e)
    show "a' \<le> b' \<and> b' \<le> off_max" if "(p', a', b') \<in> set (unqueued (queue_write p r s))" for p' a' b'
      using that wb_invD(1) [OF assms(1), of p' a' b'] notin_set_remove1
      by (fastforce simp: queue_write_def)
  next
    fix p' i w
    assume "user (queue_write p r s) p' i = Some w"
    then have "user s p' i = Some w" by (simp add: queue_write_def)
    note d = wb_invD(2,3) [OF assms(1) this]
    have "unsent s p' i \<Longrightarrow> unsent (queue_write p r s) p' i"
      unfolding unsent_def queue_write_def
      using v [of p'] by (auto simp: r e in_range_def) (metis in_set_remove1 prod.inject)
    then have "byte_ok (queue_write p r s) p' i"
      by (rule byte_ok_mono [OF d(2)]) (simp_all add: queue_write_def r e fl)
    with d(1) show "cache (queue_write p r s) p' i = w \<and> byte_ok (queue_write p r s) p' i"
      by (simp add: queue_write_def)
  qed
qed

lemma claims_blocked:
  assumes "claims q out q'"
  shows "blocked q' = blocked q \<and> (\<forall>p \<in> blocked q. dirty q' p = dirty q p)"
  using assms
proof (induction rule: claims.induct)
  case (claims_piece out q' p s pe)
  then have "p \<notin> blocked q" by (simp add: claimable_def)
  then have "dirty (claim p s pe q') x = dirty q' x" if "x \<in> blocked q" for x
    using that by (intro claim_vecs(5)) auto
  then show ?case using claims_piece by simp
qed simp

lemma flush_batch_inv:
  assumes "wb_inv s" and "distinct keys"
  shows "wb_inv (flush_batch now keys s)"
proof -
  obtain q batch where t: "take_batch now keys (wq s) = (q, batch)" by fastforce
  note qi = wb_inv_queue [OF assms(1)]
  note k = claims_keep [OF take_batch_claims(1) [OF qi assms(2) t] qi]
  have qi': "queue_inv q" using k by simp
  define s' where "s' = flush_batch now keys s"
  have f: "wq s' = q" "cache s' = cache s" "target s' = target s" "user s' = user s"
    "unqueued s' = unqueued s" "dropped s' = dropped s"
    "phase s' = (\<lambda>p r. if (p, r) \<in> set batch then Reading Map.empty else phase s p r)"
    by (simp_all add: s'_def flush_batch_def t)
  have "wb_inv s'"
  proof (rule wb_invI)
    show "queue_inv (wq s')" using qi' f by simp
    show "a \<le> b \<and> b \<le> off_max" if "(p', a, b) \<in> set (unqueued s')" for p' a b
      using that wb_invD(1) [OF assms(1)] f by simp
  next
    fix p i v
    assume "user s' p i = Some v"
    then have "user s p i = Some v" using f by simp
    note d = wb_invD(2,3) [OF assms(1) this]
    have pend: "i \<in> range_set (get_vec (dirty q) p) \<or> i \<in> range_set (get_vec (inflight q) p) \<longleftrightarrow>
        i \<in> range_set (get_vec (dirty (wq s)) p) \<or> i \<in> range_set (get_vec (inflight (wq s)) p)"
    proof -
      have "pending_bytes q p = pending_bytes (wq s) p" using k by blast
      then show ?thesis unfolding pending_bytes_def by blast
    qed
    have fl: "r \<in> set (get_vec (inflight q) p) \<longleftrightarrow>
        r \<in> set (get_vec (inflight (wq s)) p) \<or> (p, r) \<in> set batch" for r
      using k by (auto simp: image_iff)
    have sub: "range_set (get_vec (inflight (wq s)) p) \<subseteq> range_set (get_vec (inflight q) p)"
      using k by simp
    have "byte_ok s' p i"
    proof (cases "unsent s' p i")
      case False
      have claimed: "send_ok s' p r i" if "(p, r) \<in> set batch" for r
        using that by (simp add: send_ok_def f)
      show ?thesis
      proof (cases "unsent s p i")
        case True
        with False have "i \<in> range_set (get_vec (dirty (wq s)) p)"
          and nd: "i \<notin> range_set (get_vec (dirty q) p)"
          by (auto simp: unsent_def f)
        show ?thesis
        proof (cases "\<exists>r. (p, r) \<in> set batch \<and> in_range i r")
          case True
          then obtain r where r: "(p, r) \<in> set batch" "in_range i r" by blast
          have "send_ok s' p r' i" if "r' \<in> set (get_vec (inflight q) p)" "in_range i r'" for r'
            using disjoint_unique [OF queue_inv_disjoint [OF qi'] that(1) _ that(2) r(2)]
              fl [of r] r(1) claimed by blast
          moreover have "i \<in> range_set (get_vec (inflight q) p)"
            using r fl [of r] by (auto simp: in_range_set_iff)
          ultimately show ?thesis by (simp add: byte_ok_def f)
        next
          case False
          then have "i \<in> range_set (get_vec (inflight (wq s)) p)"
            using pend nd \<open>i \<in> range_set (get_vec (dirty (wq s)) p)\<close> fl
            by (metis in_range_set_iff)
          moreover have "p \<in> blocked (wq s)"
            using qi \<open>i \<in> range_set (get_vec (dirty (wq s)) p)\<close> calculation
            by (auto simp: queue_inv_def path_inv_def)
          ultimately show ?thesis using claims_blocked [OF take_batch_claims(1) [OF qi assms(2) t]] nd
              \<open>i \<in> range_set (get_vec (dirty (wq s)) p)\<close> by (simp add: get_vec_def)
        qed
      next
        case no: False
        then have b: "\<forall>r \<in> set (get_vec (inflight (wq s)) p). in_range i r \<longrightarrow> send_ok s p r i"
          "i \<notin> range_set (get_vec (inflight (wq s)) p) \<longrightarrow> target s p i = cache s p i"
          using d(2) by (simp_all add: byte_ok_def)
        have "send_ok s' p r i" if "r \<in> set (get_vec (inflight q) p)" "in_range i r" for r
          using that fl [of r] claimed [of r] b(1)
          by (cases "(p, r) \<in> set batch") (auto simp: send_ok_def f cong: send_phase.case_cong)
        then show ?thesis using b(2) sub by (auto simp: byte_ok_def f)
      qed
    qed (simp add: byte_ok_def)
    then show "cache s' p i = v \<and> byte_ok s' p i" using d(1) f by simp
  qed
  then show ?thesis by (simp add: s'_def)
qed

text \<open>The bytes of a range its send task has read back.\<close>

lemma read_back_inv:
  assumes "wb_inv s"
  shows "wb_inv (read_back p r piece s)"
proof (cases "phase s p r")
  case (Reading f)
  have ok: "send_ok s x r' i \<Longrightarrow> send_ok (read_back p r piece s) x r' i" for x r' i
    by (auto simp: send_ok_def read_back_def Reading split: send_phase.splits)
  show ?thesis
  proof (rule wb_invI)
    fix x i v
    assume "user (read_back p r piece s) x i = Some v"
    then have "user s x i = Some v" by (simp add: read_back_def Reading)
    from wb_invD(2,3) [OF assms this] ok
    show "cache (read_back p r piece s) x i = v \<and> byte_ok (read_back p r piece s) x i"
      unfolding byte_ok_def by (auto simp: unsent_def read_back_def Reading)
  qed (use assms in \<open>auto simp: read_back_def Reading wb_inv_queue wb_invD(1)\<close>)
qed (simp add: read_back_def assms)

lemma apply_send_inv:
  assumes "wb_inv s" and "r \<in> set (get_vec (inflight (wq s)) p)" and "phase s p r = Reading f"
    and "complete r f"
  shows "wb_inv (apply_send p r f s)"
proof (rule wb_invI)
  fix x i v
  assume "user (apply_send p r f s) x i = Some v"
  then have "user s x i = Some v" by (simp add: apply_send_def)
  note d = wb_invD(2,3) [OF assms(1) this]
  note dj = queue_inv_disjoint [OF wb_inv_queue [OF assms(1)], of p]
  have "byte_ok (apply_send p r f s) x i"
  proof (cases "unsent s x i")
    case False
    then have b: "r' \<in> set (get_vec (inflight (wq s)) x) \<Longrightarrow> in_range i r' \<Longrightarrow> send_ok s x r' i"
      "i \<notin> range_set (get_vec (inflight (wq s)) x) \<Longrightarrow> target s x i = cache s x i" for r'
      using d(2) by (simp_all add: byte_ok_def)
    show ?thesis
    proof (cases "x = p \<and> in_range i r")
      case True
      then have "f i \<noteq> None" using assms(4) by (simp add: complete_def in_range_def)
      then have "f i = Some (cache s p i)"
        using b(1) [of r] assms(2,3) True by (auto simp: send_ok_def)
      then have "send_ok (apply_send p r f s) p r i"
        using True by (simp add: send_ok_def apply_send_def put_range_def in_range_def)
      moreover have "r' = r" if "r' \<in> set (get_vec (inflight (wq s)) p)" "in_range i r'" for r'
        using disjoint_unique [OF dj that(1) assms(2) that(2)] True by simp
      moreover have "i \<in> range_set (get_vec (inflight (wq s)) p)"
        using True assms(2) by (auto simp: in_range_set_iff)
      ultimately show ?thesis using True by (auto simp: byte_ok_def apply_send_def)
    next
      case other: False
      have "target (apply_send p r f s) x i = target s x i"
        using other by (auto simp: apply_send_def put_range_def in_range_def)
      moreover have "send_ok (apply_send p r f s) x r' i"
        if "r' \<in> set (get_vec (inflight (wq s)) x)" "in_range i r'" for r'
      proof -
        have "phase (apply_send p r f s) x r' = phase s x r'"
          using other that(2) by (auto simp: apply_send_def)
        with b(1) [OF that] calculation show ?thesis
          by (simp add: send_ok_def apply_send_def cong: send_phase.case_cong)
      qed
      ultimately show ?thesis using b(2) by (simp add: byte_ok_def apply_send_def)
    qed
  qed (simp add: byte_ok_def unsent_def apply_send_def)
  with d(1) show "cache (apply_send p r f s) x i = v \<and> byte_ok (apply_send p r f s) x i"
    by (simp add: apply_send_def)
qed (use assms in \<open>auto simp: apply_send_def wb_inv_queue wb_invD(1)\<close>)

lemma report_send_inv:
  assumes "wb_inv s" and r: "r \<in> set (get_vec (inflight (wq s)) p)"
    and "outcome = Sent \<Longrightarrow> phase s p r = Applied"
  shows "wb_inv (report_send now p r outcome s)"
proof -
  note qi = wb_inv_queue [OF assms(1)]
  let ?t = "report_send now p r outcome s"
  have wf: "wf_ranges (get_vec (dirty (wq s)) p)" using qi by (simp add: queue_inv_def path_inv_def)
  have same: "cache ?t = cache s" "target ?t = target s" "phase ?t = phase s" "user ?t = user s"
    "unqueued ?t = unqueued s" "wq ?t = finish now p r outcome (wq s)"
    by (simp_all add: report_send_def)
  show ?thesis
  proof (rule wb_invI)
    show "queue_inv (wq ?t)" using finish_inv(1) [OF qi r] same by simp
    show "a \<le> b \<and> b \<le> off_max" if "(x, a, b) \<in> set (unqueued ?t)" for x a b
      using that wb_invD(1) [OF assms(1)] same by simp
  next
    fix x i v
    assume "user ?t x i = Some v"
    then have "user s x i = Some v" using same by simp
    note d = wb_invD(2,3) [OF assms(1) this]
    have mono: "unsent s x i \<Longrightarrow> unsent ?t x i"
    proof -
      have "dropped s x \<subseteq> dropped ?t x" by (simp add: report_send_def)
      moreover have "range_set (get_vec (dirty (wq s)) x) \<subseteq> range_set (get_vec (dirty (wq ?t)) x)"
        by (simp add: same finish_vecs merge_range_set [OF wf])
      ultimately show "unsent s x i \<Longrightarrow> unsent ?t x i" by (auto simp: unsent_def same)
    qed
    have "byte_ok ?t x i"
    proof (cases "unsent ?t x i")
      case False
      then have b: "\<forall>r' \<in> set (get_vec (inflight (wq s)) x). in_range i r' \<longrightarrow> send_ok s x r' i"
        "i \<notin> range_set (get_vec (inflight (wq s)) x) \<longrightarrow> target s x i = cache s x i"
        using d(2) mono by (auto simp: byte_ok_def)
      have so: "send_ok ?t x r' i = send_ok s x r' i" for r'
        by (simp add: send_ok_def same cong: send_phase.case_cong)
      have fl: "set (get_vec (inflight (wq ?t)) x) \<subseteq> set (get_vec (inflight (wq s)) x)"
        by (auto simp: same finish_vecs)
      have "target s x i = cache s x i" if n: "i \<notin> range_set (get_vec (inflight (wq ?t)) x)"
      proof (cases "x = p \<and> in_range i r")
        case True
        then have "outcome = Sent"
          using False by (cases outcome) (auto simp: unsent_def same finish_vecs
              merge_range_set [OF wf] in_range_def report_send_def)
        then show ?thesis using b(1) r True assms(3) by (auto simp: send_ok_def)
      next
        case out: False
        then have "i \<notin> range_set (get_vec (inflight (wq s)) x)"
          using n by (auto simp: same finish_vecs in_range_set_iff split: if_splits)
        then show ?thesis using b(2) by simp
      qed
      then show ?thesis using b(1) fl so by (auto simp: byte_ok_def same)
    qed (simp add: byte_ok_def)
    then show "cache ?t x i = v \<and> byte_ok ?t x i" using d(1) same by simp
  qed
qed

lemma wb_step_keeps: "wb_step s t \<Longrightarrow> wb_inv s \<Longrightarrow> wb_inv t"
  by (induction rule: wb_step.induct)
    (simp add: cache_write_inv queue_write_inv flush_batch_inv read_back_inv apply_send_inv
      report_send_inv; fail | rule report_send_inv; simp)+

interpretation write_behind: step_invariant wb_step wb_inv
  by unfold_locales (rule wb_step_keeps)

section \<open>Eventual equality\<close>

lemma drained_byte:
  assumes "wb_inv s" and "\<not> pending_any [p] (wq s)" and "\<forall>r. (p, r) \<notin> set (unqueued s)"
    and "i \<notin> dropped s p" and "user s p i = Some v"
  shows "target s p i = v"
  using wb_invD(2,3) [OF assms(1,5)] assms(2-4)
  by (auto simp: byte_ok_def unsent_def pending_any_def)

text \<open>C7: what a drained write-behind path guarantees. In every state the pipeline of FUSE
  writes, batching, read-back, concurrent sends, retries and drops can reach, a byte the user
  wrote is on the target with the user's last value as soon as nothing of its path is queued
  or in flight, provided its send was not dropped; interleavings of rewrites with in-flight
  sends cannot leave an older byte behind.\<close>

theorem drained_target_has_user_bytes:
  assumes "wb_step\<^sup>*\<^sup>* (wb_init now cache0 target0) s" and "\<not> pending_any [p] (wq s)"
    and "\<forall>r. (p, r) \<notin> set (unqueued s)" and "i \<notin> dropped s p" and "user s p i = Some v"
  shows "target s p i = v"
  by (rule drained_byte [OF write_behind.steps_keep [OF assms(1) wb_inv_init] assms(2-5)])

text \<open>One byte written, queued, claimed, read back, sent and acknowledged.\<close>

definition one_path :: path where "one_path = [RootDir, Normal ''a'']"

definition queue_is :: "range list \<Rightarrow> range list \<Rightarrow> wb_state \<Rightarrow> bool" where
  "queue_is d f s \<longleftrightarrow> dirty (wq s) = (if d = [] then Map.empty else [one_path \<mapsto> d]) \<and>
     inflight (wq s) = (if f = [] then Map.empty else [one_path \<mapsto> f]) \<and> blocked (wq s) = {} \<and>
     inflight_bytes (wq s) = total_bytes f \<and> retry_after (wq s) \<le> 2000"

definition write_one :: "byte \<Rightarrow> wb_state \<Rightarrow> wb_state" where
  "write_one b s = queue_write one_path (0, 1) (cache_write one_path 0 [b] s)"

definition read_one :: "wb_state \<Rightarrow> wb_state" where
  "read_one s = read_back one_path (0, 1) (0, 1) s"

definition send_one :: "byte \<Rightarrow> wb_state \<Rightarrow> wb_state" where
  "send_one b s = report_send 0 one_path (0, 1) Sent (apply_send one_path (0, 1) [0 \<mapsto> b] s)"

lemma write_one_run:
  assumes "queue_is [] [] s" and "unqueued s = []"
  shows "wb_step\<^sup>*\<^sup>* s (write_one b s)" and "queue_is [(0, 1)] [] (write_one b s)"
    and "unqueued (write_one b s) = []" and "cache (write_one b s) one_path 0 = b"
    and "user (write_one b s) one_path 0 = Some b" and "target (write_one b s) = target s"
    and "dropped (write_one b s) = dropped s" and "late (write_one b s) = late s"
proof -
  have "wb_step s (cache_write one_path 0 [b] s)" by (rule wb_write) (simp add: off_max_def)
  moreover have "wb_step (cache_write one_path 0 [b] s) (write_one b s)"
    unfolding write_one_def by (rule wb_queue) (simp add: cache_write_def)
  ultimately show "wb_step\<^sup>*\<^sup>* s (write_one b s)" by (rule rtranclp.rtrancl_into_rtrancl [OF r_into_rtranclp])
qed (use assms in \<open>auto simp: write_one_def queue_write_def cache_write_def enqueue_upload_def
    put_bytes_def queue_is_def enqueue_def merge_range_def get_vec_def\<close>)

lemma flush_one_run:
  assumes "queue_is [(0, 1)] [] s"
  shows "wb_step s (flush_batch 2000 [one_path] s)"
    and "queue_is [] [(0, 1)] (flush_batch 2000 [one_path] s)"
    and "phase (flush_batch 2000 [one_path] s) one_path (0, 1) = Reading Map.empty"
    and "unqueued (flush_batch 2000 [one_path] s) = unqueued s"
    and "cache (flush_batch 2000 [one_path] s) = cache s"
    and "user (flush_batch 2000 [one_path] s) = user s"
    and "target (flush_batch 2000 [one_path] s) = target s"
    and "dropped (flush_batch 2000 [one_path] s) = dropped s"
    and "late (flush_batch 2000 [one_path] s) = late s"
proof -
  show "wb_step s (flush_batch 2000 [one_path] s)"
    by (rule wb_flush) (use assms in \<open>auto simp: queue_is_def\<close>)
qed (use assms in \<open>auto simp: flush_batch_def queue_is_def take_batch_def take_path.simps claim_def
    piece_end_def get_vec_def WRITE_WINDOW_def CHUNK_MAX_def Let_def\<close>)

lemma read_one_run:
  assumes "queue_is [] [(0, 1)] s" and "phase s one_path (0, 1) = Reading Map.empty"
    and "cache s one_path 0 = b"
  shows "wb_step s (read_one s)" and "queue_is [] [(0, 1)] (read_one s)"
    and "phase (read_one s) one_path (0, 1) = Reading [0 \<mapsto> b]"
    and "unqueued (read_one s) = unqueued s" and "cache (read_one s) = cache s"
    and "user (read_one s) = user s" and "target (read_one s) = target s"
    and "dropped (read_one s) = dropped s" and "late (read_one s) = late s"
proof -
  show "wb_step s (read_one s)" unfolding read_one_def
    by (rule wb_read) (use assms in \<open>simp add: queue_is_def get_vec_def\<close>)
qed (use assms in \<open>auto simp: read_one_def read_back_def queue_is_def fun_eq_iff\<close>)

lemma send_one_run:
  assumes "queue_is [] [(0, 1)] s" and "phase s one_path (0, 1) = Reading [0 \<mapsto> b]"
  shows "wb_step\<^sup>*\<^sup>* s (send_one b s)" and "queue_is [] [] (send_one b s)"
    and "target (send_one b s) one_path 0 = b"
    and "unqueued (send_one b s) = unqueued s" and "cache (send_one b s) = cache s"
    and "user (send_one b s) = user s"
    and "dropped (send_one b s) = dropped s" and "late (send_one b s) = late s"
proof -
  have fl: "(0, 1) \<in> set (get_vec (inflight (wq s)) one_path)"
    using assms(1) by (simp add: queue_is_def get_vec_def)
  have "wb_step s (apply_send one_path (0, 1) [0 \<mapsto> b] s)"
    by (rule wb_apply [OF fl assms(2)]) (simp add: complete_def)
  moreover have "wb_step (apply_send one_path (0, 1) [0 \<mapsto> b] s) (send_one b s)"
    unfolding send_one_def by (rule wb_sent) (use fl in \<open>simp_all add: apply_send_def\<close>)
  ultimately show "wb_step\<^sup>*\<^sup>* s (send_one b s)" by (rule rtranclp.rtrancl_into_rtrancl [OF r_into_rtranclp])
qed (use assms in \<open>auto simp: send_one_def apply_send_def report_send_def queue_is_def put_range_def
    finish_def drop_inflight_def record_outcome_def release_block_def get_vec_def Let_def\<close>)

lemma retry_one:
  assumes "queue_is [] [(0, 1)] s"
  shows "queue_is [(0, 1)] [] (report_send 0 one_path (0, 1) Retry s)"
    and "unqueued (report_send 0 one_path (0, 1) Retry s) = unqueued s"
    and "late (report_send 0 one_path (0, 1) Retry s) = late s"
    and "dropped (report_send 0 one_path (0, 1) Retry s) = dropped s"
  using assms next_backoff_bounds [of "backoff_ms (wq s)"]
  by (auto simp: report_send_def queue_is_def finish_def drop_inflight_def
      record_outcome_def release_block_def get_vec_def Let_def merge_range_def next_backoff_def)

lemma queue_is_init: "queue_is [] [] (wb_init 0 c t)"
  by (simp add: queue_is_def wb_init_def new_queue_def)

lemma queue_is_drained: "queue_is [] [] s \<Longrightarrow> \<not> pending_any [one_path] (wq s)"
  by (simp add: queue_is_def pending_any_def)

definition cycle_one :: "wb_state \<Rightarrow> wb_state" where
  "cycle_one s = (let t = read_one (flush_batch 2000 [one_path] s) in send_one (cache s one_path 0) t)"

lemma cycle_one_run:
  assumes "queue_is [(0, 1)] [] s"
  shows "wb_step\<^sup>*\<^sup>* s (cycle_one s)" and "queue_is [] [] (cycle_one s)"
    and "target (cycle_one s) one_path 0 = cache s one_path 0"
    and "unqueued (cycle_one s) = unqueued s" and "user (cycle_one s) = user s"
    and "dropped (cycle_one s) = dropped s" and "late (cycle_one s) = late s"
proof -
  note f = flush_one_run [OF assms]
  have c: "cache (flush_batch 2000 [one_path] s) one_path 0 = cache s one_path 0" using f by simp
  note r = read_one_run [OF f(2,3) c]
  note d = send_one_run [OF r(2,3)]
  from f(1) r(1) d(1) show "wb_step\<^sup>*\<^sup>* s (cycle_one s)"
    unfolding cycle_one_def Let_def
    by (meson converse_rtranclp_into_rtranclp)
  show "queue_is [] [] (cycle_one s)" "target (cycle_one s) one_path 0 = cache s one_path 0"
    "unqueued (cycle_one s) = unqueued s" "user (cycle_one s) = user s"
    "dropped (cycle_one s) = dropped s" "late (cycle_one s) = late s"
    unfolding cycle_one_def Let_def using d f r by simp_all
qed

theorem drained_target_has_user_bytes_witness:
  "\<exists>s. wb_step\<^sup>*\<^sup>* (wb_init 0 (\<lambda>_ _. 0) (\<lambda>_ _. 0)) s \<and> user s one_path 0 = Some 7 \<and>
     target s one_path 0 = 7"
proof -
  let ?s = "wb_init 0 (\<lambda>_ _. 0) (\<lambda>_ _. 0)"
  have "unqueued ?s = []" by (simp add: wb_init_def)
  note w = write_one_run [OF queue_is_init this, of 7]
  note c = cycle_one_run [OF w(2)]
  have st: "wb_step\<^sup>*\<^sup>* ?s (cycle_one (write_one 7 ?s))" using w(1) c(1) by (rule rtranclp_trans)
  have n: "\<forall>r. (one_path, r) \<notin> set (unqueued (cycle_one (write_one 7 ?s)))" using c(4) w(3) by simp
  have dr: "0 \<notin> dropped (cycle_one (write_one 7 ?s)) one_path"
    using c(6) w(7) by (simp add: wb_init_def)
  have u: "user (cycle_one (write_one 7 ?s)) one_path 0 = Some 7" using c(5) w(5) by simp
  from drained_target_has_user_bytes [OF st queue_is_drained [OF c(2)] n dr u] st u
  show ?thesis by blast
qed

section \<open>What the queue does not protect against\<close>

lemma race_plain_star: "wb_step\<^sup>*\<^sup>* s t \<Longrightarrow> race_step\<^sup>*\<^sup>* s t"
  by (induction rule: rtranclp_induct) (auto intro: race_plain rtranclp.rtrancl_into_rtrancl)

text \<open>C9: a retried send is not idempotent against later writes. A request that timed out on
  the bridge can still be executed by the target after the retry and a later rewrite have
  been sent and acknowledged: everything drains without an error left to report, and the
  target ends with the older byte.\<close>

theorem late_request_overwrites_newer_byte:
  "\<exists>s. race_step\<^sup>*\<^sup>* (wb_init 0 cache0 target0) s \<and> \<not> pending_any [one_path] (wq s) \<and>
     unqueued s = [] \<and> dropped s one_path = {} \<and> late s = [] \<and>
     user s one_path 0 = Some 2 \<and> target s one_path 0 = 1"
proof -
  let ?s0 = "wb_init 0 cache0 target0"
  have "unqueued ?s0 = []" by (simp add: wb_init_def)
  note w1 = write_one_run [OF queue_is_init this, of 1]
  note f1 = flush_one_run [OF w1(2)]
  define s1 where "s1 = read_one (flush_batch 2000 [one_path] (write_one 1 ?s0))"
  have "cache (flush_batch 2000 [one_path] (write_one 1 ?s0)) one_path 0 = 1" using f1(5) w1(4) by simp
  note r1 = read_one_run [OF f1(2,3) this, folded s1_def]
  have p1: "race_step\<^sup>*\<^sup>* ?s0 s1"
    using w1(1) f1(1) r1(1) by (meson race_plain_star rtranclp.rtrancl_into_rtrancl)
  have fl: "(0, 1) \<in> set (get_vec (inflight (wq s1)) one_path)"
    using r1(2) by (simp add: queue_is_def get_vec_def)
  define s2 where "s2 = (report_send 0 one_path (0, 1) Retry s1)\<lparr>late := (one_path, (0, 1), [0 \<mapsto> 1]) # late s1\<rparr>"
  have p2: "race_step s1 s2" unfolding s2_def
    by (rule race_timeout [OF fl r1(3)]) (simp add: complete_def)
  have q2: "queue_is [(0, 1)] [] s2" "unqueued s2 = []" "late s2 = [(one_path, (0, 1), [0 \<mapsto> 1])]"
    "dropped s2 one_path = {}"
  proof -
    show "queue_is [(0, 1)] [] s2" using retry_one(1) [OF r1(2)] by (simp add: s2_def queue_is_def)
    have "dropped ?s0 = (\<lambda>_. {})" "late ?s0 = []" by (simp_all add: wb_init_def)
    then show "unqueued s2 = []" "late s2 = [(one_path, (0, 1), [0 \<mapsto> 1])]" "dropped s2 one_path = {}"
      using retry_one(2-4) [OF r1(2)] r1(4,8,9) f1(4,8,9) w1(3,7,8) by (simp_all add: s2_def)
  qed
  note c2 = cycle_one_run [OF q2(1)]
  have "unqueued (cycle_one s2) = []" using c2 q2 by simp
  note w3 = write_one_run [OF c2(2) this, of 2]
  note c3 = cycle_one_run [OF w3(2)]
  define s3 where "s3 = cycle_one (write_one 2 (cycle_one s2))"
  have p3: "race_step\<^sup>*\<^sup>* s2 s3"
    using c2(1) w3(1) c3(1) unfolding s3_def by (meson race_plain_star rtranclp_trans)
  have l: "(one_path, (0, 1), [0 \<mapsto> 1]) \<in> set (late s3)" "late s3 = [(one_path, (0, 1), [0 \<mapsto> 1])]"
    using c3(7) w3(8) c2(7) q2(3) by (simp_all add: s3_def)
  define s4 where "s4 = s3\<lparr>target := (target s3)(one_path := put_range (0, 1) [0 \<mapsto> 1] (target s3 one_path)),
                    late := remove1 (one_path, (0, 1), [0 \<mapsto> 1]) (late s3)\<rparr>"
  have "race_step s3 s4" unfolding s4_def by (rule race_late [OF l(1)])
  with p1 p2 p3 have "race_step\<^sup>*\<^sup>* ?s0 s4" by (meson rtranclp_trans rtranclp.rtrancl_into_rtrancl)
  moreover have "wq s4 = wq s3" "unqueued s4 = []" "dropped s4 one_path = {}" "late s4 = []"
    "user s4 one_path 0 = Some 2" "target s4 one_path 0 = 1"
    using c3 w3 c2 q2 l(2) by (simp_all add: s4_def s3_def put_range_def)
  moreover have "\<not> pending_any [one_path] (wq s3)"
    using queue_is_drained [OF c3(2)] by (simp add: s3_def)
  ultimately show ?thesis by force
qed


end
