(* ===== verification/Json.thy ===== *)
theory Json
  imports Prelude "HOL-Library.Monad_Syntax"
begin

text \<open>
  JSON values (\<open>serde_json::Value\<close>) and the reading and writing of one field that the
  \<open>#[derive(Serialize, Deserialize)]\<close> attributes of \<open>crates/protocol/src/lib.rs\<close> stand for,
  following serde's data model. An object is an association list with distinct keys. A
  number that is not an integer of 64 bits is kept as text. A struct is read from an object,
  or positionally from an array.
\<close>

section \<open>Values\<close>

datatype json =
    JNull
  | JBool bool
  | JInt int
  | JFloat string
  | JStr string
  | JArr "json list"
  | JObj "(string \<times> json) list"

text \<open>\<open>Value::get\<close>, \<open>Value::as_str\<close>, \<open>as_u64\<close>, \<open>as_bool\<close>.\<close>

definition get :: "json \<Rightarrow> string \<Rightarrow> json option" where
  "get j k = (case j of JObj kvs \<Rightarrow> map_of kvs k | _ \<Rightarrow> None)"

definition as_str :: "json \<Rightarrow> string option" where
  "as_str j = (case j of JStr s \<Rightarrow> Some s | _ \<Rightarrow> None)"

definition as_u64 :: "json \<Rightarrow> nat option" where
  "as_u64 j = (case j of JInt i \<Rightarrow> if 0 \<le> i \<and> i < 2 ^ 64 then Some (nat i) else None | _ \<Rightarrow> None)"

definition as_bool :: "json \<Rightarrow> bool option" where
  "as_bool j = (case j of JBool b \<Rightarrow> Some b | _ \<Rightarrow> None)"

text \<open>Indexing \<open>v[k]\<close> of a value: \<open>null\<close> where there is nothing.\<close>

definition index :: "json \<Rightarrow> string \<Rightarrow> json" where
  "index j k = (case get j k of None \<Rightarrow> JNull | Some v \<Rightarrow> v)"

lemmas json_readers = get_def as_str_def as_u64_def as_bool_def index_def

lemma get_JObj [simp]: "get (JObj kvs) k = map_of kvs k"
  by (simp add: get_def)

lemma get_JNull [simp]: "get JNull k = None"
  by (simp add: get_def)

lemma as_str_JStr [simp]: "as_str (JStr s) = Some s"
  by (simp add: as_str_def)

lemma as_u64_JInt [simp]: "n < 2 ^ 64 \<Longrightarrow> as_u64 (JInt (int n)) = Some n"
  by (simp add: as_u64_def)

lemma as_u64_small [simp]: "as_u64 (JInt 0) = Some 0" "as_u64 (JInt 1) = Some 1"
  by (simp_all add: as_u64_def)

lemma as_u64_bound: "as_u64 j = Some n \<Longrightarrow> n < 2 ^ 64 \<and> j = JInt (int n)"
  by (auto simp: as_u64_def nat_less_iff split: json.splits if_splits)

section \<open>Scalars\<close>

definition of_str :: "json \<Rightarrow> string option" where "of_str = as_str"
definition of_bool :: "json \<Rightarrow> bool option" where "of_bool = as_bool"

text \<open>An unsigned (signed) integer of the width of the field.\<close>

definition unsigned_json :: "'w::len word \<Rightarrow> json" where "unsigned_json w = JInt (uint w)"
definition signed_json :: "'w::len word \<Rightarrow> json" where "signed_json w = JInt (sint w)"

definition of_unsigned :: "json \<Rightarrow> ('w::len word) option" where
  "of_unsigned j = (case j of
     JInt i \<Rightarrow> if uint (word_of_int i :: 'w word) = i then Some (word_of_int i) else None
   | _ \<Rightarrow> None)"

definition of_signed :: "json \<Rightarrow> ('w::len word) option" where
  "of_signed j = (case j of
     JInt i \<Rightarrow> if sint (word_of_int i :: 'w word) = i then Some (word_of_int i) else None
   | _ \<Rightarrow> None)"

fun of_list :: "(json \<Rightarrow> 'a option) \<Rightarrow> json list \<Rightarrow> 'a list option" where
  "of_list dec [] = Some []"
| "of_list dec (j # js) = do { x \<leftarrow> dec j; xs \<leftarrow> of_list dec js; Some (x # xs) }"

definition of_arr :: "(json \<Rightarrow> 'a option) \<Rightarrow> json \<Rightarrow> 'a list option" where
  "of_arr dec j = (case j of JArr js \<Rightarrow> of_list dec js | _ \<Rightarrow> None)"

definition of_map :: "json \<Rightarrow> (string \<times> json) list option" where
  "of_map j = (case j of JObj kvs \<Rightarrow> Some kvs | _ \<Rightarrow> None)"

text \<open>A unit variant: its name, or an object holding its name with \<open>null\<close>.\<close>

definition of_variant :: "(string \<times> 'a) list \<Rightarrow> json \<Rightarrow> 'a option" where
  "of_variant table j = (case j of
     JStr s \<Rightarrow> map_of table s
   | JObj [(s, JNull)] \<Rightarrow> map_of table s
   | _ \<Rightarrow> None)"

text \<open>An \<open>Option\<close> is written as \<open>null\<close> or as its value.\<close>

definition opt_json :: "('a \<Rightarrow> json) \<Rightarrow> 'a option \<Rightarrow> json" where
  "opt_json enc x = (case x of None \<Rightarrow> JNull | Some v \<Rightarrow> enc v)"

definition of_opt :: "(json \<Rightarrow> 'a option) \<Rightarrow> json \<Rightarrow> 'a option option" where
  "of_opt dec j = (if j = JNull then Some None else map_option Some (dec j))"

section \<open>Structs\<close>

text \<open>
  Writing: the fields in order, those with \<open>skip_serializing_if\<close> absent when \<open>None\<close>.
  Reading: an object gives every field by name; an array gives them by position and must
  not be too long.
\<close>

fun obj_fields :: "(string \<times> json option) list \<Rightarrow> (string \<times> json) list" where
  "obj_fields [] = []"
| "obj_fields ((k, None) # xs) = obj_fields xs"
| "obj_fields ((k, Some v) # xs) = (k, v) # obj_fields xs"

datatype src = FromMap "(string \<times> json) list" | FromSeq "(string \<times> json) list"

definition struct_src :: "string list \<Rightarrow> json \<Rightarrow> src option" where
  "struct_src names j = (case j of
     JObj kvs \<Rightarrow> Some (FromMap kvs)
   | JArr xs \<Rightarrow> if length xs \<le> length names then Some (FromSeq (zip names xs)) else None
   | _ \<Rightarrow> None)"

fun src_get :: "src \<Rightarrow> string \<Rightarrow> json option" where
  "src_get (FromMap kvs) k = map_of kvs k"
| "src_get (FromSeq kvs) k = map_of kvs k"

text \<open>A required field, an \<open>Option\<close> field, and an \<open>Option\<close> field with \<open>#[serde(default)]\<close>.\<close>

definition req :: "src \<Rightarrow> string \<Rightarrow> (json \<Rightarrow> 'a option) \<Rightarrow> 'a option" where
  "req f k dec = (case src_get f k of None \<Rightarrow> None | Some v \<Rightarrow> dec v)"

definition opt_field :: "src \<Rightarrow> string \<Rightarrow> (json \<Rightarrow> 'a option) \<Rightarrow> 'a option option" where
  "opt_field f k dec = (case src_get f k of
     None \<Rightarrow> (case f of FromMap _ \<Rightarrow> Some None | FromSeq _ \<Rightarrow> None)
   | Some v \<Rightarrow> of_opt dec v)"

definition opt_default :: "src \<Rightarrow> string \<Rightarrow> (json \<Rightarrow> 'a option) \<Rightarrow> 'a option option" where
  "opt_default f k dec = (case src_get f k of None \<Rightarrow> Some None | Some v \<Rightarrow> of_opt dec v)"

lemma struct_src_JObj [simp]: "struct_src names (JObj kvs) = Some (FromMap kvs)"
  by (simp add: struct_src_def)

declare obj_fields.simps [simp del]

lemma map_of_obj_fields_None: "k \<notin> fst ` set xs \<Longrightarrow> map_of (obj_fields xs) k = None"
proof (induction xs)
  case (Cons x xs)
  then show ?case by (cases x; cases "snd x") (auto simp: obj_fields.simps)
qed (simp add: obj_fields.simps)

lemma map_of_obj_fields [simp]:
  "map_of (obj_fields []) k = None"
  "k \<notin> fst ` set xs \<Longrightarrow> map_of (obj_fields ((k, ov) # xs)) k = ov"
  "k \<noteq> k' \<Longrightarrow> map_of (obj_fields ((k', ov) # xs)) k = map_of (obj_fields xs) k"
  by (cases ov; simp add: obj_fields.simps map_of_obj_fields_None)+

lemma req_FromMap [simp]:
  "req (FromMap kvs) k dec = (case map_of kvs k of None \<Rightarrow> None | Some v \<Rightarrow> dec v)"
  by (simp add: req_def)

text \<open>A decoder reads a field by its name only: what else the object holds is ignored.\<close>

lemma obj_fields_extra:
  "map_of kvs k = map_of kvs' k \<Longrightarrow>
   req (FromMap kvs) k d = req (FromMap kvs') k d \<and>
   opt_field (FromMap kvs) k d' = opt_field (FromMap kvs') k d' \<and>
   opt_default (FromMap kvs) k d' = opt_default (FromMap kvs') k d'"
  by (simp add: opt_field_def opt_default_def split: option.splits)

section \<open>Codecs\<close>

text \<open>
  The contract of an encoder and decoder pair, and what it gives for the arrays and
  \<open>Option\<close> fields built from it. An \<open>Option\<close> only reads back what is never \<open>null\<close>.
\<close>

locale codec =
  fixes enc :: "'a \<Rightarrow> json" and dec :: "json \<Rightarrow> 'a option"
  assumes dec_enc [simp]: "dec (enc x) = Some x"
begin

lemma of_list_map [simp]: "of_list dec (map enc xs) = Some xs"
  by (induction xs) auto

lemma of_arr_map [simp]: "of_arr dec (JArr (map enc xs)) = Some xs"
  by (simp add: of_arr_def)

lemma enc_inj: "enc x = enc y \<longleftrightarrow> x = y"
  using dec_enc by (metis option.inject)

end

locale value_codec = codec +
  assumes enc_not_null [simp]: "enc x \<noteq> JNull"
begin

lemma of_opt_Some [simp]: "of_opt dec (enc x) = Some (Some x)"
  by (simp add: of_opt_def)

lemma of_opt_opt_json [simp]: "of_opt dec (opt_json enc x) = Some x"
  by (cases x) (simp_all add: opt_json_def of_opt_def)

lemma opt_default_written [simp]:
  "map_of kvs k = Some (opt_json enc x) \<Longrightarrow> opt_default (FromMap kvs) k dec = Some x"
  by (simp add: opt_default_def)

lemma opt_field_written [simp]:
  "map_of kvs k = Some (opt_json enc x) \<Longrightarrow> opt_field (FromMap kvs) k dec = Some x"
  by (simp add: opt_field_def)

lemma opt_field_skipped [simp]:
  "map_of kvs k = map_option enc x \<Longrightarrow> opt_field (FromMap kvs) k dec = Some x"
  by (cases x) (simp_all add: opt_field_def of_opt_def)

end

interpretation str_codec: value_codec JStr of_str
  by unfold_locales (simp_all add: of_str_def)

interpretation bool_codec: value_codec JBool of_bool
  by unfold_locales (simp_all add: of_bool_def as_bool_def)

interpretation unsigned_codec: value_codec "unsigned_json :: 'w::len word \<Rightarrow> json" of_unsigned
  by unfold_locales (simp_all add: unsigned_json_def of_unsigned_def)

interpretation signed_codec: value_codec "signed_json :: 'w::len word \<Rightarrow> json" of_signed
  by unfold_locales (simp_all add: signed_json_def of_signed_def)

interpretation map_codec: value_codec JObj of_map
  by unfold_locales (simp_all add: of_map_def)

text \<open>A decoded integer is in the range of its width.\<close>

lemma of_unsigned_range:
  "of_unsigned j = Some (w :: 'w::len word) \<Longrightarrow> j = JInt (uint w) \<and> uint w < 2 ^ LENGTH('w)"
  by (auto simp: of_unsigned_def split: json.splits if_splits)

lemma of_unsigned_None:
  "i < 0 \<or> 2 ^ LENGTH('w) \<le> i \<Longrightarrow> of_unsigned (JInt i) = (None :: 'w::len word option)"
proof (simp add: of_unsigned_def, rule notI)
  assume out: "i < 0 \<or> 2 ^ LENGTH('w) \<le> i" and "uint (word_of_int i :: 'w word) = i"
  moreover have "0 \<le> uint (word_of_int i :: 'w word)" "uint (word_of_int i :: 'w word) < 2 ^ LENGTH('w)"
    by (rule uint_nonnegative, rule uint_bounded)
  ultimately show False by linarith
qed

end
