(* ===== verification/Protocol.thy ===== *)
theory Protocol
  imports Json
begin

text \<open>
  The wire protocol (\<open>crates/protocol/src/lib.rs\<close>): kinds, error codes, method names and the
  frames, each with the encoder and decoder its derive attributes stand for. The decoders
  return \<open>None\<close> where serde reports an error.
\<close>

section \<open>Kinds, codes and names\<close>

type_synonym agent_id = string
type_synonym session_id = string
type_synonym request_id = nat

datatype peer_kind = Bridge | Agent

definition peer_kind_json :: "peer_kind \<Rightarrow> json" where
  "peer_kind_json k = JStr (case k of Bridge \<Rightarrow> ''bridge'' | Agent \<Rightarrow> ''agent'')"

definition of_peer_kind :: "json \<Rightarrow> peer_kind option" where
  "of_peer_kind = of_variant [(''bridge'', Bridge), (''agent'', Agent)]"

datatype file_kind = RegularFile | Dir | Symlink | Other

definition file_kind_json :: "file_kind \<Rightarrow> json" where
  "file_kind_json k = JStr (case k of
     RegularFile \<Rightarrow> ''file'' | Dir \<Rightarrow> ''dir'' | Symlink \<Rightarrow> ''symlink'' | Other \<Rightarrow> ''other'')"

definition of_file_kind :: "json \<Rightarrow> file_kind option" where
  "of_file_kind = of_variant
     [(''file'', RegularFile), (''dir'', Dir), (''symlink'', Symlink), (''other'', Other)]"

interpretation peer_kind_codec: value_codec peer_kind_json of_peer_kind
proof
  fix k show "of_peer_kind (peer_kind_json k) = Some k"
    by (cases k) (simp_all add: of_peer_kind_def peer_kind_json_def of_variant_def)
qed (simp add: peer_kind_json_def)

interpretation file_kind_codec: value_codec file_kind_json of_file_kind
proof
  fix k show "of_file_kind (file_kind_json k) = Some k"
    by (cases k) (simp_all add: of_file_kind_def file_kind_json_def of_variant_def)
qed (simp add: file_kind_json_def)

datatype code = PARSE_ERROR | INVALID_REQUEST | METHOD_NOT_FOUND | INVALID_PARAMS
  | INTERNAL_ERROR | AGENT_OFFLINE | CANCELLED

fun code_value :: "code \<Rightarrow> int" where
  "code_value PARSE_ERROR = -32700"
| "code_value INVALID_REQUEST = -32600"
| "code_value METHOD_NOT_FOUND = -32601"
| "code_value INVALID_PARAMS = -32602"
| "code_value INTERNAL_ERROR = -32603"
| "code_value AGENT_OFFLINE = -32000"
| "code_value CANCELLED = -32001"

datatype rpc_method =
    RUN_COMMAND | READ_FILE | WRITE_FILE | LIST_DIR | STAT | MKDIR
  | REMOVE | RENAME | COPY | WRITE_AT | TRUNCATE | SYMLINK
  | CHMOD | STREAM_FILE | MOUNT | UNMOUNT | LIST_MOUNTS | PING
  | LIST_TARGETS | GET_COMMAND_RESULT

fun method_name :: "rpc_method \<Rightarrow> string" where
  "method_name RUN_COMMAND = ''run_command''"
| "method_name READ_FILE = ''read_file''"
| "method_name WRITE_FILE = ''write_file''"
| "method_name LIST_DIR = ''list_dir''"
| "method_name STAT = ''stat''"
| "method_name MKDIR = ''mkdir''"
| "method_name REMOVE = ''remove''"
| "method_name RENAME = ''rename''"
| "method_name COPY = ''copy''"
| "method_name WRITE_AT = ''write_at''"
| "method_name TRUNCATE = ''truncate''"
| "method_name SYMLINK = ''symlink''"
| "method_name CHMOD = ''chmod''"
| "method_name STREAM_FILE = ''stream_file''"
| "method_name MOUNT = ''mount''"
| "method_name UNMOUNT = ''unmount''"
| "method_name LIST_MOUNTS = ''list_mounts''"
| "method_name PING = ''ping''"
| "method_name LIST_TARGETS = ''list_targets''"
| "method_name GET_COMMAND_RESULT = ''get_command_result''"

datatype notify =
    COMMAND_OUTPUT | COMMAND_FINISHED | MOUNT_GONE

fun notify_name :: "notify \<Rightarrow> string" where
  "notify_name COMMAND_OUTPUT = ''command_output''"
| "notify_name COMMAND_FINISHED = ''command_finished''"
| "notify_name MOUNT_GONE = ''mount_gone''"

lemma method_name_inj: "method_name m = method_name m' \<longleftrightarrow> m = m'"
  by (cases m; cases m'; simp)

section \<open>Frames\<close>

record rpc_error =
  err_code :: "64 word"
  err_message :: string
  err_data :: "json option"

definition rpc_error_json :: "rpc_error \<Rightarrow> json" where
  "rpc_error_json p = JObj (obj_fields [(''code'', Some (signed_json (err_code p))),
     (''message'', Some (JStr (err_message p))), (''data'', err_data p)])"

definition of_rpc_error :: "json \<Rightarrow> rpc_error option" where
  "of_rpc_error j = do {
     f \<leftarrow> struct_src [''code'', ''message'', ''data''] j;
     v_code \<leftarrow> req f ''code'' of_signed;
     v_message \<leftarrow> req f ''message'' of_str;
     v_data \<leftarrow> opt_field f ''data'' Some;
     Some \<lparr>err_code = v_code, err_message = v_message, err_data = v_data\<rparr> }"

definition rpc_error_new :: "code \<Rightarrow> string \<Rightarrow> rpc_error" where
  "rpc_error_new c message = \<lparr>err_code = word_of_int (code_value c), err_message = message, err_data = None\<rparr>"

definition rpc_error_with_data :: "code \<Rightarrow> string \<Rightarrow> json \<Rightarrow> rpc_error" where
  "rpc_error_with_data c message data =
     \<lparr>err_code = word_of_int (code_value c), err_message = message, err_data = Some data\<rparr>"

text \<open>A member that is \<open>null\<close> is read back as absent.\<close>

definition null_absent :: "json option \<Rightarrow> json option" where
  "null_absent x = (if x = Some JNull then None else x)"

lemma opt_field_raw:
  "map_of kvs k = x \<Longrightarrow> opt_field (FromMap kvs) k Some = Some (null_absent x)"
  by (cases x) (simp_all add: opt_field_def of_opt_def null_absent_def)

lemma rpc_error_readback: "of_rpc_error (rpc_error_json p) = Some (p\<lparr>err_data := null_absent (err_data p)\<rparr>)"
  by (cases p) (simp add: of_rpc_error_def rpc_error_json_def opt_field_raw)

record hello =
  hello_kind :: peer_kind
  hello_id :: string
  hello_name :: string
  hello_token :: "string option"

definition hello_json :: "hello \<Rightarrow> json" where
  "hello_json p = JObj (obj_fields [(''kind'', Some (peer_kind_json (hello_kind p))),
     (''id'', Some (JStr (hello_id p))), (''name'', Some (JStr (hello_name p))),
     (''token'', map_option JStr (hello_token p))])"

definition of_hello :: "json \<Rightarrow> hello option" where
  "of_hello j = do {
     f \<leftarrow> struct_src [''kind'', ''id'', ''name'', ''token''] j;
     v_kind \<leftarrow> req f ''kind'' of_peer_kind;
     v_id \<leftarrow> req f ''id'' of_str;
     v_name \<leftarrow> req f ''name'' of_str;
     v_token \<leftarrow> opt_field f ''token'' of_str;
     Some \<lparr>hello_kind = v_kind, hello_id = v_id, hello_name = v_name,
       hello_token = v_token\<rparr> }"

lemma hello_roundtrip: "of_hello (hello_json p) = Some p"
  by (cases p) (simp add: of_hello_def hello_json_def)

record hello_ack =
  ack_session :: string
  ack_agent_id :: "string option"

definition hello_ack_json :: "hello_ack \<Rightarrow> json" where
  "hello_ack_json p = JObj (obj_fields [(''session'', Some (JStr (ack_session p))),
     (''agent_id'', map_option JStr (ack_agent_id p))])"

definition of_hello_ack :: "json \<Rightarrow> hello_ack option" where
  "of_hello_ack j = do {
     f \<leftarrow> struct_src [''session'', ''agent_id''] j;
     v_session \<leftarrow> req f ''session'' of_str;
     v_agent_id \<leftarrow> opt_field f ''agent_id'' of_str;
     Some \<lparr>ack_session = v_session, ack_agent_id = v_agent_id\<rparr> }"

lemma hello_ack_roundtrip: "of_hello_ack (hello_ack_json p) = Some p"
  by (cases p) (simp add: of_hello_ack_def hello_ack_json_def)

record request =
  rq_id :: "64 word"
  rq_method :: string
  rq_params :: json

definition request_json :: "request \<Rightarrow> json" where
  "request_json p = JObj (obj_fields [(''id'', Some (unsigned_json (rq_id p))),
     (''method'', Some (JStr (rq_method p))), (''params'', Some (rq_params p))])"

definition of_request :: "json \<Rightarrow> request option" where
  "of_request j = do {
     f \<leftarrow> struct_src [''id'', ''method'', ''params''] j;
     v_id \<leftarrow> req f ''id'' of_unsigned;
     v_method \<leftarrow> req f ''method'' of_str;
     v_params \<leftarrow> req f ''params'' Some;
     Some \<lparr>rq_id = v_id, rq_method = v_method, rq_params = v_params\<rparr> }"

lemma request_roundtrip: "of_request (request_json p) = Some p"
  by (cases p) (simp add: of_request_def request_json_def)

record response =
  rsp_id :: "64 word"
  rsp_result :: "json option"
  rsp_error :: "rpc_error option"

definition response_json :: "response \<Rightarrow> json" where
  "response_json p = JObj (obj_fields [(''id'', Some (unsigned_json (rsp_id p))),
     (''result'', rsp_result p), (''error'', map_option rpc_error_json (rsp_error p))])"

definition of_response :: "json \<Rightarrow> response option" where
  "of_response j = do {
     f \<leftarrow> struct_src [''id'', ''result'', ''error''] j;
     v_id \<leftarrow> req f ''id'' of_unsigned;
     v_result \<leftarrow> opt_field f ''result'' Some;
     v_error \<leftarrow> opt_field f ''error'' of_rpc_error;
     Some \<lparr>rsp_id = v_id, rsp_result = v_result, rsp_error = v_error\<rparr> }"

definition rpc_error_norm :: "rpc_error \<Rightarrow> rpc_error" where
  "rpc_error_norm e = e\<lparr>err_data := null_absent (err_data e)\<rparr>"

lemma opt_field_rpc_error:
  "map_of kvs k = map_option rpc_error_json x \<Longrightarrow>
   opt_field (FromMap kvs) k of_rpc_error = Some (map_option rpc_error_norm x)"
  by (cases x) (simp_all add: opt_field_def of_opt_def rpc_error_readback rpc_error_norm_def,
      simp add: rpc_error_json_def)

lemma response_readback: "of_response (response_json p) =
    Some (p\<lparr>rsp_result := null_absent (rsp_result p), rsp_error := map_option rpc_error_norm (rsp_error p)\<rparr>)"
  by (cases p) (simp add: of_response_def response_json_def opt_field_raw opt_field_rpc_error)

record notification =
  ntf_method :: string
  ntf_params :: json

definition notification_json :: "notification \<Rightarrow> json" where
  "notification_json p = JObj (obj_fields [(''method'', Some (JStr (ntf_method p))),
     (''params'', Some (ntf_params p))])"

definition of_notification :: "json \<Rightarrow> notification option" where
  "of_notification j = do {
     f \<leftarrow> struct_src [''method'', ''params''] j;
     v_method \<leftarrow> req f ''method'' of_str;
     v_params \<leftarrow> req f ''params'' Some;
     Some \<lparr>ntf_method = v_method, ntf_params = v_params\<rparr> }"

lemma notification_roundtrip: "of_notification (notification_json p) = Some p"
  by (cases p) (simp add: of_notification_def notification_json_def)

end
