(* ===== verification/Protocol_Params.thy ===== *)
theory Protocol_Params
  imports Protocol
begin

text \<open>
  The request parameters of the protocol (\<open>crates/protocol/src/lib.rs\<close>) with their codecs.
\<close>

record run_command_params =
  rc_command :: string
  rc_cwd :: "string option"
  rc_env :: "((string \<times> json) list) option"
  rc_timeout_secs :: "(64 word) option"
  rc_input :: "string option"
  rc_wait :: "bool option"

definition run_command_params_json :: "run_command_params \<Rightarrow> json" where
  "run_command_params_json p = JObj (obj_fields [(''command'', Some (JStr (rc_command p))),
     (''cwd'', Some (opt_json JStr (rc_cwd p))), (''env'', Some (opt_json JObj (rc_env p))),
     (''timeout_secs'', Some (opt_json unsigned_json (rc_timeout_secs p))),
     (''input'', Some (opt_json JStr (rc_input p))),
     (''wait'', Some (opt_json JBool (rc_wait p)))])"

definition of_run_command_params :: "json \<Rightarrow> run_command_params option" where
  "of_run_command_params j = do {
     f \<leftarrow> struct_src [''command'', ''cwd'', ''env'', ''timeout_secs'', ''input'', ''wait''] j;
     v_command \<leftarrow> req f ''command'' of_str;
     v_cwd \<leftarrow> opt_default f ''cwd'' of_str;
     v_env \<leftarrow> opt_default f ''env'' of_map;
     v_timeout_secs \<leftarrow> opt_default f ''timeout_secs'' of_unsigned;
     v_input \<leftarrow> opt_default f ''input'' of_str;
     v_wait \<leftarrow> opt_default f ''wait'' of_bool;
     Some \<lparr>rc_command = v_command, rc_cwd = v_cwd, rc_env = v_env,
       rc_timeout_secs = v_timeout_secs, rc_input = v_input, rc_wait = v_wait\<rparr> }"

lemma run_command_params_roundtrip: "of_run_command_params (run_command_params_json p) = Some p"
  by (cases p) (simp add: of_run_command_params_def run_command_params_json_def)

record read_file_params =
  rf_path :: string
  rf_offset :: "(64 word) option"
  rf_limit :: "(64 word) option"

definition read_file_params_json :: "read_file_params \<Rightarrow> json" where
  "read_file_params_json p = JObj (obj_fields [(''path'', Some (JStr (rf_path p))),
     (''offset'', Some (opt_json unsigned_json (rf_offset p))),
     (''limit'', Some (opt_json unsigned_json (rf_limit p)))])"

definition of_read_file_params :: "json \<Rightarrow> read_file_params option" where
  "of_read_file_params j = do {
     f \<leftarrow> struct_src [''path'', ''offset'', ''limit''] j;
     v_path \<leftarrow> req f ''path'' of_str;
     v_offset \<leftarrow> opt_default f ''offset'' of_unsigned;
     v_limit \<leftarrow> opt_default f ''limit'' of_unsigned;
     Some \<lparr>rf_path = v_path, rf_offset = v_offset, rf_limit = v_limit\<rparr> }"

lemma read_file_params_roundtrip: "of_read_file_params (read_file_params_json p) = Some p"
  by (cases p) (simp add: of_read_file_params_def read_file_params_json_def)

record write_file_params =
  wf_path :: string
  wf_data :: string
  wf_create_dirs :: "bool option"

definition write_file_params_json :: "write_file_params \<Rightarrow> json" where
  "write_file_params_json p = JObj (obj_fields [(''path'', Some (JStr (wf_path p))),
     (''data'', Some (JStr (wf_data p))),
     (''create_dirs'', Some (opt_json JBool (wf_create_dirs p)))])"

definition of_write_file_params :: "json \<Rightarrow> write_file_params option" where
  "of_write_file_params j = do {
     f \<leftarrow> struct_src [''path'', ''data'', ''create_dirs''] j;
     v_path \<leftarrow> req f ''path'' of_str;
     v_data \<leftarrow> req f ''data'' of_str;
     v_create_dirs \<leftarrow> opt_default f ''create_dirs'' of_bool;
     Some \<lparr>wf_path = v_path, wf_data = v_data, wf_create_dirs = v_create_dirs\<rparr> }"

lemma write_file_params_roundtrip: "of_write_file_params (write_file_params_json p) = Some p"
  by (cases p) (simp add: of_write_file_params_def write_file_params_json_def)

record list_dir_params =
  ld_path :: string

definition list_dir_params_json :: "list_dir_params \<Rightarrow> json" where
  "list_dir_params_json p = JObj (obj_fields [(''path'', Some (JStr (ld_path p)))])"

definition of_list_dir_params :: "json \<Rightarrow> list_dir_params option" where
  "of_list_dir_params j = do {
     f \<leftarrow> struct_src [''path''] j;
     v_path \<leftarrow> req f ''path'' of_str;
     Some \<lparr>ld_path = v_path\<rparr> }"

lemma list_dir_params_roundtrip: "of_list_dir_params (list_dir_params_json p) = Some p"
  by (cases p) (simp add: of_list_dir_params_def list_dir_params_json_def)

record stat_params =
  sp_path :: string

definition stat_params_json :: "stat_params \<Rightarrow> json" where
  "stat_params_json p = JObj (obj_fields [(''path'', Some (JStr (sp_path p)))])"

definition of_stat_params :: "json \<Rightarrow> stat_params option" where
  "of_stat_params j = do {
     f \<leftarrow> struct_src [''path''] j;
     v_path \<leftarrow> req f ''path'' of_str;
     Some \<lparr>sp_path = v_path\<rparr> }"

lemma stat_params_roundtrip: "of_stat_params (stat_params_json p) = Some p"
  by (cases p) (simp add: of_stat_params_def stat_params_json_def)

record mkdir_params =
  mk_path :: string
  mk_mode :: "(32 word) option"

definition mkdir_params_json :: "mkdir_params \<Rightarrow> json" where
  "mkdir_params_json p = JObj (obj_fields [(''path'', Some (JStr (mk_path p))),
     (''mode'', Some (opt_json unsigned_json (mk_mode p)))])"

definition of_mkdir_params :: "json \<Rightarrow> mkdir_params option" where
  "of_mkdir_params j = do {
     f \<leftarrow> struct_src [''path'', ''mode''] j;
     v_path \<leftarrow> req f ''path'' of_str;
     v_mode \<leftarrow> opt_default f ''mode'' of_unsigned;
     Some \<lparr>mk_path = v_path, mk_mode = v_mode\<rparr> }"

lemma mkdir_params_roundtrip: "of_mkdir_params (mkdir_params_json p) = Some p"
  by (cases p) (simp add: of_mkdir_params_def mkdir_params_json_def)

record remove_params =
  rm_path :: string
  rm_recursive :: "bool option"

definition remove_params_json :: "remove_params \<Rightarrow> json" where
  "remove_params_json p = JObj (obj_fields [(''path'', Some (JStr (rm_path p))),
     (''recursive'', Some (opt_json JBool (rm_recursive p)))])"

definition of_remove_params :: "json \<Rightarrow> remove_params option" where
  "of_remove_params j = do {
     f \<leftarrow> struct_src [''path'', ''recursive''] j;
     v_path \<leftarrow> req f ''path'' of_str;
     v_recursive \<leftarrow> opt_default f ''recursive'' of_bool;
     Some \<lparr>rm_path = v_path, rm_recursive = v_recursive\<rparr> }"

lemma remove_params_roundtrip: "of_remove_params (remove_params_json p) = Some p"
  by (cases p) (simp add: of_remove_params_def remove_params_json_def)

record rename_params =
  mv_from :: string
  mv_to :: string

definition rename_params_json :: "rename_params \<Rightarrow> json" where
  "rename_params_json p = JObj (obj_fields [(''from'', Some (JStr (mv_from p))),
     (''to'', Some (JStr (mv_to p)))])"

definition of_rename_params :: "json \<Rightarrow> rename_params option" where
  "of_rename_params j = do {
     f \<leftarrow> struct_src [''from'', ''to''] j;
     v_from \<leftarrow> req f ''from'' of_str;
     v_to \<leftarrow> req f ''to'' of_str;
     Some \<lparr>mv_from = v_from, mv_to = v_to\<rparr> }"

lemma rename_params_roundtrip: "of_rename_params (rename_params_json p) = Some p"
  by (cases p) (simp add: of_rename_params_def rename_params_json_def)

record copy_params =
  cp_from :: string
  cp_to :: string
  cp_recursive :: "bool option"

definition copy_params_json :: "copy_params \<Rightarrow> json" where
  "copy_params_json p = JObj (obj_fields [(''from'', Some (JStr (cp_from p))),
     (''to'', Some (JStr (cp_to p))), (''recursive'', Some (opt_json JBool (cp_recursive p)))])"

definition of_copy_params :: "json \<Rightarrow> copy_params option" where
  "of_copy_params j = do {
     f \<leftarrow> struct_src [''from'', ''to'', ''recursive''] j;
     v_from \<leftarrow> req f ''from'' of_str;
     v_to \<leftarrow> req f ''to'' of_str;
     v_recursive \<leftarrow> opt_default f ''recursive'' of_bool;
     Some \<lparr>cp_from = v_from, cp_to = v_to, cp_recursive = v_recursive\<rparr> }"

lemma copy_params_roundtrip: "of_copy_params (copy_params_json p) = Some p"
  by (cases p) (simp add: of_copy_params_def copy_params_json_def)

record write_at_params =
  wa_path :: string
  wa_offset :: "64 word"
  wa_data :: string

definition write_at_params_json :: "write_at_params \<Rightarrow> json" where
  "write_at_params_json p = JObj (obj_fields [(''path'', Some (JStr (wa_path p))),
     (''offset'', Some (unsigned_json (wa_offset p))), (''data'', Some (JStr (wa_data p)))])"

definition of_write_at_params :: "json \<Rightarrow> write_at_params option" where
  "of_write_at_params j = do {
     f \<leftarrow> struct_src [''path'', ''offset'', ''data''] j;
     v_path \<leftarrow> req f ''path'' of_str;
     v_offset \<leftarrow> req f ''offset'' of_unsigned;
     v_data \<leftarrow> req f ''data'' of_str;
     Some \<lparr>wa_path = v_path, wa_offset = v_offset, wa_data = v_data\<rparr> }"

lemma write_at_params_roundtrip: "of_write_at_params (write_at_params_json p) = Some p"
  by (cases p) (simp add: of_write_at_params_def write_at_params_json_def)

record truncate_params =
  tr_path :: string
  tr_size :: "64 word"

definition truncate_params_json :: "truncate_params \<Rightarrow> json" where
  "truncate_params_json p = JObj (obj_fields [(''path'', Some (JStr (tr_path p))),
     (''size'', Some (unsigned_json (tr_size p)))])"

definition of_truncate_params :: "json \<Rightarrow> truncate_params option" where
  "of_truncate_params j = do {
     f \<leftarrow> struct_src [''path'', ''size''] j;
     v_path \<leftarrow> req f ''path'' of_str;
     v_size \<leftarrow> req f ''size'' of_unsigned;
     Some \<lparr>tr_path = v_path, tr_size = v_size\<rparr> }"

lemma truncate_params_roundtrip: "of_truncate_params (truncate_params_json p) = Some p"
  by (cases p) (simp add: of_truncate_params_def truncate_params_json_def)

record symlink_params =
  sl_link :: string
  sl_target :: string

definition symlink_params_json :: "symlink_params \<Rightarrow> json" where
  "symlink_params_json p = JObj (obj_fields [(''link'', Some (JStr (sl_link p))),
     (''target'', Some (JStr (sl_target p)))])"

definition of_symlink_params :: "json \<Rightarrow> symlink_params option" where
  "of_symlink_params j = do {
     f \<leftarrow> struct_src [''link'', ''target''] j;
     v_link \<leftarrow> req f ''link'' of_str;
     v_target \<leftarrow> req f ''target'' of_str;
     Some \<lparr>sl_link = v_link, sl_target = v_target\<rparr> }"

lemma symlink_params_roundtrip: "of_symlink_params (symlink_params_json p) = Some p"
  by (cases p) (simp add: of_symlink_params_def symlink_params_json_def)

record chmod_params =
  cm_path :: string
  cm_mode :: "32 word"

definition chmod_params_json :: "chmod_params \<Rightarrow> json" where
  "chmod_params_json p = JObj (obj_fields [(''path'', Some (JStr (cm_path p))),
     (''mode'', Some (unsigned_json (cm_mode p)))])"

definition of_chmod_params :: "json \<Rightarrow> chmod_params option" where
  "of_chmod_params j = do {
     f \<leftarrow> struct_src [''path'', ''mode''] j;
     v_path \<leftarrow> req f ''path'' of_str;
     v_mode \<leftarrow> req f ''mode'' of_unsigned;
     Some \<lparr>cm_path = v_path, cm_mode = v_mode\<rparr> }"

lemma chmod_params_roundtrip: "of_chmod_params (chmod_params_json p) = Some p"
  by (cases p) (simp add: of_chmod_params_def chmod_params_json_def)

record mount_params =
  mp_remote_dir :: string
  mp_mount_point :: string
  mp_read_only :: "bool option"

definition mount_params_json :: "mount_params \<Rightarrow> json" where
  "mount_params_json p = JObj (obj_fields [(''remote_dir'', Some (JStr (mp_remote_dir p))),
     (''mount_point'', Some (JStr (mp_mount_point p))),
     (''read_only'', Some (opt_json JBool (mp_read_only p)))])"

definition of_mount_params :: "json \<Rightarrow> mount_params option" where
  "of_mount_params j = do {
     f \<leftarrow> struct_src [''remote_dir'', ''mount_point'', ''read_only''] j;
     v_remote_dir \<leftarrow> req f ''remote_dir'' of_str;
     v_mount_point \<leftarrow> req f ''mount_point'' of_str;
     v_read_only \<leftarrow> opt_default f ''read_only'' of_bool;
     Some \<lparr>mp_remote_dir = v_remote_dir, mp_mount_point = v_mount_point,
       mp_read_only = v_read_only\<rparr> }"

lemma mount_params_roundtrip: "of_mount_params (mount_params_json p) = Some p"
  by (cases p) (simp add: of_mount_params_def mount_params_json_def)

record unmount_params =
  um_mount_point :: string

definition unmount_params_json :: "unmount_params \<Rightarrow> json" where
  "unmount_params_json p = JObj (obj_fields [(''mount_point'', Some (JStr (um_mount_point p)))])"

definition of_unmount_params :: "json \<Rightarrow> unmount_params option" where
  "of_unmount_params j = do {
     f \<leftarrow> struct_src [''mount_point''] j;
     v_mount_point \<leftarrow> req f ''mount_point'' of_str;
     Some \<lparr>um_mount_point = v_mount_point\<rparr> }"

lemma unmount_params_roundtrip: "of_unmount_params (unmount_params_json p) = Some p"
  by (cases p) (simp add: of_unmount_params_def unmount_params_json_def)

record get_command_result_params =
  gcp_execution_id :: "64 word"
  gcp_head :: "(64 word) option"
  gcp_tail :: "(64 word) option"

definition get_command_result_params_json :: "get_command_result_params \<Rightarrow> json" where
  "get_command_result_params_json p = JObj (obj_fields [
     (''execution_id'', Some (unsigned_json (gcp_execution_id p))),
     (''head'', Some (opt_json unsigned_json (gcp_head p))),
     (''tail'', Some (opt_json unsigned_json (gcp_tail p)))])"

definition of_get_command_result_params :: "json \<Rightarrow> get_command_result_params option" where
  "of_get_command_result_params j = do {
     f \<leftarrow> struct_src [''execution_id'', ''head'', ''tail''] j;
     v_execution_id \<leftarrow> req f ''execution_id'' of_unsigned;
     v_head \<leftarrow> opt_default f ''head'' of_unsigned;
     v_tail \<leftarrow> opt_default f ''tail'' of_unsigned;
     Some \<lparr>gcp_execution_id = v_execution_id, gcp_head = v_head,
       gcp_tail = v_tail\<rparr> }"

lemma get_command_result_params_roundtrip: "of_get_command_result_params (get_command_result_params_json p) = Some p"
  by (cases p) (simp add: of_get_command_result_params_def get_command_result_params_json_def)

end
