(* ===== verification/Protocol_Results.thy ===== *)
theory Protocol_Results
  imports Protocol
begin

text \<open>
  The results and notification payloads of the protocol (\<open>crates/protocol/src/lib.rs\<close>)
  with their codecs.
\<close>

record run_command_result =
  rcr_exit_code :: "(32 word) option"
  rcr_timed_out :: bool
  rcr_output :: string
  rcr_execution_id :: "(64 word) option"

definition run_command_result_json :: "run_command_result \<Rightarrow> json" where
  "run_command_result_json p = JObj (obj_fields [
     (''exit_code'', Some (opt_json signed_json (rcr_exit_code p))),
     (''timed_out'', Some (JBool (rcr_timed_out p))), (''output'', Some (JStr (rcr_output p))),
     (''execution_id'', map_option unsigned_json (rcr_execution_id p))])"

definition of_run_command_result :: "json \<Rightarrow> run_command_result option" where
  "of_run_command_result j = do {
     f \<leftarrow> struct_src [''exit_code'', ''timed_out'', ''output'', ''execution_id''] j;
     v_exit_code \<leftarrow> opt_field f ''exit_code'' of_signed;
     v_timed_out \<leftarrow> req f ''timed_out'' of_bool;
     v_output \<leftarrow> req f ''output'' of_str;
     v_execution_id \<leftarrow> opt_field f ''execution_id'' of_unsigned;
     Some \<lparr>rcr_exit_code = v_exit_code, rcr_timed_out = v_timed_out,
       rcr_output = v_output, rcr_execution_id = v_execution_id\<rparr> }"

lemma run_command_result_roundtrip: "of_run_command_result (run_command_result_json p) = Some p"
  by (cases p) (simp add: of_run_command_result_def run_command_result_json_def)

record read_file_result =
  rfr_data :: string
  rfr_eof :: bool

definition read_file_result_json :: "read_file_result \<Rightarrow> json" where
  "read_file_result_json p = JObj (obj_fields [(''data'', Some (JStr (rfr_data p))),
     (''eof'', Some (JBool (rfr_eof p)))])"

definition of_read_file_result :: "json \<Rightarrow> read_file_result option" where
  "of_read_file_result j = do {
     f \<leftarrow> struct_src [''data'', ''eof''] j;
     v_data \<leftarrow> req f ''data'' of_str;
     v_eof \<leftarrow> req f ''eof'' of_bool;
     Some \<lparr>rfr_data = v_data, rfr_eof = v_eof\<rparr> }"

lemma read_file_result_roundtrip: "of_read_file_result (read_file_result_json p) = Some p"
  by (cases p) (simp add: of_read_file_result_def read_file_result_json_def)

record write_file_result =
  wfr_bytes_written :: "64 word"

definition write_file_result_json :: "write_file_result \<Rightarrow> json" where
  "write_file_result_json p = JObj (obj_fields [
     (''bytes_written'', Some (unsigned_json (wfr_bytes_written p)))])"

definition of_write_file_result :: "json \<Rightarrow> write_file_result option" where
  "of_write_file_result j = do {
     f \<leftarrow> struct_src [''bytes_written''] j;
     v_bytes_written \<leftarrow> req f ''bytes_written'' of_unsigned;
     Some \<lparr>wfr_bytes_written = v_bytes_written\<rparr> }"

lemma write_file_result_roundtrip: "of_write_file_result (write_file_result_json p) = Some p"
  by (cases p) (simp add: of_write_file_result_def write_file_result_json_def)

record dir_entry =
  de_name :: string
  de_kind :: file_kind
  de_size :: "64 word"
  de_modified :: "64 word"

definition dir_entry_json :: "dir_entry \<Rightarrow> json" where
  "dir_entry_json p = JObj (obj_fields [(''name'', Some (JStr (de_name p))),
     (''kind'', Some (file_kind_json (de_kind p))), (''size'', Some (unsigned_json (de_size p))),
     (''modified'', Some (unsigned_json (de_modified p)))])"

definition of_dir_entry :: "json \<Rightarrow> dir_entry option" where
  "of_dir_entry j = do {
     f \<leftarrow> struct_src [''name'', ''kind'', ''size'', ''modified''] j;
     v_name \<leftarrow> req f ''name'' of_str;
     v_kind \<leftarrow> req f ''kind'' of_file_kind;
     v_size \<leftarrow> req f ''size'' of_unsigned;
     v_modified \<leftarrow> req f ''modified'' of_unsigned;
     Some \<lparr>de_name = v_name, de_kind = v_kind, de_size = v_size,
       de_modified = v_modified\<rparr> }"

lemma dir_entry_roundtrip: "of_dir_entry (dir_entry_json p) = Some p"
  by (cases p) (simp add: of_dir_entry_def dir_entry_json_def)

interpretation dir_entry_codec: codec dir_entry_json of_dir_entry
  by unfold_locales (rule dir_entry_roundtrip)

record list_dir_result =
  ldr_entries :: "dir_entry list"

definition list_dir_result_json :: "list_dir_result \<Rightarrow> json" where
  "list_dir_result_json p = JObj (obj_fields [
     (''entries'', Some (JArr (map dir_entry_json (ldr_entries p))))])"

definition of_list_dir_result :: "json \<Rightarrow> list_dir_result option" where
  "of_list_dir_result j = do {
     f \<leftarrow> struct_src [''entries''] j;
     v_entries \<leftarrow> req f ''entries'' (of_arr of_dir_entry);
     Some \<lparr>ldr_entries = v_entries\<rparr> }"

lemma list_dir_result_roundtrip: "of_list_dir_result (list_dir_result_json p) = Some p"
  by (cases p) (simp add: of_list_dir_result_def list_dir_result_json_def)

record stat_result =
  st_kind :: file_kind
  st_size :: "64 word"
  st_modified :: "64 word"
  st_mode :: "32 word"
  st_uid :: "32 word"
  st_gid :: "32 word"
  st_link_target :: "string option"

definition stat_result_json :: "stat_result \<Rightarrow> json" where
  "stat_result_json p = JObj (obj_fields [(''kind'', Some (file_kind_json (st_kind p))),
     (''size'', Some (unsigned_json (st_size p))),
     (''modified'', Some (unsigned_json (st_modified p))),
     (''mode'', Some (unsigned_json (st_mode p))), (''uid'', Some (unsigned_json (st_uid p))),
     (''gid'', Some (unsigned_json (st_gid p))),
     (''link_target'', map_option JStr (st_link_target p))])"

definition of_stat_result :: "json \<Rightarrow> stat_result option" where
  "of_stat_result j = do {
     f \<leftarrow> struct_src [''kind'', ''size'', ''modified'', ''mode'', ''uid'', ''gid'', ''link_target''] j;
     v_kind \<leftarrow> req f ''kind'' of_file_kind;
     v_size \<leftarrow> req f ''size'' of_unsigned;
     v_modified \<leftarrow> req f ''modified'' of_unsigned;
     v_mode \<leftarrow> req f ''mode'' of_unsigned;
     v_uid \<leftarrow> req f ''uid'' of_unsigned;
     v_gid \<leftarrow> req f ''gid'' of_unsigned;
     v_link_target \<leftarrow> opt_field f ''link_target'' of_str;
     Some \<lparr>st_kind = v_kind, st_size = v_size, st_modified = v_modified, st_mode = v_mode,
       st_uid = v_uid, st_gid = v_gid, st_link_target = v_link_target\<rparr> }"

lemma stat_result_roundtrip: "of_stat_result (stat_result_json p) = Some p"
  by (cases p) (simp add: of_stat_result_def stat_result_json_def)

record mount_result =
  mr_mount_point :: string
  mr_remote_dir :: string
  mr_read_only :: bool

definition mount_result_json :: "mount_result \<Rightarrow> json" where
  "mount_result_json p = JObj (obj_fields [(''mount_point'', Some (JStr (mr_mount_point p))),
     (''remote_dir'', Some (JStr (mr_remote_dir p))),
     (''read_only'', Some (JBool (mr_read_only p)))])"

definition of_mount_result :: "json \<Rightarrow> mount_result option" where
  "of_mount_result j = do {
     f \<leftarrow> struct_src [''mount_point'', ''remote_dir'', ''read_only''] j;
     v_mount_point \<leftarrow> req f ''mount_point'' of_str;
     v_remote_dir \<leftarrow> req f ''remote_dir'' of_str;
     v_read_only \<leftarrow> req f ''read_only'' of_bool;
     Some \<lparr>mr_mount_point = v_mount_point, mr_remote_dir = v_remote_dir,
       mr_read_only = v_read_only\<rparr> }"

lemma mount_result_roundtrip: "of_mount_result (mount_result_json p) = Some p"
  by (cases p) (simp add: of_mount_result_def mount_result_json_def)

interpretation mount_result_codec: codec mount_result_json of_mount_result
  by unfold_locales (rule mount_result_roundtrip)

record list_mounts_result =
  lmr_mounts :: "mount_result list"

definition list_mounts_result_json :: "list_mounts_result \<Rightarrow> json" where
  "list_mounts_result_json p = JObj (obj_fields [
     (''mounts'', Some (JArr (map mount_result_json (lmr_mounts p))))])"

definition of_list_mounts_result :: "json \<Rightarrow> list_mounts_result option" where
  "of_list_mounts_result j = do {
     f \<leftarrow> struct_src [''mounts''] j;
     v_mounts \<leftarrow> req f ''mounts'' (of_arr of_mount_result);
     Some \<lparr>lmr_mounts = v_mounts\<rparr> }"

lemma list_mounts_result_roundtrip: "of_list_mounts_result (list_mounts_result_json p) = Some p"
  by (cases p) (simp add: of_list_mounts_result_def list_mounts_result_json_def)

record ping_result =
  pr_ok :: bool
  pr_hostname :: string
  pr_pid :: "32 word"

definition ping_result_json :: "ping_result \<Rightarrow> json" where
  "ping_result_json p = JObj (obj_fields [(''ok'', Some (JBool (pr_ok p))),
     (''hostname'', Some (JStr (pr_hostname p))), (''pid'', Some (unsigned_json (pr_pid p)))])"

definition of_ping_result :: "json \<Rightarrow> ping_result option" where
  "of_ping_result j = do {
     f \<leftarrow> struct_src [''ok'', ''hostname'', ''pid''] j;
     v_ok \<leftarrow> req f ''ok'' of_bool;
     v_hostname \<leftarrow> req f ''hostname'' of_str;
     v_pid \<leftarrow> req f ''pid'' of_unsigned;
     Some \<lparr>pr_ok = v_ok, pr_hostname = v_hostname, pr_pid = v_pid\<rparr> }"

lemma ping_result_roundtrip: "of_ping_result (ping_result_json p) = Some p"
  by (cases p) (simp add: of_ping_result_def ping_result_json_def)

record get_command_result =
  gcr_done :: bool
  gcr_exit_code :: "(32 word) option"
  gcr_timed_out :: "bool option"
  gcr_output :: string

definition get_command_result_json :: "get_command_result \<Rightarrow> json" where
  "get_command_result_json p = JObj (obj_fields [(''done'', Some (JBool (gcr_done p))),
     (''exit_code'', map_option signed_json (gcr_exit_code p)),
     (''timed_out'', map_option JBool (gcr_timed_out p)),
     (''output'', Some (JStr (gcr_output p)))])"

definition of_get_command_result :: "json \<Rightarrow> get_command_result option" where
  "of_get_command_result j = do {
     f \<leftarrow> struct_src [''done'', ''exit_code'', ''timed_out'', ''output''] j;
     v_done \<leftarrow> req f ''done'' of_bool;
     v_exit_code \<leftarrow> opt_field f ''exit_code'' of_signed;
     v_timed_out \<leftarrow> opt_field f ''timed_out'' of_bool;
     v_output \<leftarrow> req f ''output'' of_str;
     Some \<lparr>gcr_done = v_done, gcr_exit_code = v_exit_code, gcr_timed_out = v_timed_out,
       gcr_output = v_output\<rparr> }"

lemma get_command_result_roundtrip: "of_get_command_result (get_command_result_json p) = Some p"
  by (cases p) (simp add: of_get_command_result_def get_command_result_json_def)

record target_info =
  ti_id :: string
  ti_name :: string
  ti_session :: string

definition target_info_json :: "target_info \<Rightarrow> json" where
  "target_info_json p = JObj (obj_fields [(''id'', Some (JStr (ti_id p))),
     (''name'', Some (JStr (ti_name p))), (''session'', Some (JStr (ti_session p)))])"

definition of_target_info :: "json \<Rightarrow> target_info option" where
  "of_target_info j = do {
     f \<leftarrow> struct_src [''id'', ''name'', ''session''] j;
     v_id \<leftarrow> req f ''id'' of_str;
     v_name \<leftarrow> req f ''name'' of_str;
     v_session \<leftarrow> req f ''session'' of_str;
     Some \<lparr>ti_id = v_id, ti_name = v_name, ti_session = v_session\<rparr> }"

lemma target_info_roundtrip: "of_target_info (target_info_json p) = Some p"
  by (cases p) (simp add: of_target_info_def target_info_json_def)

interpretation target_info_codec: codec target_info_json of_target_info
  by unfold_locales (rule target_info_roundtrip)

record list_targets_result =
  ltr_targets :: "target_info list"

definition list_targets_result_json :: "list_targets_result \<Rightarrow> json" where
  "list_targets_result_json p = JObj (obj_fields [
     (''targets'', Some (JArr (map target_info_json (ltr_targets p))))])"

definition of_list_targets_result :: "json \<Rightarrow> list_targets_result option" where
  "of_list_targets_result j = do {
     f \<leftarrow> struct_src [''targets''] j;
     v_targets \<leftarrow> req f ''targets'' (of_arr of_target_info);
     Some \<lparr>ltr_targets = v_targets\<rparr> }"

lemma list_targets_result_roundtrip: "of_list_targets_result (list_targets_result_json p) = Some p"
  by (cases p) (simp add: of_list_targets_result_def list_targets_result_json_def)

record command_output_notification =
  con_id :: "64 word"
  con_stream :: string
  con_data :: string

definition command_output_notification_json :: "command_output_notification \<Rightarrow> json" where
  "command_output_notification_json p = JObj (obj_fields [
     (''id'', Some (unsigned_json (con_id p))), (''stream'', Some (JStr (con_stream p))),
     (''data'', Some (JStr (con_data p)))])"

definition of_command_output_notification :: "json \<Rightarrow> command_output_notification option" where
  "of_command_output_notification j = do {
     f \<leftarrow> struct_src [''id'', ''stream'', ''data''] j;
     v_id \<leftarrow> req f ''id'' of_unsigned;
     v_stream \<leftarrow> req f ''stream'' of_str;
     v_data \<leftarrow> req f ''data'' of_str;
     Some \<lparr>con_id = v_id, con_stream = v_stream, con_data = v_data\<rparr> }"

lemma command_output_notification_roundtrip: "of_command_output_notification (command_output_notification_json p) = Some p"
  by (cases p) (simp add: of_command_output_notification_def command_output_notification_json_def)

record command_finished_notification =
  cfn_id :: "64 word"
  cfn_exit_code :: "(32 word) option"
  cfn_timed_out :: bool

definition command_finished_notification_json :: "command_finished_notification \<Rightarrow> json" where
  "command_finished_notification_json p = JObj (obj_fields [
     (''id'', Some (unsigned_json (cfn_id p))),
     (''exit_code'', Some (opt_json signed_json (cfn_exit_code p))),
     (''timed_out'', Some (JBool (cfn_timed_out p)))])"

definition of_command_finished_notification :: "json \<Rightarrow> command_finished_notification option" where
  "of_command_finished_notification j = do {
     f \<leftarrow> struct_src [''id'', ''exit_code'', ''timed_out''] j;
     v_id \<leftarrow> req f ''id'' of_unsigned;
     v_exit_code \<leftarrow> opt_field f ''exit_code'' of_signed;
     v_timed_out \<leftarrow> req f ''timed_out'' of_bool;
     Some \<lparr>cfn_id = v_id, cfn_exit_code = v_exit_code,
       cfn_timed_out = v_timed_out\<rparr> }"

lemma command_finished_notification_roundtrip: "of_command_finished_notification (command_finished_notification_json p) = Some p"
  by (cases p) (simp add: of_command_finished_notification_def command_finished_notification_json_def)

record mount_gone_notification =
  mgn_mount_point :: string
  mgn_reason :: string

definition mount_gone_notification_json :: "mount_gone_notification \<Rightarrow> json" where
  "mount_gone_notification_json p = JObj (obj_fields [
     (''mount_point'', Some (JStr (mgn_mount_point p))),
     (''reason'', Some (JStr (mgn_reason p)))])"

definition of_mount_gone_notification :: "json \<Rightarrow> mount_gone_notification option" where
  "of_mount_gone_notification j = do {
     f \<leftarrow> struct_src [''mount_point'', ''reason''] j;
     v_mount_point \<leftarrow> req f ''mount_point'' of_str;
     v_reason \<leftarrow> req f ''reason'' of_str;
     Some \<lparr>mgn_mount_point = v_mount_point, mgn_reason = v_reason\<rparr> }"

lemma mount_gone_notification_roundtrip: "of_mount_gone_notification (mount_gone_notification_json p) = Some p"
  by (cases p) (simp add: of_mount_gone_notification_def mount_gone_notification_json_def)

end
