(* ===== verification/Protocol_Props.thy ===== *)
theory Protocol_Props
  imports Protocol_Params Protocol_Results
begin

text \<open>The properties of the wire protocol's codecs.\<close>


text \<open>Hellos, acknowledgements, requests and notifications survive the wire; a response
  and an error come back with a member that was \<open>null\<close> turned into an absent one, so a
  response carrying the result \<open>null\<close> is read back as carrying no result at all.\<close>

theorem frames_on_the_wire:
  "of_hello (hello_json h) = Some h \<and> of_hello_ack (hello_ack_json a) = Some a \<and>
   of_request (request_json rq) = Some rq \<and> of_notification (notification_json nt) = Some nt \<and>
   of_response (response_json rs) = Some (rs\<lparr>rsp_result := null_absent (rsp_result rs),
     rsp_error := map_option rpc_error_norm (rsp_error rs)\<rparr>) \<and>
   (of_response (response_json rs) = Some rs \<longleftrightarrow> rsp_result rs \<noteq> Some JNull \<and>
     (\<forall>e. rsp_error rs = Some e \<longrightarrow> err_data e \<noteq> Some JNull))"
proof -
  have "rs\<lparr>rsp_result := null_absent (rsp_result rs), rsp_error := map_option rpc_error_norm (rsp_error rs)\<rparr> = rs
      \<longleftrightarrow> rsp_result rs \<noteq> Some JNull \<and> (\<forall>e. rsp_error rs = Some e \<longrightarrow> err_data e \<noteq> Some JNull)"
    by (cases rs; cases "rsp_error rs"; cases "the (rsp_error rs)")
      (auto simp: null_absent_def rpc_error_norm_def)
  then show ?thesis
    by (simp add: hello_roundtrip hello_ack_roundtrip request_roundtrip notification_roundtrip
        response_readback)
qed

theorem frames_on_the_wire_witness:
  "of_response (response_json \<lparr>rsp_id = 7, rsp_result = Some (JBool True), rsp_error = None\<rparr>) =
     Some \<lparr>rsp_id = 7, rsp_result = Some (JBool True), rsp_error = None\<rparr> \<and>
   of_response (response_json \<lparr>rsp_id = 7, rsp_result = Some JNull, rsp_error = None\<rparr>) =
     Some \<lparr>rsp_id = 7, rsp_result = None, rsp_error = None\<rparr>"
  using frames_on_the_wire [of undefined undefined undefined undefined
      "\<lparr>rsp_id = 7, rsp_result = Some (JBool True), rsp_error = None\<rparr>"]
    frames_on_the_wire [of undefined undefined undefined undefined
      "\<lparr>rsp_id = 7, rsp_result = Some JNull, rsp_error = None\<rparr>"]
  by (simp add: null_absent_def)

text \<open>What the decoders of the agent's parameters reject: a missing required field, an
  offset that is negative or does not fit 64 bits, a mode that does not fit 32 bits, and a
  field of the wrong type; what they accept: an absent option and any unknown field.\<close>

theorem param_decoders_check_fields:
  "(map_of kvs ''path'' = None \<longrightarrow> of_write_at_params (JObj kvs) = None) \<and>
   (map_of kvs ''offset'' = Some (JInt i) \<and> (i < 0 \<or> 2 ^ 64 \<le> i) \<longrightarrow>
      of_write_at_params (JObj kvs) = None) \<and>
   (map_of kvs ''mode'' = Some (JInt i) \<and> (i < 0 \<or> 2 ^ 32 \<le> i) \<longrightarrow>
      of_chmod_params (JObj kvs) = None) \<and>
   (map_of kvs ''command'' = Some (JInt i) \<longrightarrow> of_run_command_params (JObj kvs) = None) \<and>
   (map_of kvs ''path'' = Some (JStr p) \<and> map_of kvs ''offset'' = None \<and> map_of kvs ''limit'' = None \<longrightarrow>
      of_read_file_params (JObj kvs) = Some \<lparr>rf_path = p, rf_offset = None, rf_limit = None\<rparr>)"
proof -
  have r: "i < 0 \<or> 2 ^ 64 \<le> i \<Longrightarrow> of_unsigned (JInt i) = (None :: 64 word option)"
    "i < 0 \<or> 2 ^ 32 \<le> i \<Longrightarrow> of_unsigned (JInt i) = (None :: 32 word option)"
    using of_unsigned_None [where 'w = 64, of i] of_unsigned_None [where 'w = 32, of i] by simp_all
  show ?thesis
    using r by (auto simp: of_write_at_params_def of_chmod_params_def of_run_command_params_def
        of_read_file_params_def of_str_def as_str_def opt_default_def split: option.splits)
qed

theorem param_decoders_check_fields_witness:
  "of_write_at_params (JObj [(''path'', JStr ''a''), (''offset'', JInt (-1)), (''data'', JStr [])]) = None \<and>
   of_read_file_params (JObj [(''path'', JStr ''a''), (''zz'', JNull)]) =
     Some \<lparr>rf_path = ''a'', rf_offset = None, rf_limit = None\<rparr>"
  using param_decoders_check_fields
    [of "[(''path'', JStr ''a''), (''offset'', JInt (-1)), (''data'', JStr [])]" "-1" "''a''"]
    param_decoders_check_fields [of "[(''path'', JStr ''a''), (''zz'', JNull)]" 0 "''a''"] by simp

end
