(* ===== verification/Rpc.thy ===== *)
theory Rpc
  imports Protocol
begin

text \<open>
  The framing crate (\<open>crates/rpc/src/lib.rs\<close>): the reconnect schedule, the JSON-RPC values
  built for requests, notifications and responses, the peer that sends them, the reading of
  one frame and the normalisation of the relay's address. JSON text is read by serde_json,
  the parameter \<open>parse\<close>; a frame sent is kept as the JSON value it prints.
\<close>

section \<open>Reconnect schedule\<close>

text \<open>Durations are milliseconds. The saturating doubling never exceeds the cap.\<close>

record reconnect_backoff =
  next_ms :: nat
  max_ms :: nat

definition BACKOFF_INITIAL :: nat where "BACKOFF_INITIAL = 250"

definition new_backoff :: "nat \<Rightarrow> reconnect_backoff" where
  "new_backoff mx = \<lparr>next_ms = min BACKOFF_INITIAL mx, max_ms = mx\<rparr>"

definition next_delay :: "reconnect_backoff \<Rightarrow> nat \<times> reconnect_backoff" where
  "next_delay b = (next_ms b, b\<lparr>next_ms := min (next_ms b * 2) (max_ms b)\<rparr>)"

definition reset_backoff :: "reconnect_backoff \<Rightarrow> reconnect_backoff" where
  "reset_backoff b = b\<lparr>next_ms := min BACKOFF_INITIAL (max_ms b)\<rparr>"

text \<open>The delays of \<open>n\<close> failed attempts in a row.\<close>

fun delays :: "nat \<Rightarrow> reconnect_backoff \<Rightarrow> nat list" where
  "delays 0 b = []"
| "delays (Suc n) b = (case next_delay b of (d, b') \<Rightarrow> d # delays n b')"

lemma delays_from:
  "i < n \<Longrightarrow> next_ms b \<le> max_ms b \<Longrightarrow> delays n b ! i = min (next_ms b * 2 ^ i) (max_ms b)"
proof (induction n arbitrary: b i)
  case (Suc n)
  show ?case
  proof (cases i)
    case 0
    then show ?thesis using Suc.prems by (simp add: next_delay_def)
  next
    case (Suc j)
    have "delays n (snd (next_delay b)) ! j =
        min (next_ms (snd (next_delay b)) * 2 ^ j) (max_ms (snd (next_delay b)))"
      using Suc.IH [of j "snd (next_delay b)"] Suc.prems Suc by (simp add: next_delay_def)
    also have "\<dots> = min (next_ms b * 2 ^ i) (max_ms b)"
    proof (cases "next_ms b * 2 \<le> max_ms b")
      case False
      then have "max_ms b \<le> next_ms b * 2 * 2 ^ j" "max_ms b \<le> max_ms b * 2 ^ j"
        by (metis le_trans less_or_eq_imp_le not_le mult_le_mono2 mult.right_neutral one_le_numeral
            one_le_power)+
      then have "min (max_ms b * 2 ^ j) (max_ms b) = max_ms b" "max_ms b \<le> next_ms b * 2 ^ i"
        using Suc by (simp_all add: min_absorb2 mult.assoc)
      then show ?thesis using False by (simp add: next_delay_def min_absorb2)
    qed (simp add: next_delay_def Suc mult.assoc)
    finally show ?thesis by (simp add: Suc next_delay_def)
  qed
qed simp

text \<open>The reconnect schedule. After a reset the \<open>i\<close>-th failed attempt in a row waits
  250 ms doubled \<open>i\<close> times, capped at the maximum, and never more than the maximum.\<close>

theorem reconnect_schedule:
  assumes "i < n"
  shows "delays n (reset_backoff b) ! i = min (min 250 (max_ms b) * 2 ^ i) (max_ms b) \<and>
    delays n (new_backoff mx) ! i = min (min 250 mx * 2 ^ i) mx"
  using assms by (simp add: delays_from reset_backoff_def new_backoff_def BACKOFF_INITIAL_def)

theorem reconnect_schedule_witness: "delays 6 (new_backoff 5000) ! 5 = 5000"
  using reconnect_schedule [of 5 6 "new_backoff 5000" 5000] by simp

section \<open>JSON-RPC values\<close>

definition request_value :: "nat \<Rightarrow> string \<Rightarrow> json \<Rightarrow> json" where
  "request_value id' mth params = JObj [(''jsonrpc'', JStr ''2.0''), (''id'', JInt (int id')),
     (''method'', JStr mth), (''params'', params)]"

definition notification_value :: "string \<Rightarrow> json \<Rightarrow> json" where
  "notification_value mth params = JObj [(''jsonrpc'', JStr ''2.0''), (''method'', JStr mth),
     (''params'', params)]"

definition response_value :: "nat \<Rightarrow> json option \<Rightarrow> rpc_error option \<Rightarrow> json" where
  "response_value id' result err = JObj ([(''jsonrpc'', JStr ''2.0''), (''id'', JInt (int id'))] @
     (case result of None \<Rightarrow> [] | Some r \<Rightarrow> [(''result'', r)]) @
     (case err of None \<Rightarrow> [] | Some e \<Rightarrow> [(''error'', rpc_error_json e)]))"

text \<open>How the relay and the bridge tell frames apart.\<close>

definition is_response :: "json \<Rightarrow> bool" where
  "is_response v \<longleftrightarrow> get v ''id'' \<noteq> None \<and> get v ''method'' = None"

definition is_notification :: "json \<Rightarrow> bool" where
  "is_notification v \<longleftrightarrow> get v ''method'' \<noteq> None \<and> get v ''id'' = None"

lemma request_value_get [simp]:
  "get (request_value n m p) ''id'' = Some (JInt (int n))"
  "get (request_value n m p) ''method'' = Some (JStr m)"
  "get (request_value n m p) ''params'' = Some p"
  "get (request_value n m p) ''target'' = None"
  "get (request_value n m p) ''session'' = None"
  by (simp_all add: request_value_def)

lemma notification_value_get [simp]:
  "get (notification_value m p) ''id'' = None"
  "get (notification_value m p) ''method'' = Some (JStr m)"
  "get (notification_value m p) ''params'' = Some p"
  "get (notification_value m p) ''target'' = None"
  by (simp_all add: notification_value_def)

lemma response_value_get [simp]:
  "get (response_value n r e) ''id'' = Some (JInt (int n))"
  "get (response_value n r e) ''method'' = None"
  "get (response_value n r e) ''result'' = r"
  "get (response_value n r e) ''error'' = map_option rpc_error_json e"
  by (auto simp: response_value_def split: option.splits)

lemma frame_kinds [simp]:
  "is_response (response_value n r e)" "\<not> is_notification (response_value n r e)"
  "is_notification (notification_value m p)" "\<not> is_response (notification_value m p)"
  "\<not> is_response (request_value n m p)" "\<not> is_notification (request_value n m p)"
  by (simp_all add: is_response_def is_notification_def)

section \<open>Peers\<close>

text \<open>A peer is what it has sent and whether its socket still accepts text.\<close>

record peer =
  peer_hello :: hello
  peer_session :: string
  peer_open :: bool
  peer_sent :: "json list"

definition new_peer :: "hello \<Rightarrow> string \<Rightarrow> peer" where
  "new_peer h session = \<lparr>peer_hello = h, peer_session = session, peer_open = True, peer_sent = []\<rparr>"

definition send_text :: "json \<Rightarrow> peer \<Rightarrow> (unit + unit) \<times> peer" where
  "send_text v p = (if peer_open p then (Inr (), p\<lparr>peer_sent := peer_sent p @ [v]\<rparr>) else (Inl (), p))"

definition peer_request :: "nat \<Rightarrow> string \<Rightarrow> json \<Rightarrow> peer \<Rightarrow> (rpc_error + json) \<times> peer" where
  "peer_request id' mth params p = (case send_text (request_value id' mth params) p of
     (Inl _, p') \<Rightarrow> (Inl (rpc_error_new INTERNAL_ERROR ''send failed''), p')
   | (Inr _, p') \<Rightarrow> (Inr JNull, p'))"

definition peer_notify :: "string \<Rightarrow> json \<Rightarrow> peer \<Rightarrow> (unit + unit) \<times> peer" where
  "peer_notify mth params p = send_text (notification_value mth params) p"

definition peer_respond :: "nat \<Rightarrow> json option \<Rightarrow> rpc_error option \<Rightarrow> peer \<Rightarrow> (unit + unit) \<times> peer" where
  "peer_respond id' result err p = send_text (response_value id' result err) p"

section \<open>Reading one frame\<close>

datatype ws_message = Text string | Binary bytes | Ping | Pong | RawFrame | Close | WsFailed

datatype read_result = FrameRead json | CleanClose | ReadError

text \<open>The rest of the stream is returned with the frame.\<close>

fun read_frame :: "(string \<Rightarrow> json option) \<Rightarrow> ws_message list \<Rightarrow> read_result \<times> ws_message list" where
  "read_frame parse [] = (CleanClose, [])"
| "read_frame parse (m # ms) =
     (case m of
        Text t \<Rightarrow> (case parse t of None \<Rightarrow> (ReadError, ms) | Some v \<Rightarrow> (FrameRead v, ms))
      | Binary _ \<Rightarrow> (ReadError, ms)
      | Ping \<Rightarrow> read_frame parse ms
      | Pong \<Rightarrow> read_frame parse ms
      | RawFrame \<Rightarrow> read_frame parse ms
      | Close \<Rightarrow> (CleanClose, ms)
      | WsFailed \<Rightarrow> (ReadError, ms))"

lemma read_frame_shorter: "snd (read_frame parse ms) = ms \<Longrightarrow> ms = []"
proof -
  have "ms \<noteq> [] \<Longrightarrow> length (snd (read_frame parse ms)) < length ms"
  proof (induction ms)
    case (Cons m ms)
    then show ?case by (cases m; cases "ms = []") (auto split: option.splits)
  qed simp
  then show "snd (read_frame parse ms) = ms \<Longrightarrow> ms = []" by fastforce
qed

section \<open>The relay's address\<close>

definition relay_ws_url :: "string \<Rightarrow> string" where
  "relay_ws_url base =
     (let trimmed = trim_end_matches (CHR ''/'') base in
      if ends_with trimmed ''/ws'' then trimmed else trimmed @ ''/ws'')"

text \<open>The normalised address ends in exactly one \<open>/ws\<close> added at most once: normalising
  is idempotent, indifferent to trailing slashes, and keeps an address that already names
  the endpoint.\<close>

theorem relay_ws_url_normal:
  "ends_with (relay_ws_url base) ''/ws'' \<and> relay_ws_url (relay_ws_url base) = relay_ws_url base \<and>
   relay_ws_url (base @ ''/'') = relay_ws_url base \<and> relay_ws_url (base @ ''/ws'') = base @ ''/ws''"
proof -
  let ?u = "relay_ws_url base"
  have e: "ends_with ?u ''/ws''" by (simp add: relay_ws_url_def Let_def)
  then obtain t where t: "?u = t @ ''/ws''" by (auto simp: ends_with_iff)
  then have "trim_end_matches (CHR ''/'') ?u = ?u" by (intro trim_end_matches_id) simp
  with e have "relay_ws_url ?u = ?u" by (simp add: relay_ws_url_def [of ?u])
  moreover have "relay_ws_url (base @ ''/'') = ?u"
    by (simp add: relay_ws_url_def trim_end_matches_def)
  moreover have "relay_ws_url (base @ ''/ws'') = base @ ''/ws''"
    using trim_end_matches_id [of "base @ ''/ws''" "CHR ''/''"]
    by (simp add: relay_ws_url_def ends_with_iff)
  ultimately show ?thesis using e by simp
qed

end
