(* ===== verification/Client.thy ===== *)
theory Client
  imports Rpc
begin

text \<open>
  The bridge's RPC client (\<open>AgentClient\<close> of \<open>crates/bridge/src/client.rs\<close>): numbered calls
  waiting on one-shot slots, the read loop that resolves them, and the supervisor that
  installs and clears the connection. A call is three pieces that other tasks interleave
  with: registering the pending entry, sending under the sink's lock, and waiting. \<open>slot\<close> is
  what was sent into a call's one-shot channel.
\<close>

section \<open>State\<close>

type_synonym call_result = "rpc_error + json"

datatype call_phase = Inserted | Waiting | Returned call_result

record client =
  sink :: "nat option" \<comment> \<open>number of the installed connection\<close>
  reading :: bool \<comment> \<open>the read loop of that connection runs\<close>
  next_id :: nat
  pending :: "nat set"
  slot :: "nat \<rightharpoonup> call_result"
  calls :: "nat \<rightharpoonup> call_phase"
  agent_id :: "string option"
  connection_epoch :: nat

definition new_client :: client where
  "new_client = \<lparr>sink = None, reading = False, next_id = 1, pending = {}, slot = Map.empty,
     calls = Map.empty, agent_id = None, connection_epoch = 0\<rparr>"

definition offline_error :: "string \<Rightarrow> call_result" where
  "offline_error m = Inl (rpc_error_new AGENT_OFFLINE m)"

section \<open>Calls\<close>

definition start_call :: "client \<Rightarrow> nat \<times> client" where
  "start_call s = (let i = next_id s in
     (i, s\<lparr>next_id := u64_add i 1, pending := insert i (pending s), calls := (calls s)(i \<mapsto> Inserted)\<rparr>))"

text \<open>The frame goes out on the installed connection; \<open>ok\<close> is whether the socket took it.\<close>

definition send_call :: "bool \<Rightarrow> nat \<Rightarrow> client \<Rightarrow> client" where
  "send_call ok i s = (case sink s of
     None \<Rightarrow> s\<lparr>pending := pending s - {i},
       calls := (calls s)(i \<mapsto> Returned (offline_error ''relay connection offline (reconnecting)''))\<rparr>
   | Some _ \<Rightarrow>
       if ok then s\<lparr>calls := (calls s)(i \<mapsto> Waiting)\<rparr>
       else s\<lparr>pending := pending s - {i},
         calls := (calls s)(i \<mapsto> Returned (Inl (rpc_error_new INTERNAL_ERROR ''send failed'')))\<rparr>)"

definition finish_call :: "nat \<Rightarrow> client \<Rightarrow> client" where
  "finish_call i s = (case slot s i of
     None \<Rightarrow> s
   | Some r \<Rightarrow> s\<lparr>calls := (calls s)(i \<mapsto> Returned r)\<rparr>)"

text \<open>Only \<open>call_timeout\<close> has a deadline; \<open>call\<close> waits for its slot for ever.\<close>

definition expire_call :: "nat \<Rightarrow> client \<Rightarrow> client" where
  "expire_call i s = s\<lparr>pending := pending s - {i},
     calls := (calls s)(i \<mapsto> Returned (Inl (rpc_error_new CANCELLED ''request timed out'')))\<rparr>"

section \<open>The read loop\<close>

definition response_result :: "json \<Rightarrow> call_result" where
  "response_result v = (case get v ''error'' of
     Some e \<Rightarrow> Inl (case of_rpc_error e of
         Some err \<Rightarrow> err | None \<Rightarrow> rpc_error_new INTERNAL_ERROR ''malformed error response'')
   | None \<Rightarrow> Inr (case get v ''result'' of Some r \<Rightarrow> r | None \<Rightarrow> JNull))"

definition param_str :: "json \<Rightarrow> string \<Rightarrow> string option" where
  "param_str v k = Option.bind (get v ''params'') (\<lambda>p. Option.bind (get p k) as_str)"

definition next_agent :: "json \<Rightarrow> string option \<Rightarrow> string option" where
  "next_agent v current = (case Option.bind (get v ''method'') as_str of
     None \<Rightarrow> current
   | Some m \<Rightarrow>
       if m = ''agent_connected'' then
         (case param_str v ''agent_id'' of None \<Rightarrow> current | Some i \<Rightarrow> Some i)
       else if m = ''agent_disconnected'' then
         (case param_str v ''agent_id'' of
            None \<Rightarrow> None | Some gone \<Rightarrow> if current = Some gone then None else current)
       else current)"

definition note_agent :: "json \<Rightarrow> client \<Rightarrow> client" where
  "note_agent v s = s\<lparr>agent_id := next_agent v (agent_id s)\<rparr>"

definition receive_frame :: "json \<Rightarrow> client \<Rightarrow> client" where
  "receive_frame v s = (case Option.bind (get v ''id'') as_u64 of
     Some i \<Rightarrow>
       if i \<in> pending s
       then s\<lparr>pending := pending s - {i}, slot := (slot s)(i \<mapsto> response_result v)\<rparr> else s
   | None \<Rightarrow> note_agent v s)"

text \<open>The end of the read loop fails everything that is pending.\<close>

definition fail_pending :: "client \<Rightarrow> client" where
  "fail_pending s = s\<lparr>reading := False, pending := {},
     slot := (\<lambda>i. if i \<in> pending s then Some (offline_error ''connection to agent lost'') else slot s i)\<rparr>"

section \<open>The supervisor\<close>

text \<open>The handshake: frames before \<open>hello_ack\<close> are dropped.\<close>

fun await_ack :: "json list \<Rightarrow> (string option \<times> json list) option" where
  "await_ack [] = None"
| "await_ack (v # vs) =
     (if Option.bind (get v ''method'') as_str = Some ''hello_ack''
      then Some (param_str v ''agent_id'', vs) else await_ack vs)"

definition install_connection :: "string option \<Rightarrow> client \<Rightarrow> client" where
  "install_connection acked_agent s = (let e = connection_epoch s + 1 in
     s\<lparr>agent_id := acked_agent, connection_epoch := e, sink := Some e, reading := True\<rparr>)"

definition clear_connection :: "client \<Rightarrow> client" where
  "clear_connection s = s\<lparr>sink := None, connection_epoch := connection_epoch s + 1\<rparr>"

lemmas client_op_defs [client_defs] = start_call_def send_call_def finish_call_def expire_call_def
  receive_frame_def note_agent_def fail_pending_def install_connection_def clear_connection_def

inductive client_step :: "client \<Rightarrow> client \<Rightarrow> bool" where
  cl_start: "next_id s + 1 < 2 ^ 64 \<Longrightarrow> client_step s (snd (start_call s))"
| cl_send: "calls s i = Some Inserted \<Longrightarrow> client_step s (send_call ok i s)"
| cl_finish: "calls s i = Some Waiting \<Longrightarrow> slot s i \<noteq> None \<Longrightarrow> client_step s (finish_call i s)"
| cl_expire: "calls s i = Some Waiting \<Longrightarrow> slot s i = None \<Longrightarrow> client_step s (expire_call i s)"
| cl_receive: "reading s \<Longrightarrow> client_step s (receive_frame v s)"
| cl_read_end: "reading s \<Longrightarrow> client_step s (fail_pending s)"
| cl_install: "sink s = None \<Longrightarrow> client_step s (install_connection a s)"
| cl_clear: "sink s \<noteq> None \<Longrightarrow> \<not> reading s \<Longrightarrow> client_step s (clear_connection s)"

section \<open>The invariant\<close>

definition client_inv :: "client \<Rightarrow> bool" where
  "client_inv s \<longleftrightarrow>
     (\<forall>i. next_id s \<le> i \<longrightarrow> slot s i = None \<and> calls s i = None) \<and>
     (\<forall>i. i \<in> pending s \<longleftrightarrow>
        (calls s i = Some Inserted \<or> calls s i = Some Waiting) \<and> slot s i = None) \<and>
     (reading s \<longrightarrow> sink s \<noteq> None)"

lemma client_inv_new: "client_inv new_client"
  by (simp add: client_inv_def new_client_def)

lemma note_agent_simps [simp]:
  "pending (note_agent v s) = pending s" "slot (note_agent v s) = slot s"
  "calls (note_agent v s) = calls s" "next_id (note_agent v s) = next_id s"
  "sink (note_agent v s) = sink s" "reading (note_agent v s) = reading s"
  by (simp_all add: note_agent_def)

lemma client_step_keeps: "client_step s t \<Longrightarrow> client_inv s \<Longrightarrow> client_inv t"
proof (induction rule: client_step.induct)
  case (cl_start s)
  then show ?case by (auto simp: client_inv_def start_call_def Let_def)
next
  case (cl_send s i ok)
  then show ?case by (auto simp: client_inv_def send_call_def split: option.splits)
next
  case (cl_finish s i)
  then show ?case by (auto simp: client_inv_def finish_call_def split: option.splits)
next
  case (cl_expire s i)
  then show ?case by (auto simp: client_inv_def expire_call_def)
next
  case (cl_receive s v)
  then show ?case by (auto simp: client_inv_def receive_frame_def split: option.splits)
next
  case (cl_read_end s)
  then show ?case by (auto simp: client_inv_def fail_pending_def)
next
  case (cl_install s a)
  then show ?case by (auto simp: client_inv_def install_connection_def Let_def)
next
  case (cl_clear s)
  then show ?case by (auto simp: client_inv_def clear_connection_def)
qed

interpretation rpc_client: step_invariant client_step client_inv
  by unfold_locales (rule client_step_keeps)

lemma reachable_client_inv: "client_step\<^sup>*\<^sup>* new_client s \<Longrightarrow> client_inv s"
  by (rule rpc_client.steps_keep [OF _ client_inv_new])

text \<open>What a later state keeps of a call.\<close>

lemma client_step_stable:
  assumes "client_step s t" and "client_inv s"
  shows "slot s i = Some r \<longrightarrow> slot t i = Some r"
    and "calls s i = Some (Returned r) \<longrightarrow> calls t i = Some (Returned r)"
    and "next_id s \<le> next_id t"
proof -
  have "(slot s i = Some r \<longrightarrow> slot t i = Some r) \<and>
    (calls s i = Some (Returned r) \<longrightarrow> calls t i = Some (Returned r)) \<and> next_id s \<le> next_id t"
    using assms
  proof (induction rule: client_step.induct)
    case (cl_receive s v)
    then show ?case by (auto simp: client_inv_def receive_frame_def split: option.splits)
  qed (auto simp: start_call_def send_call_def finish_call_def expire_call_def fail_pending_def
      install_connection_def clear_connection_def client_inv_def Let_def split: option.splits)
  then show "slot s i = Some r \<longrightarrow> slot t i = Some r"
    and "calls s i = Some (Returned r) \<longrightarrow> calls t i = Some (Returned r)"
    and "next_id s \<le> next_id t" by blast+
qed

lemma client_steps_stable:
  assumes "client_step\<^sup>*\<^sup>* s t" and "client_inv s"
  shows "(slot s i = Some r \<longrightarrow> slot t i = Some r) \<and>
    (calls s i = Some (Returned r) \<longrightarrow> calls t i = Some (Returned r)) \<and> next_id s \<le> next_id t"
  using assms
proof (induction rule: rtranclp_induct)
  case (step t u)
  then have "client_inv t" using rpc_client.steps_keep by blast
  with step client_step_stable [OF step.hyps(2)] show ?case by (meson le_trans)
qed simp

end
