(* ===== verification/Relay.thy ===== *)
theory Relay
  imports Rpc Protocol_Results
begin

text \<open>
  The relay hub (\<open>crates/relay/src/lib.rs\<close>): the registered agents and bridges per token,
  the handshake, the routing of each frame, the clean-up, and the step relation of all
  connection tasks. Every function takes the maps' locks for one look or one update, so it
  is one atomic step; registration (with its announcement) and the acknowledgement are two
  steps because other tasks run between them. A connection's identity (\<open>Arc\<close>) is a number.
  \<open>accepts c\<close> says whether the socket of connection \<open>c\<close> takes a message now; a frame sent
  is a pair of connection and JSON value. \<open>keys\<close> is the iteration order of a hash map's
  keys; the clock and the random numbers are arguments.
\<close>

section \<open>State\<close>

record relay_peer =
  rp_conn :: nat
  rp_hello :: hello
  rp_session :: string

record app_state =
  agents :: "string \<rightharpoonup> relay_peer list"
  bridges :: "string \<rightharpoonup> relay_peer list"
  required_token :: "string option"

type_synonym outs = "(nat \<times> json) list"

definition new_app :: "string option \<Rightarrow> app_state" where
  "new_app required = \<lparr>agents = Map.empty, bridges = Map.empty, required_token = required\<rparr>"

section \<open>Sending\<close>

definition relay_send :: "(nat \<Rightarrow> bool) \<Rightarrow> relay_peer \<Rightarrow> json \<Rightarrow> outs" where
  "relay_send accepts p v = (if accepts (rp_conn p) then [(rp_conn p, v)] else [])"

definition relay_respond ::
  "(nat \<Rightarrow> bool) \<Rightarrow> relay_peer \<Rightarrow> nat \<Rightarrow> json option \<Rightarrow> rpc_error option \<Rightarrow> outs" where
  "relay_respond accepts p id' result err = relay_send accepts p (response_value id' result err)"

definition forward_to_bridges :: "(nat \<Rightarrow> bool) \<Rightarrow> app_state \<Rightarrow> string \<Rightarrow> json \<Rightarrow> outs" where
  "forward_to_bridges accepts st token v =
     concat (map (\<lambda>b. relay_send accepts b v) (get_vec (bridges st) token))"

definition or_else :: "'a option \<Rightarrow> 'a option \<Rightarrow> 'a option" where
  "or_else x y = (case x of None \<Rightarrow> y | Some _ \<Rightarrow> x)"

text \<open>\<open>target\<close> or \<open>session\<close>, in the frame or in its parameters.\<close>

definition hint :: "string \<Rightarrow> json \<Rightarrow> string option" where
  "hint k v = Option.bind
     (or_else (get v k) (Option.bind (get v ''params'') (\<lambda>p. get p k))) as_str"

definition named :: "string \<Rightarrow> relay_peer \<Rightarrow> bool" where
  "named target p \<longleftrightarrow> hello_id (rp_hello p) = target \<or> rp_session p = target"

definition forward_to_agent :: "(nat \<Rightarrow> bool) \<Rightarrow> app_state \<Rightarrow> string \<Rightarrow> json \<Rightarrow> outs" where
  "forward_to_agent accepts st token v =
     concat (map (\<lambda>a. case hint ''target'' v of
         None \<Rightarrow> relay_send accepts a v
       | Some target \<Rightarrow> if named target a then relay_send accepts a v else [])
       (get_vec (agents st) token))"

section \<open>Handshake and registration\<close>

definition accept_hello :: "string option \<Rightarrow> json \<Rightarrow> (hello \<times> string) option" where
  "accept_hello required v = (case of_hello v of
     None \<Rightarrow> None
   | Some h \<Rightarrow> (case hello_token h of
       None \<Rightarrow> None
     | Some t \<Rightarrow>
         if t = [] then None
         else case required of
           None \<Rightarrow> Some (h, t)
         | Some r \<Rightarrow> if t = r then Some (h, t) else None))"

definition all_agents :: "string list \<Rightarrow> app_state \<Rightarrow> relay_peer list" where
  "all_agents keys st = concat (map (get_vec (agents st)) keys)"

definition id_taken :: "string list \<Rightarrow> app_state \<Rightarrow> string \<Rightarrow> bool" where
  "id_taken keys st i = list_ex (\<lambda>p. hello_id (rp_hello p) = i) (all_agents keys st)"

definition unique_id :: "string list \<Rightarrow> nat \<Rightarrow> nat \<Rightarrow> app_state \<Rightarrow> string \<Rightarrow> string" where
  "unique_id keys timestamp r16 st i =
     (if id_taken keys st i then
        let suffixed = i @ ''-'' @ show_nat timestamp in
        if id_taken keys st suffixed then i @ ''-'' @ show_nat timestamp @ ''-'' @ hex_pad 4 r16
        else suffixed
      else i)"

definition agent_connected :: "relay_peer \<Rightarrow> json" where
  "agent_connected p = notification_value ''agent_connected''
     (JObj [(''agent_id'', JStr (hello_id (rp_hello p))), (''name'', JStr (hello_name (rp_hello p)))])"

definition register_agent ::
  "(nat \<Rightarrow> bool) \<Rightarrow> string list \<Rightarrow> nat \<Rightarrow> nat \<Rightarrow> nat \<Rightarrow> app_state \<Rightarrow> string \<Rightarrow> hello \<Rightarrow> nat \<Rightarrow>
   app_state \<times> relay_peer \<times> outs" where
  "register_agent accepts keys timestamp r16 r32 st token h conn =
     (let i = unique_id keys timestamp r16 st (hello_id h);
          p = \<lparr>rp_conn = conn, rp_hello = h\<lparr>hello_id := i\<rparr>, rp_session = i @ ''-'' @ show_nat r32\<rparr>;
          st' = st\<lparr>agents := (agents st)(token \<mapsto> get_vec (agents st) token @ [p])\<rparr>
      in (st', p, forward_to_bridges accepts st' token (agent_connected p)))"

definition register_bridge :: "nat \<Rightarrow> app_state \<Rightarrow> string \<Rightarrow> hello \<Rightarrow> nat \<Rightarrow> app_state \<times> relay_peer" where
  "register_bridge r32 st token h conn =
     (let p = \<lparr>rp_conn = conn, rp_hello = h, rp_session = hello_id h @ ''-'' @ show_nat r32\<rparr>
      in (st\<lparr>bridges := (bridges st)(token \<mapsto> get_vec (bridges st) token @ [p])\<rparr>, p))"

definition register ::
  "(nat \<Rightarrow> bool) \<Rightarrow> string list \<Rightarrow> nat \<Rightarrow> nat \<Rightarrow> nat \<Rightarrow> app_state \<Rightarrow> string \<Rightarrow> hello \<Rightarrow> nat \<Rightarrow>
   app_state \<times> relay_peer \<times> outs" where
  "register accepts keys timestamp r16 r32 st token h conn =
     (case hello_kind h of
        Agent \<Rightarrow> register_agent accepts keys timestamp r16 r32 st token h conn
      | Bridge \<Rightarrow> (case register_bridge r32 st token h conn of (st', p) \<Rightarrow> (st', p, [])))"

definition acknowledge :: "(nat \<Rightarrow> bool) \<Rightarrow> app_state \<Rightarrow> string \<Rightarrow> relay_peer \<Rightarrow> outs" where
  "acknowledge accepts st token p =
     (let agent_id =
        (if hello_kind (rp_hello p) = Bridge then
           (case get_vec (agents st) token of [] \<Rightarrow> None | l \<Rightarrow> Some (hello_id (rp_hello (last l))))
         else Some (hello_id (rp_hello p)))
      in relay_send accepts p (notification_value ''hello_ack''
           (hello_ack_json \<lparr>ack_session = rp_session p, ack_agent_id = agent_id\<rparr>)))"

section \<open>Routing one frame\<close>

definition pick_agent :: "json \<Rightarrow> relay_peer list \<Rightarrow> relay_peer option" where
  "pick_agent v l = (case hint ''target'' v of
     Some target \<Rightarrow> find (named target) l
   | None \<Rightarrow> (case hint ''session'' v of
       Some session \<Rightarrow> find (\<lambda>p. rp_session p = session) l
     | None \<Rightarrow> if l = [] then None else Some (last l)))"

definition frame_id :: "json \<Rightarrow> nat" where
  "frame_id v = (case Option.bind (get v ''id'') as_u64 of None \<Rightarrow> 0 | Some n \<Rightarrow> n)"

definition target_of :: "relay_peer \<Rightarrow> target_info" where
  "target_of p = \<lparr>ti_id = hello_id (rp_hello p), ti_name = hello_name (rp_hello p), ti_session = rp_session p\<rparr>"

definition list_targets :: "string list \<Rightarrow> app_state \<Rightarrow> json" where
  "list_targets keys st = list_targets_result_json \<lparr>ltr_targets = map target_of (all_agents keys st)\<rparr>"

definition route_request ::
  "(nat \<Rightarrow> bool) \<Rightarrow> app_state \<Rightarrow> relay_peer \<Rightarrow> string \<Rightarrow> json \<Rightarrow> outs" where
  "route_request accepts st p token v = (case pick_agent v (get_vec (agents st) token) of
     Some a \<Rightarrow>
       if accepts (rp_conn a) then relay_send accepts a v
       else relay_respond accepts p (frame_id v) None
         (Some (rpc_error_new INTERNAL_ERROR ''agent forward failed''))
   | None \<Rightarrow> relay_respond accepts p (frame_id v) None
       (Some (rpc_error_new AGENT_OFFLINE ''agent is not connected'')))"

definition handle_frame ::
  "(nat \<Rightarrow> bool) \<Rightarrow> string list \<Rightarrow> app_state \<Rightarrow> relay_peer \<Rightarrow> string \<Rightarrow> json \<Rightarrow> outs" where
  "handle_frame accepts keys st p token v =
     (case hello_kind (rp_hello p) of
        Agent \<Rightarrow>
          if is_response v \<or> is_notification v then forward_to_bridges accepts st token v else []
      | Bridge \<Rightarrow>
          if is_response v then []
          else if is_notification v then forward_to_agent accepts st token v
          else if Option.bind (get v ''method'') as_str = Some (method_name LIST_TARGETS) then
            relay_respond accepts p (frame_id v) (Some (list_targets keys st)) None
          else route_request accepts st p token v)"

section \<open>Clean-up\<close>

definition agent_gone :: "string \<Rightarrow> json" where
  "agent_gone agent_id =
     notification_value ''agent_disconnected'' (JObj [(''agent_id'', JStr agent_id)])"

definition without :: "relay_peer \<Rightarrow> relay_peer list \<Rightarrow> relay_peer list" where
  "without p l = filter (\<lambda>x. rp_conn x \<noteq> rp_conn p) l"

definition cleanup :: "(nat \<Rightarrow> bool) \<Rightarrow> app_state \<Rightarrow> relay_peer \<Rightarrow> string \<Rightarrow> app_state \<times> outs" where
  "cleanup accepts st p token =
     (case hello_kind (rp_hello p) of
        Agent \<Rightarrow>
          (case agents st token of
             None \<Rightarrow> (st, [])
           | Some l \<Rightarrow>
               let l' = without p l;
                   st' = st\<lparr>agents := (agents st)(token := if l' = [] then None else Some l')\<rparr>
               in (st', if length l' < length l
                        then forward_to_bridges accepts st' token (agent_gone (hello_id (rp_hello p)))
                        else []))
      | Bridge \<Rightarrow>
          (case bridges st token of
             None \<Rightarrow> (st, [])
           | Some l \<Rightarrow> (st\<lparr>bridges := (bridges st)(token \<mapsto> without p l)\<rparr>, [])))"

lemmas relay_op_defs [relay_defs] = register_def register_agent_def register_bridge_def
  acknowledge_def handle_frame_def route_request_def cleanup_def

section \<open>The connection tasks\<close>

record hub =
  app :: app_state
  live :: "nat \<rightharpoonup> relay_peer \<times> string \<times> bool" \<comment> \<open>peer, its token, whether it was acknowledged\<close>

definition new_hub :: "string option \<Rightarrow> hub" where
  "new_hub required = \<lparr>app = new_app required, live = Map.empty\<rparr>"

inductive hub_step :: "hub \<Rightarrow> outs \<Rightarrow> hub \<Rightarrow> bool" where
  hub_register: "c \<notin> dom (live s) \<Longrightarrow> accept_hello (required_token (app s)) v = Some (h, token) \<Longrightarrow>
     set keys = dom (agents (app s)) \<Longrightarrow>
     register accepts keys timestamp r16 r32 (app s) token h c = (st', p, out) \<Longrightarrow>
     hub_step s out (s\<lparr>app := st', live := (live s)(c \<mapsto> (p, token, False))\<rparr>)"
| hub_ack: "live s c = Some (p, token, False) \<Longrightarrow>
     hub_step s (acknowledge accepts (app s) token p) (s\<lparr>live := (live s)(c \<mapsto> (p, token, True))\<rparr>)"
| hub_frame: "live s c = Some (p, token, True) \<Longrightarrow> set keys = dom (agents (app s)) \<Longrightarrow>
     hub_step s (handle_frame accepts keys (app s) p token v) s"
| hub_close: "live s c = Some (p, token, True) \<Longrightarrow> cleanup accepts (app s) p token = (st', out) \<Longrightarrow>
     hub_step s out (s\<lparr>app := st', live := (live s)(c := None)\<rparr>)"

definition hub_moves :: "hub \<Rightarrow> hub \<Rightarrow> bool" where
  "hub_moves s t \<longleftrightarrow> (\<exists>out. hub_step s out t)"

end
