(* ===== verification/Relay_Props.thy ===== *)
theory Relay_Props
  imports Relay
begin

text \<open>
  The relay's invariant (the registries hold exactly the live connections, each under the
  token it presented), its preservation by every step, and the relay's properties.
\<close>

section \<open>What each operation does to the registries\<close>

definition registry :: "peer_kind \<Rightarrow> app_state \<Rightarrow> string \<rightharpoonup> relay_peer list" where
  "registry k st = (case k of Agent \<Rightarrow> agents st | Bridge \<Rightarrow> bridges st)"

definition peer_kind_of :: "relay_peer \<Rightarrow> peer_kind" where
  "peer_kind_of p = hello_kind (rp_hello p)"

lemma registry_simps [simp]:
  "registry Agent st = agents st" "registry Bridge st = bridges st"
  by (simp_all add: registry_def)

lemma register_effect:
  assumes "register accepts keys timestamp r16 r32 st token h c = (st', p, out)"
  shows "rp_conn p = c" and "peer_kind_of p = hello_kind h"
    and "hello_token (rp_hello p) = hello_token h" and "required_token st' = required_token st"
    and "get_vec (registry k st') t = (if k = hello_kind h \<and> t = token
      then get_vec (registry k st) t @ [p] else get_vec (registry k st) t)"
    and "agents st' t = Some [] \<Longrightarrow> agents st t = Some []"
  using assms
  by (cases k; cases "hello_kind h"; auto simp: relay_defs peer_kind_of_def Let_def split: if_splits)+

lemma cleanup_effect:
  assumes "cleanup accepts st p token = (st', out)"
  shows "required_token st' = required_token st"
    and "get_vec (registry k st') t = (if k = peer_kind_of p \<and> t = token
      then without p (get_vec (registry k st) t) else get_vec (registry k st) t)"
    and "agents st' t = Some [] \<Longrightarrow> agents st t = Some []"
  using assms
  by (cases k; cases "hello_kind (rp_hello p)";
      auto simp: cleanup_def peer_kind_of_def Let_def get_vec_def without_def split: if_splits option.splits)+

lemma accept_hello_iff:
  "accept_hello required v = Some (h, token) \<longleftrightarrow>
     of_hello v = Some h \<and> hello_token h = Some token \<and> token \<noteq> [] \<and>
     (required = None \<or> required = Some token)"
  by (auto simp: accept_hello_def split: option.splits if_splits)

section \<open>The invariant\<close>

definition hub_inv :: "hub \<Rightarrow> bool" where
  "hub_inv s \<longleftrightarrow>
     (\<forall>k token. distinct (map rp_conn (get_vec (registry k (app s)) token))) \<and>
     (\<forall>k token p. p \<in> set (get_vec (registry k (app s)) token) \<longleftrightarrow>
        peer_kind_of p = k \<and> (\<exists>a. live s (rp_conn p) = Some (p, token, a))) \<and>
     (\<forall>c p token a. live s c = Some (p, token, a) \<longrightarrow>
        rp_conn p = c \<and> token \<noteq> [] \<and> hello_token (rp_hello p) = Some token \<and>
        (required_token (app s) = None \<or> required_token (app s) = Some token)) \<and>
     (\<forall>token. agents (app s) token \<noteq> Some [])"

lemma hub_invD:
  assumes "hub_inv s"
  shows "distinct (map rp_conn (get_vec (registry k (app s)) token))"
    and "p \<in> set (get_vec (registry k (app s)) token) \<longleftrightarrow>
        peer_kind_of p = k \<and> (\<exists>a. live s (rp_conn p) = Some (p, token, a))"
    and "live s c = Some (p, token, a) \<Longrightarrow> rp_conn p = c \<and> token \<noteq> [] \<and>
        hello_token (rp_hello p) = Some token \<and>
        (required_token (app s) = None \<or> required_token (app s) = Some token)"
    and "agents (app s) token \<noteq> Some []"
  using assms unfolding hub_inv_def by blast+

lemma hub_inv_new: "hub_inv (new_hub required)"
  by (simp add: hub_inv_def new_hub_def new_app_def registry_def split: peer_kind.split)

lemma hub_register_keeps:
  assumes inv: "hub_inv s" and c: "live s c = None"
    and h: "accept_hello (required_token (app s)) v = Some (h, token)"
    and r: "register accepts keys timestamp r16 r32 (app s) token h c = (st', p, out)"
  shows "hub_inv (s\<lparr>app := st', live := (live s)(c \<mapsto> (p, token, False))\<rparr>)"
proof -
  note e = register_effect [OF r] and i = hub_invD [OF inv]
  note acc = h [unfolded accept_hello_iff]
  have fresh: "rp_conn q \<noteq> c" if "q \<in> set (get_vec (registry k (app s)) t)" for q k t
    using i(2) [of q k t] that c by auto
  then have conn_new: "c \<notin> rp_conn ` set (get_vec (registry k (app s)) t)" for k t by blast
  show ?thesis
    unfolding hub_inv_def
  proof (intro conjI allI)
    fix k t
    show "distinct (map rp_conn (get_vec (registry k (app (s\<lparr>app := st', live := (live s)(c \<mapsto> (p, token, False))\<rparr>))) t))"
      using i(1) [of k t] e(1) conn_new [of k t] by (auto simp: e(5))
  next
    fix k t q
    show "q \<in> set (get_vec (registry k (app (s\<lparr>app := st', live := (live s)(c \<mapsto> (p, token, False))\<rparr>))) t) \<longleftrightarrow>
        peer_kind_of q = k \<and> (\<exists>a. live (s\<lparr>app := st', live := (live s)(c \<mapsto> (p, token, False))\<rparr>) (rp_conn q) = Some (q, t, a))"
      using i(2) [of q k t] e(1,2) fresh [of q k t] c by (auto simp: e(5))
  next
    fix c' q t a
    show "live (s\<lparr>app := st', live := (live s)(c \<mapsto> (p, token, False))\<rparr>) c' = Some (q, t, a) \<longrightarrow>
        rp_conn q = c' \<and> t \<noteq> [] \<and> hello_token (rp_hello q) = Some t \<and>
        (required_token (app (s\<lparr>app := st', live := (live s)(c \<mapsto> (p, token, False))\<rparr>)) = None \<or>
         required_token (app (s\<lparr>app := st', live := (live s)(c \<mapsto> (p, token, False))\<rparr>)) = Some t)"
      using i(3) [of c' q t a] e(1,3,4) acc by auto
  next
    fix t
    show "agents (app (s\<lparr>app := st', live := (live s)(c \<mapsto> (p, token, False))\<rparr>)) t \<noteq> Some []"
      using i(4) [of t] e(6) [of t] by auto
  qed
qed

lemma hub_close_keeps:
  assumes inv: "hub_inv s" and l: "live s c = Some (p, token, a)"
    and r: "cleanup accepts (app s) p token = (st', out)"
  shows "hub_inv (s\<lparr>app := st', live := (live s)(c := None)\<rparr>)"
proof -
  note e = cleanup_effect [OF r] and i = hub_invD [OF inv]
  have pc: "rp_conn p = c" using i(3) [OF l] by simp
  show ?thesis
    unfolding hub_inv_def
  proof (intro conjI allI)
    fix k t
    show "distinct (map rp_conn (get_vec (registry k (app (s\<lparr>app := st', live := (live s)(c := None)\<rparr>))) t))"
      using i(1) [of k t] distinct_map_filter [OF i(1) [of k t]] by (auto simp: e(2) without_def)
  next
    fix k t q
    show "q \<in> set (get_vec (registry k (app (s\<lparr>app := st', live := (live s)(c := None)\<rparr>))) t) \<longleftrightarrow>
        peer_kind_of q = k \<and> (\<exists>a. live (s\<lparr>app := st', live := (live s)(c := None)\<rparr>) (rp_conn q) = Some (q, t, a))"
      using i(2) [of q k t] pc l by (auto simp: e(2) without_def)
  next
    fix c' q t a
    show "live (s\<lparr>app := st', live := (live s)(c := None)\<rparr>) c' = Some (q, t, a) \<longrightarrow>
        rp_conn q = c' \<and> t \<noteq> [] \<and> hello_token (rp_hello q) = Some t \<and>
        (required_token (app (s\<lparr>app := st', live := (live s)(c := None)\<rparr>)) = None \<or>
         required_token (app (s\<lparr>app := st', live := (live s)(c := None)\<rparr>)) = Some t)"
      using i(3) [of c' q t a] e(1) by auto
  next
    fix t
    show "agents (app (s\<lparr>app := st', live := (live s)(c := None)\<rparr>)) t \<noteq> Some []"
      using i(4) [of t] e(3) [of t] by auto
  qed
qed

lemma hub_ack_keeps:
  assumes inv: "hub_inv s" and l: "live s c = Some (p, token, False)"
  shows "hub_inv (s\<lparr>live := (live s)(c \<mapsto> (p, token, True))\<rparr>)"
proof -
  note i = hub_invD [OF inv]
  have "(\<exists>a. ((live s)(c \<mapsto> (p, token, True))) (rp_conn q) = Some (q, t, a)) \<longleftrightarrow>
      (\<exists>a. live s (rp_conn q) = Some (q, t, a))" for q t
    using l by auto
  moreover have "((live s)(c \<mapsto> (p, token, True))) c' = Some (q, t, a) \<Longrightarrow>
      \<exists>a. live s c' = Some (q, t, a)" for c' q t a
    using l by (auto split: if_splits)
  ultimately show ?thesis using i unfolding hub_inv_def by (simp del: fun_upd_apply) blast
qed

lemma hub_step_keeps: "hub_step s out t \<Longrightarrow> hub_inv s \<Longrightarrow> hub_inv t"
proof (induction rule: hub_step.induct)
  case (hub_register c s v h token keys accepts timestamp r16 r32 st' p out)
  then show ?case by (intro hub_register_keeps) auto
next
  case (hub_close s c p token accepts st' out)
  then show ?case by (intro hub_close_keeps)
qed (simp_all add: hub_ack_keeps)

interpretation relay_hub: step_invariant hub_moves hub_inv
  by unfold_locales (auto simp: hub_moves_def intro: hub_step_keeps)

lemma reachable_hub_inv: "hub_moves\<^sup>*\<^sup>* (new_hub required) s \<Longrightarrow> hub_inv s"
  by (rule relay_hub.steps_keep [OF _ hub_inv_new])

section \<open>Samples\<close>

definition sample_hello :: "peer_kind \<Rightarrow> string \<Rightarrow> string \<Rightarrow> hello" where
  "sample_hello k i t = \<lparr>hello_kind = k, hello_id = i, hello_name = ''n'', hello_token = Some t\<rparr>"

definition sample_hub :: hub where
  "sample_hub =
     (let (s1, a, _) = register (\<lambda>_. True) [] 0 0 7 (new_app None) ''t'' (sample_hello Agent ''pc'' ''t'') 0;
          (s2, b, _) = register (\<lambda>_. True) [''t''] 0 0 8 s1 ''t'' (sample_hello Bridge ''br'' ''t'') 1;
          (s3, x, _) = register (\<lambda>_. True) [''t''] 0 0 9 s2 ''u'' (sample_hello Agent ''srv'' ''u'') 2
      in \<lparr>app = s3, live = [0 \<mapsto> (a, ''t'', False), 1 \<mapsto> (b, ''t'', True), 2 \<mapsto> (x, ''u'', False)]\<rparr>)"

definition sample_agent :: relay_peer where
  "sample_agent = \<lparr>rp_conn = 0, rp_hello = sample_hello Agent ''pc'' ''t'', rp_session = ''pc-7''\<rparr>"

definition sample_bridge :: relay_peer where
  "sample_bridge = \<lparr>rp_conn = 1, rp_hello = sample_hello Bridge ''br'' ''t'', rp_session = ''br-8''\<rparr>"

lemma digit_strings:
  "show_nat 7 = ''7''" "show_nat 8 = ''8''" "show_nat 9 = ''9''"
  by code_simp+

lemma sample_hub_app:
  "agents (app sample_hub) = [''t'' \<mapsto> [sample_agent],
     ''u'' \<mapsto> [\<lparr>rp_conn = 2, rp_hello = sample_hello Agent ''srv'' ''u'', rp_session = ''srv-9''\<rparr>]]"
  "bridges (app sample_hub) = [''t'' \<mapsto> [sample_bridge]]" "required_token (app sample_hub) = None"
  "live sample_hub 0 = Some (sample_agent, ''t'', False)"
  "live sample_hub 1 = Some (sample_bridge, ''t'', True)"
  by (simp_all add: sample_hub_def sample_hello_def sample_agent_def sample_bridge_def relay_defs
      new_app_def unique_id_def id_taken_def all_agents_def digit_strings Let_def fun_upd_twist)

lemma register_moves:
  assumes "hello_token h = Some t" and "t \<noteq> []" and "required_token (app s) = None"
    and "live s c = None" and "set keys = dom (agents (app s))"
    and "register (\<lambda>_. True) keys ts r16 r32 (app s) t h c = (st', p, out)"
  shows "hub_moves s (s\<lparr>app := st', live := (live s)(c \<mapsto> (p, t, False))\<rparr>)"
  unfolding hub_moves_def
proof (rule exI, rule hub_register [OF _ _ assms(5,6)])
  show "accept_hello (required_token (app s)) (hello_json h) = Some (h, t)"
    using assms by (simp add: accept_hello_iff hello_roundtrip)
qed (use assms in auto)

lemma sample_hub_reachable: "hub_moves\<^sup>*\<^sup>* (new_hub None) sample_hub"
proof -
  let ?a = "sample_hello Agent ''pc'' ''t''" and ?b = "sample_hello Bridge ''br'' ''t''"
    and ?x = "sample_hello Agent ''srv'' ''u''"
  obtain s1 a o1 where 1: "register (\<lambda>_. True) [] 0 0 7 (new_app None) ''t'' ?a 0 = (s1, a, o1)"
    by (metis prod_cases3)
  obtain s2 b o2 where 2: "register (\<lambda>_. True) [''t''] 0 0 8 s1 ''t'' ?b 1 = (s2, b, o2)"
    by (metis prod_cases3)
  obtain s3 x o3 where 3: "register (\<lambda>_. True) [''t''] 0 0 9 s2 ''u'' ?x 2 = (s3, x, o3)"
    by (metis prod_cases3)
  have s1: "agents s1 = [''t'' \<mapsto> [a]]" "required_token s1 = None"
    using 1 by (auto simp: relay_defs sample_hello_def new_app_def Let_def)
  have s2: "agents s2 = [''t'' \<mapsto> [a]]" "required_token s2 = None"
    using 2 s1 by (auto simp: relay_defs sample_hello_def Let_def)
  define h1 where "h1 = (new_hub None)\<lparr>app := s1, live := (live (new_hub None))(0 \<mapsto> (a, ''t'', False))\<rparr>"
  define h2 where "h2 = h1\<lparr>app := s2, live := (live h1)(1 \<mapsto> (b, ''t'', False))\<rparr>"
  define h3 where "h3 = h2\<lparr>live := (live h2)(1 \<mapsto> (b, ''t'', True))\<rparr>"
  have m1: "hub_moves (new_hub None) h1" unfolding h1_def
    by (rule register_moves) (use 1 in \<open>auto simp: new_hub_def new_app_def sample_hello_def\<close>)
  have m2: "hub_moves h1 h2" unfolding h2_def
    by (rule register_moves) (use 2 s1 in \<open>auto simp: h1_def new_hub_def sample_hello_def\<close>)
  have m3: "hub_moves h2 h3" unfolding hub_moves_def h3_def
    by (rule exI, rule hub_ack) (simp add: h2_def)
  have m4: "hub_moves h3 (h3\<lparr>app := s3, live := (live h3)(2 \<mapsto> (x, ''u'', False))\<rparr>)"
    by (rule register_moves)
      (use 3 s2 in \<open>auto simp: h3_def h2_def h1_def new_hub_def sample_hello_def\<close>)
  have "h3\<lparr>app := s3, live := (live h3)(2 \<mapsto> (x, ''u'', False))\<rparr> = sample_hub"
    using 1 2 3 by (auto simp: sample_hub_def h3_def h2_def h1_def new_hub_def fun_upd_twist)
  with m1 m2 m3 m4 show ?thesis by (metis (no_types) rtranclp.simps)
qed

section \<open>Properties\<close>

text \<open>C13: in every reachable state the relay's registries are exactly the live connections: a
  peer is registered, once, under the token it presented and its own kind, from its hello to
  its close; every presented token is non-empty and is the required one when one is set.\<close>

theorem registry_is_live_connections:
  assumes "hub_moves\<^sup>*\<^sup>* (new_hub required) s"
  shows "(p \<in> set (get_vec (registry k (app s)) token) \<longleftrightarrow>
      peer_kind_of p = k \<and> (\<exists>acked. live s (rp_conn p) = Some (p, token, acked))) \<and>
    distinct (map rp_conn (get_vec (registry k (app s)) token)) \<and>
    (live s c = Some (p, token, acked) \<longrightarrow> hello_token (rp_hello p) = Some token \<and> token \<noteq> [] \<and>
       (required_token (app s) = None \<or> required_token (app s) = Some token))"
  using hub_invD [OF reachable_hub_inv [OF assms]] by blast

theorem registry_is_live_connections_witness:
  "sample_agent \<in> set (get_vec (registry Agent (app sample_hub)) ''t'')"
proof -
  have "peer_kind_of sample_agent = Agent" "rp_conn sample_agent = 0"
    by (simp_all add: sample_agent_def peer_kind_of_def sample_hello_def)
  moreover have "\<exists>a. live sample_hub 0 = Some (sample_agent, ''t'', a)" using sample_hub_app(4) by blast
  ultimately show ?thesis
    using registry_is_live_connections [OF sample_hub_reachable, of sample_agent Agent "''t''" 0 False]
    by metis
qed

lemma mem_relay_send: "x \<in> set (relay_send accepts p v) \<longleftrightarrow> accepts (rp_conn p) \<and> x = (rp_conn p, v)"
  by (auto simp: relay_send_def)

lemma mem_forward_to_bridges:
  "x \<in> set (forward_to_bridges accepts st token v) \<longleftrightarrow>
     (\<exists>b \<in> set (get_vec (bridges st) token). accepts (rp_conn b) \<and> x = (rp_conn b, v))"
  by (auto simp: forward_to_bridges_def mem_relay_send)

lemma mem_forward_to_agent:
  "x \<in> set (forward_to_agent accepts st token v) \<Longrightarrow>
     \<exists>a \<in> set (get_vec (agents st) token). accepts (rp_conn a) \<and> x = (rp_conn a, v)"
  by (auto simp: forward_to_agent_def mem_relay_send split: option.splits if_splits)

lemma pick_agent_mem: "pick_agent v l = Some a \<Longrightarrow> a \<in> set l"
  by (auto simp: pick_agent_def find_Some_iff split: option.splits if_splits)

lemma handle_frame_dest:
  assumes "(d, w) \<in> set (handle_frame accepts keys st p token v)"
  shows "d = rp_conn p \<and> is_response w \<or>
    w = v \<and> (\<exists>q \<in> set (get_vec (registry (case peer_kind_of p of Agent \<Rightarrow> Bridge | Bridge \<Rightarrow> Agent) st) token).
      rp_conn q = d)"
  using assms
  by (auto simp: handle_frame_def route_request_def relay_respond_def mem_relay_send peer_kind_of_def
      mem_forward_to_bridges dest!: mem_forward_to_agent pick_agent_mem
      split: peer_kind.splits if_splits option.splits)

text \<open>C12: token isolation. Whatever frame a connection sends, the relay passes it on
  unchanged, only to live peers of the other kind that presented the same token; the only
  frames it makes itself are responses to the sender.\<close>

theorem frames_stay_within_token:
  assumes "hub_moves\<^sup>*\<^sup>* (new_hub required) s" and "live s c = Some (p, token, True)"
    and "(d, w) \<in> set (handle_frame accepts keys (app s) p token v)"
  shows "d = c \<and> is_response w \<or>
    w = v \<and> (\<exists>q acked. live s d = Some (q, token, acked) \<and> peer_kind_of q \<noteq> peer_kind_of p)"
proof -
  note i = hub_invD [OF reachable_hub_inv [OF assms(1)]]
  have "rp_conn p = c" using i(3) [OF assms(2)] by simp
  with handle_frame_dest [OF assms(3)] consider "d = c" "is_response w"
    | q where "w = v" "rp_conn q = d"
      "q \<in> set (get_vec (registry (case peer_kind_of p of Agent \<Rightarrow> Bridge | Bridge \<Rightarrow> Agent) (app s)) token)"
    by blast
  then show ?thesis
  proof cases
    case 2
    from 2(3) [unfolded i(2)] have "peer_kind_of q \<noteq> peer_kind_of p"
      and "\<exists>a. live s (rp_conn q) = Some (q, token, a)"
      by (cases "peer_kind_of p"; simp)+
    with 2 show ?thesis by blast
  qed blast
qed

theorem frames_stay_within_token_witness:
  "(0, request_value 1 ''ping'' JNull) \<in>
     set (handle_frame (\<lambda>_. True) [''t'', ''u''] (app sample_hub) sample_bridge ''t'' (request_value 1 ''ping'' JNull)) \<and>
   (\<exists>q acked. live sample_hub 0 = Some (q, ''t'', acked))"
proof -
  have m: "(0, request_value 1 ''ping'' JNull) \<in> set (handle_frame (\<lambda>_. True) [''t'', ''u'']
      (app sample_hub) sample_bridge ''t'' (request_value 1 ''ping'' JNull))"
    by (simp add: handle_frame_def sample_bridge_def sample_hello_def sample_hub_app route_request_def
        pick_agent_def hint_def or_else_def relay_send_def sample_agent_def get_vec_def)
  from frames_stay_within_token [OF sample_hub_reachable sample_hub_app(5) m] m show ?thesis by auto
qed

text \<open>C14: a request from a bridge is never dropped by the relay. It goes, unchanged, to exactly
  one agent of the bridge's token (the one named by \<open>target\<close> as id or session, else by
  \<open>session\<close>, else the one registered last); if there is none the bridge gets \<open>AGENT_OFFLINE\<close>
  under the request's id, and if that agent's socket refuses it, \<open>INTERNAL_ERROR\<close>.\<close>

theorem bridge_request_forwarded_or_answered:
  assumes "peer_kind_of p = Bridge" and "\<not> is_response v" and "\<not> is_notification v"
    and "Option.bind (get v ''method'') as_str \<noteq> Some ''list_targets''" and "accepts (rp_conn p)"
  shows "(\<exists>a \<in> set (get_vec (agents st) token). accepts (rp_conn a) \<and>
      (\<forall>t. hint ''target'' v = Some t \<longrightarrow> named t a) \<and>
      (\<forall>t. hint ''target'' v = None \<and> hint ''session'' v = Some t \<longrightarrow> rp_session a = t) \<and>
      (hint ''target'' v = None \<and> hint ''session'' v = None \<longrightarrow> a = last (get_vec (agents st) token)) \<and>
      handle_frame accepts keys st p token v = [(rp_conn a, v)]) \<or>
    (\<exists>e. handle_frame accepts keys st p token v = [(rp_conn p, response_value (frame_id v) None (Some e))] \<and>
      (err_code e = word_of_int (code_value INTERNAL_ERROR) \<or>
       err_code e = word_of_int (code_value AGENT_OFFLINE) \<and> pick_agent v (get_vec (agents st) token) = None))"
proof -
  have h: "handle_frame accepts keys st p token v = route_request accepts st p token v"
    using assms by (simp add: handle_frame_def peer_kind_of_def)
  show ?thesis
  proof (cases "pick_agent v (get_vec (agents st) token)")
    case None
    then have "handle_frame accepts keys st p token v = [(rp_conn p, response_value (frame_id v) None
        (Some (rpc_error_new AGENT_OFFLINE ''agent is not connected'')))]"
      using assms(5) by (simp add: h route_request_def relay_respond_def relay_send_def)
    moreover have "err_code (rpc_error_new AGENT_OFFLINE m) = word_of_int (code_value AGENT_OFFLINE)" for m
      by (simp add: rpc_error_new_def)
    ultimately show ?thesis using None by blast
  next
    case (Some a)
    have "(\<forall>t. hint ''target'' v = Some t \<longrightarrow> named t a) \<and>
      (\<forall>t. hint ''target'' v = None \<and> hint ''session'' v = Some t \<longrightarrow> rp_session a = t) \<and>
      (hint ''target'' v = None \<and> hint ''session'' v = None \<longrightarrow> a = last (get_vec (agents st) token))"
      using Some by (auto simp: pick_agent_def find_Some_iff split: option.splits if_splits)
    with pick_agent_mem [OF Some] Some assms(5) show ?thesis
      by (cases "accepts (rp_conn a)")
        (auto simp: h route_request_def relay_respond_def relay_send_def rpc_error_new_def)
  qed
qed

theorem bridge_request_forwarded_or_answered_witness:
  "\<exists>e. handle_frame (\<lambda>_. True) [] (new_app None) sample_bridge ''t'' (request_value 5 ''ping'' JNull) =
     [(1, response_value (frame_id (request_value 5 ''ping'' JNull)) None (Some e))]"
proof -
  have p: "peer_kind_of sample_bridge = Bridge" "rp_conn sample_bridge = 1"
    by (simp_all add: sample_bridge_def peer_kind_of_def sample_hello_def)
  have m: "Option.bind (get (request_value 5 ''ping'' JNull) ''method'') as_str \<noteq> Some ''list_targets''"
    by simp
  have "get_vec (agents (new_app None)) ''t'' = []" by (simp add: new_app_def)
  with bridge_request_forwarded_or_answered [of sample_bridge "request_value 5 ''ping'' JNull" "\<lambda>_. True"
      "new_app None" "''t''" "[]", OF p(1) frame_kinds(5) frame_kinds(6) m] p(2)
  show ?thesis by auto
qed

text \<open>An agent's response is broadcast. It reaches every registered bridge of the token
  whose socket accepts it, whichever bridge had asked: responses carry no addressee, so a
  bridge receives the responses to the requests of every other bridge of its token.\<close>

theorem responses_reach_every_bridge:
  assumes "peer_kind_of p = Agent" and "is_response v"
  shows "set (handle_frame accepts keys st p token v) =
      {(rp_conn b, v) | b. b \<in> set (get_vec (bridges st) token) \<and> accepts (rp_conn b)}"
  using assms
  by (auto simp: handle_frame_def peer_kind_of_def mem_forward_to_bridges)

theorem responses_reach_every_bridge_witness:
  "set (handle_frame (\<lambda>_. True) [''t'', ''u''] (app sample_hub) sample_agent ''t'' (response_value 1 (Some JNull) None)) =
     {(1, response_value 1 (Some JNull) None)}"
proof -
  have "peer_kind_of sample_agent = Agent" by (simp add: sample_agent_def peer_kind_of_def sample_hello_def)
  from responses_reach_every_bridge [OF this frame_kinds(1), of "\<lambda>_. True" "[''t'', ''u'']" "app sample_hub"
      "''t''" 1 "Some JNull" None]
  show ?thesis by (simp add: sample_hub_app(2) get_vec_def) (simp add: sample_bridge_def)
qed

lemma set_all_agents:
  "set keys = dom (agents st) \<Longrightarrow> p \<in> set (all_agents keys st) \<longleftrightarrow> (\<exists>t. p \<in> set (get_vec (agents st) t))"
  by (fastforce simp: all_agents_def get_vec_def dom_def split: option.splits)

text \<open>\<open>list_targets\<close> is answered by the relay from every token's agents. In a reachable
  state the answer lists exactly the live agents of all tokens, with their ids, names and
  sessions; they are all of the asking bridge's token when the relay requires a token, but
  not when it does not.\<close>

theorem list_targets_spans_tokens:
  assumes "hub_moves\<^sup>*\<^sup>* (new_hub required) s" and "set keys = dom (agents (app s))"
    and "live s c = Some (p, token, True)"
  shows "list_targets keys (app s) =
      list_targets_result_json \<lparr>ltr_targets = map target_of (all_agents keys (app s))\<rparr> \<and>
    (q \<in> set (all_agents keys (app s)) \<longleftrightarrow>
       peer_kind_of q = Agent \<and> (\<exists>token' acked. live s (rp_conn q) = Some (q, token', acked))) \<and>
    (required_token (app s) \<noteq> None \<and> q \<in> set (all_agents keys (app s)) \<longrightarrow>
       q \<in> set (get_vec (agents (app s)) token))"
proof -
  note i = hub_invD [OF reachable_hub_inv [OF assms(1)]]
  have m: "q \<in> set (get_vec (agents (app s)) t) \<longleftrightarrow>
      peer_kind_of q = Agent \<and> (\<exists>a. live s (rp_conn q) = Some (q, t, a))" for t
    using i(2) [of q Agent t] by simp
  have "t = token" if "required_token (app s) \<noteq> None" "live s (rp_conn q) = Some (q, t, a)" for t a
    using that i(3) [OF assms(3)] i(3) [OF that(2)] by auto
  then show ?thesis by (auto simp: list_targets_def set_all_agents [OF assms(2)] m)
qed

theorem list_targets_spans_tokens_witness:
  "list_targets [''t'', ''u''] (app sample_hub) = list_targets_result_json \<lparr>ltr_targets =
     [\<lparr>ti_id = ''pc'', ti_name = ''n'', ti_session = ''pc-7''\<rparr>,
      \<lparr>ti_id = ''srv'', ti_name = ''n'', ti_session = ''srv-9''\<rparr>]\<rparr>"
proof -
  have "set [''t'', ''u''] = dom (agents (app sample_hub))" by (auto simp: sample_hub_app split: if_splits)
  from list_targets_spans_tokens [OF sample_hub_reachable this sample_hub_app(5)]
  show ?thesis
    by (simp add: all_agents_def sample_hub_app get_vec_def target_of_def sample_agent_def sample_hello_def)
qed

text \<open>The id given to a new agent is already in use only if its own id, that id with the
  time appended and that id with the time and the random number appended are all in use.\<close>

theorem assigned_id_collides_only_if_all_taken:
  "id_taken keys st (unique_id keys timestamp r16 st i) \<longleftrightarrow>
     id_taken keys st i \<and> id_taken keys st (i @ ''-'' @ show_nat timestamp) \<and>
     id_taken keys st (i @ ''-'' @ show_nat timestamp @ ''-'' @ hex_pad 4 r16)"
  by (simp add: unique_id_def Let_def)

lemma cleanup_agent:
  assumes "peer_kind_of p = Agent" and "p \<in> set (get_vec (agents st) token)"
    and "cleanup accepts st p token = (st', out)"
  shows "out = forward_to_bridges accepts st' token (agent_gone (hello_id (rp_hello p)))"
    and "bridges st' = bridges st"
proof -
  obtain l where l: "agents st token = Some l" "p \<in> set l"
    using assms(2) by (cases "agents st token") (auto simp: get_vec_def)
  then have "length (without p l) < length l"
    unfolding without_def by (intro length_filter_less [of p]) auto
  then show "out = forward_to_bridges accepts st' token (agent_gone (hello_id (rp_hello p)))"
    and "bridges st' = bridges st"
    using assms(1,3) l by (auto simp: cleanup_def peer_kind_of_def Let_def)
qed

text \<open>When an agent's connection closes, every bridge of its token whose socket accepts it
  is told that this agent is gone, and if it was the token's last agent every later request
  of those bridges is answered \<open>AGENT_OFFLINE\<close> under its own id.\<close>

theorem agent_close_is_announced:
  assumes "hub_moves\<^sup>*\<^sup>* (new_hub required) s" and "live s c = Some (p, token, True)"
    and "peer_kind_of p = Agent" and "cleanup accepts (app s) p token = (st', out)"
  shows "set out = {(rp_conn b, agent_gone (hello_id (rp_hello p))) | b.
        b \<in> set (get_vec (bridges (app s)) token) \<and> accepts (rp_conn b)} \<and>
    (get_vec (agents (app s)) token = [p] \<longrightarrow>
       route_request accepts' st' b token v =
         relay_respond accepts' b (frame_id v) None
           (Some (rpc_error_new AGENT_OFFLINE ''agent is not connected'')))"
proof -
  note i = hub_invD [OF reachable_hub_inv [OF assms(1)]]
  have "p \<in> set (get_vec (agents (app s)) token)"
    using i(2) [of p Agent token] i(3) [OF assms(2)] assms(2,3) by auto
  note g = cleanup_agent [OF assms(3) this assms(4)]
  have "get_vec (agents st') token = without p (get_vec (agents (app s)) token)"
    using cleanup_effect(2) [OF assms(4), of Agent token] assms(3) by simp
  then have "get_vec (agents (app s)) token = [p] \<Longrightarrow> get_vec (agents st') token = []"
    by (simp add: without_def)
  then show ?thesis
    unfolding g(1) by (auto simp: mem_forward_to_bridges g(2) route_request_def pick_agent_def split: option.splits)
qed

definition acked_hub :: hub where
  "acked_hub = sample_hub\<lparr>live := (live sample_hub)(0 \<mapsto> (sample_agent, ''t'', True))\<rparr>"

theorem agent_close_is_announced_witness:
  "set (snd (cleanup (\<lambda>_. True) (app acked_hub) sample_agent ''t'')) = {(1, agent_gone ''pc'')}"
proof -
  have "hub_moves sample_hub acked_hub"
    unfolding hub_moves_def acked_hub_def by (rule exI, rule hub_ack [OF sample_hub_app(4)])
  then have r: "hub_moves\<^sup>*\<^sup>* (new_hub None) acked_hub"
    using sample_hub_reachable by (rule rtranclp.rtrancl_into_rtrancl [rotated])
  have l: "live acked_hub 0 = Some (sample_agent, ''t'', True)" by (simp add: acked_hub_def)
  have k: "peer_kind_of sample_agent = Agent" "hello_id (rp_hello sample_agent) = ''pc''"
    by (simp_all add: sample_agent_def peer_kind_of_def sample_hello_def)
  have b: "get_vec (bridges (app acked_hub)) ''t'' = [sample_bridge]" "rp_conn sample_bridge = 1"
    by (simp_all add: acked_hub_def sample_hub_app get_vec_def) (simp add: sample_bridge_def)
  from agent_close_is_announced [OF r l k(1) surjective_pairing, of "\<lambda>_. True"] k(2) b show ?thesis by simp
qed

end
