(* ===== verification/Client_Props.thy ===== *)
theory Client_Props
  imports Client Relay_Props
begin

text \<open>
  The properties of the RPC client, alone and behind the relay: the last section composes
  the relay's broadcast with two clients that number their calls from one.
\<close>

section \<open>Calls\<close>

text \<open>C15: each call resolves at most once and is never forgotten: a new call gets a number no
  earlier call has; a waiting call either has its result or is still registered with the read
  loop; and a result, once given, is never replaced.\<close>

theorem calls_resolve_at_most_once:
  assumes "client_step\<^sup>*\<^sup>* new_client s" and "client_step\<^sup>*\<^sup>* s t"
  shows "calls s (fst (start_call s)) = None \<and>
    (calls s i = Some Waiting \<longrightarrow> slot s i \<noteq> None \<or> i \<in> pending s) \<and>
    (slot s i = Some r \<longrightarrow> slot t i = Some r) \<and>
    (calls s i = Some (Returned r) \<longrightarrow> calls t i = Some (Returned r))"
proof -
  note inv = reachable_client_inv [OF assms(1)]
  have "calls s (next_id s) = None" and iff: "i \<in> pending s \<longleftrightarrow>
      (calls s i = Some Inserted \<or> calls s i = Some Waiting) \<and> slot s i = None"
    using inv unfolding client_inv_def by blast+
  moreover have "fst (start_call s) = next_id s" by (simp add: start_call_def Let_def)
  ultimately show ?thesis using client_steps_stable [OF assms(2) inv, of i r] by auto
qed

text \<open>A client that connected and sent its first call.\<close>

definition one_call :: client where
  "one_call = send_call True 1 (snd (start_call (install_connection None new_client)))"

lemma client_step_rw: "client_step\<^sup>*\<^sup>* s t \<Longrightarrow> client_step t u \<Longrightarrow> client_step\<^sup>*\<^sup>* s u"
  by (rule rtranclp.rtrancl_into_rtrancl)

lemma one_call_reachable: "client_step\<^sup>*\<^sup>* new_client one_call"
proof -
  have "client_step new_client (install_connection None new_client)"
    by (rule cl_install) (simp add: new_client_def)
  moreover have "client_step (install_connection None new_client)
      (snd (start_call (install_connection None new_client)))"
    by (rule cl_start) (simp add: install_connection_def new_client_def Let_def)
  moreover have "client_step (snd (start_call (install_connection None new_client))) one_call"
    unfolding one_call_def
    by (rule cl_send) (simp add: start_call_def install_connection_def new_client_def Let_def)
  ultimately show ?thesis by (meson rtranclp.rtrancl_refl client_step_rw)
qed

lemma one_call_state:
  "calls one_call 1 = Some Waiting" "pending one_call = {1}" "slot one_call 1 = None" "reading one_call"
  by (simp_all add: one_call_def send_call_def start_call_def install_connection_def new_client_def Let_def)

theorem calls_resolve_at_most_once_witness:
  "slot (receive_frame (response_value 1 (Some (JBool True)) None) one_call) 1 = Some (Inr (JBool True)) \<and>
   slot (fail_pending (receive_frame (response_value 1 (Some (JBool True)) None) one_call)) 1 = Some (Inr (JBool True))"
proof -
  let ?s = "receive_frame (response_value 1 (Some (JBool True)) None) one_call"
  have sl: "slot ?s 1 = Some (Inr (JBool True))"
    using one_call_state by (simp add: receive_frame_def response_result_def)
  have "client_step one_call ?s" by (rule cl_receive [OF one_call_state(4)])
  then have "client_step\<^sup>*\<^sup>* new_client ?s" by (rule client_step_rw [OF one_call_reachable])
  moreover have "reading ?s" using one_call_state by (simp add: receive_frame_def)
  then have "client_step\<^sup>*\<^sup>* ?s (fail_pending ?s)" by (intro r_into_rtranclp cl_read_end)
  ultimately have "slot ?s 1 = Some (Inr (JBool True)) \<longrightarrow> slot (fail_pending ?s) 1 = Some (Inr (JBool True))"
    using calls_resolve_at_most_once by blast
  with sl show ?thesis by blast
qed

text \<open>A frame with a numeric id resolves exactly the pending call of that number, with the
  decoded error if it has an \<open>error\<close> member (an undecodable one becomes \<open>INTERNAL_ERROR\<close>), else
  with its result or \<open>null\<close>; every other call is untouched, and a frame for no pending call
  changes nothing.\<close>

theorem response_resolves_only_its_call:
  assumes "Option.bind (get v ''id'') as_u64 = Some i"
  shows "(i \<in> pending s \<longrightarrow> slot (receive_frame v s) i = Some (response_result v) \<and>
      i \<notin> pending (receive_frame v s)) \<and>
    (i \<notin> pending s \<longrightarrow> receive_frame v s = s) \<and>
    (j \<noteq> i \<longrightarrow> slot (receive_frame v s) j = slot s j \<and>
       (j \<in> pending (receive_frame v s) \<longleftrightarrow> j \<in> pending s)) \<and>
    calls (receive_frame v s) = calls s \<and>
    (get v ''error'' = Some (rpc_error_json e) \<longrightarrow> response_result v = Inl (rpc_error_norm e)) \<and>
    (get v ''error'' = None \<longrightarrow> response_result v = Inr (case get v ''result'' of Some r \<Rightarrow> r | None \<Rightarrow> JNull))"
  using assms by (auto simp: receive_frame_def response_result_def rpc_error_readback rpc_error_norm_def)

theorem response_resolves_only_its_call_witness:
  "slot (receive_frame (response_value 1 (Some JNull) None) one_call) 1 = Some (Inr JNull)"
proof -
  have "Option.bind (get (response_value 1 (Some JNull) None) ''id'') as_u64 = Some 1"
    using as_u64_JInt [of 1] by simp
  from response_resolves_only_its_call [OF this, of one_call] one_call_state(2) show ?thesis by simp
qed

text \<open>Losing the connection releases everybody: when the read loop ends, every call that
  waits, or is about to, has a result, and those that were pending get \<open>AGENT_OFFLINE\<close>.\<close>

theorem lost_connection_fails_pending_calls:
  assumes "client_step\<^sup>*\<^sup>* new_client s"
    and "calls s i = Some Waiting \<or> calls s i = Some Inserted"
  shows "slot (fail_pending s) i \<noteq> None \<and>
    (slot s i = None \<longrightarrow> slot (fail_pending s) i = Some (offline_error ''connection to agent lost'')) \<and>
    (slot s i \<noteq> None \<longrightarrow> slot (fail_pending s) i = slot s i)"
proof -
  have "i \<in> pending s \<longleftrightarrow> slot s i = None"
    using reachable_client_inv [OF assms(1)] assms(2) by (auto simp: client_inv_def)
  then show ?thesis by (auto simp: fail_pending_def)
qed

theorem lost_connection_fails_pending_calls_witness:
  "slot (fail_pending one_call) 1 = Some (offline_error ''connection to agent lost'')"
  using lost_connection_fails_pending_calls [OF one_call_reachable, of 1] one_call_state by simp

text \<open>A call can miss that release. Between the end of the read loop and the clearing of
  the sink a call registers and its frame is taken by the dead connection: after the client
  has reconnected the call still waits, registered on the new connection that will never
  carry its answer; a \<open>call\<close> without deadline hangs.\<close>

theorem call_on_dead_connection_hangs:
  "\<exists>s. client_step\<^sup>*\<^sup>* new_client s \<and> sink s = Some 3 \<and> reading s \<and>
     calls s 1 = Some Waiting \<and> slot s 1 = None \<and>
     (\<forall>v. Option.bind (get v ''id'') as_u64 = Some 1 \<or>
        calls (receive_frame v s) 1 = Some Waiting \<and> slot (receive_frame v s) 1 = None)"
proof -
  define s1 where "s1 = fail_pending (install_connection None new_client)"
  define s2 where "s2 = send_call True 1 (snd (start_call s1))"
  define s3 where "s3 = install_connection None (clear_connection s2)"
  have s1: "sink s1 = Some 1" "next_id s1 = 1" "\<not> reading s1" "connection_epoch s1 = 1"
    "slot s1 = Map.empty" "pending s1 = {}"
    by (auto simp: s1_def fail_pending_def install_connection_def new_client_def Let_def)
  have s2: "sink s2 = Some 1" "\<not> reading s2" "calls s2 1 = Some Waiting" "slot s2 = Map.empty"
    "connection_epoch s2 = 1"
    using s1 by (simp_all add: s2_def send_call_def start_call_def Let_def)
  have "client_step new_client (install_connection None new_client)"
    by (rule cl_install) (simp add: new_client_def)
  moreover have "client_step (install_connection None new_client) s1"
    unfolding s1_def by (rule cl_read_end) (simp add: install_connection_def Let_def)
  moreover have "client_step s1 (snd (start_call s1))" by (rule cl_start) (simp add: s1)
  moreover have "client_step (snd (start_call s1)) s2"
    unfolding s2_def by (rule cl_send) (simp add: start_call_def s1 Let_def)
  moreover have "client_step s2 (clear_connection s2)" by (rule cl_clear) (simp_all add: s2)
  moreover have "client_step (clear_connection s2) s3"
    unfolding s3_def by (rule cl_install) (simp add: clear_connection_def)
  ultimately have "client_step\<^sup>*\<^sup>* new_client s3"
    by (meson rtranclp.rtrancl_refl client_step_rw)
  moreover have "sink s3 = Some 3" "reading s3" "calls s3 1 = Some Waiting" "slot s3 1 = None"
    using s2 by (simp_all add: s3_def install_connection_def clear_connection_def Let_def)
  ultimately show ?thesis
    by (intro exI [of _ s3]) (simp add: receive_frame_def split: option.split)
qed

section \<open>Two bridges behind the relay\<close>

text \<open>C17: two bridges of one token hear each other's answers. Both number their calls from 1;
  when the agent answers call \<open>n\<close> of one of them, the relay hands the same frame to the other,
  and if that one has its own call \<open>n\<close> pending, the call returns the foreign result.\<close>

theorem bridges_of_a_token_cross_talk:
  assumes "hub_moves\<^sup>*\<^sup>* (new_hub required) s"
    and "live s a = Some (agent, token, True)" and "peer_kind_of agent = Agent"
    and "live s c = Some (other, token, True)" and "peer_kind_of other = Bridge" and "accepts c"
    and "n < 2 ^ 64" and "n \<in> pending client"
  shows "(c, response_value n (Some r) None) \<in>
      set (handle_frame accepts keys (app s) agent token (response_value n (Some r) None)) \<and>
    slot (receive_frame (response_value n (Some r) None) client) n = Some (Inr r) \<and>
    fst (start_call new_client) = 1"
proof -
  note i = hub_invD [OF reachable_hub_inv [OF assms(1)]]
  have c: "rp_conn other = c" using i(3) [OF assms(4)] by simp
  have "other \<in> set (get_vec (bridges (app s)) token)"
    using i(2) [of other Bridge token] assms(4,5) c by auto
  moreover have "hello_kind (rp_hello agent) = Agent" using assms(3) by (simp add: peer_kind_of_def)
  ultimately have "(c, response_value n (Some r) None) \<in>
      set (handle_frame accepts keys (app s) agent token (response_value n (Some r) None))"
    using c assms(6) by (auto simp: handle_frame_def mem_forward_to_bridges)
  moreover have "slot (receive_frame (response_value n (Some r) None) client) n = Some (Inr r)"
    using assms(7,8) by (simp add: receive_frame_def response_result_def)
  ultimately show ?thesis by (simp add: start_call_def new_client_def Let_def)
qed

theorem bridges_of_a_token_cross_talk_witness:
  "slot (receive_frame (response_value 1 (Some (JStr ''theirs'')) None) one_call) 1 = Some (Inr (JStr ''theirs''))"
proof -
  have "hub_moves sample_hub acked_hub"
    unfolding hub_moves_def acked_hub_def by (rule exI, rule hub_ack [OF sample_hub_app(4)])
  then have r: "hub_moves\<^sup>*\<^sup>* (new_hub None) acked_hub"
    using sample_hub_reachable by (rule rtranclp.rtrancl_into_rtrancl [rotated])
  have l: "live acked_hub 0 = Some (sample_agent, ''t'', True)"
    "live acked_hub 1 = Some (sample_bridge, ''t'', True)"
    by (simp_all add: acked_hub_def sample_hub_app(5) [simplified])
  have k: "peer_kind_of sample_agent = Agent" "peer_kind_of sample_bridge = Bridge"
    by (simp_all add: sample_agent_def sample_bridge_def peer_kind_of_def sample_hello_def)
  have "(1::nat) < 2 ^ 64" "1 \<in> pending one_call" by (simp_all add: one_call_state)
  from bridges_of_a_token_cross_talk [OF r l(1) k(1) l(2) k(2), of "\<lambda>_. True", OF TrueI this]
  show ?thesis by blast
qed

end
