(* ===== verification/Os_Fs.thy ===== *)
theory Os_Fs
  imports Paths "HOL-Library.AList"
begin

text \<open>
  The part of Unix file systems and \<open>std::fs\<close> the agent and the bridge use: a table of nodes
  by resolved path, the kernel's path walk with symbolic links, and the calls with the error
  each documented failure gives. One read returns at most \<open>os_read_cap\<close> bytes (tokio's file
  buffer). A trailing slash of a path is dropped. The table is an association list, its order
  the order a directory lists its entries in.
\<close>

section \<open>Nodes\<close>

datatype io_error = NotFound | PermissionDenied | AlreadyExists | NotADirectory | IsADirectory
  | DirectoryNotEmpty | TooManyLinks | InvalidInput

fun io_text :: "io_error \<Rightarrow> string" where
  "io_text NotFound = ''No such file or directory (os error 2)''"
| "io_text PermissionDenied = ''Permission denied (os error 13)''"
| "io_text AlreadyExists = ''File exists (os error 17)''"
| "io_text NotADirectory = ''Not a directory (os error 20)''"
| "io_text IsADirectory = ''Is a directory (os error 21)''"
| "io_text DirectoryNotEmpty = ''Directory not empty (os error 39)''"
| "io_text TooManyLinks = ''Too many levels of symbolic links (os error 40)''"
| "io_text InvalidInput = ''Invalid argument (os error 22)''"

record metadata =
  m_mode :: "32 word"
  m_uid :: "32 word"
  m_gid :: "32 word"
  m_mtime :: nat

datatype node = NFile metadata bytes | NDir metadata | NLink metadata string | NOther metadata

record os =
  nodes :: "(path \<times> node) list"
  denied :: "path set" \<comment> \<open>what the process may not touch\<close>
  cwd :: path
  now_secs :: nat
  umask :: "32 word"
  own_uid :: "32 word"
  own_gid :: "32 word"

definition node_at :: "os \<Rightarrow> path \<Rightarrow> node option" where
  "node_at s p = map_of (nodes s) p"

definition put_node :: "path \<Rightarrow> node \<Rightarrow> os \<Rightarrow> os" where
  "put_node p n s = s\<lparr>nodes := AList.update p n (nodes s)\<rparr>"

definition del_node :: "path \<Rightarrow> os \<Rightarrow> os" where
  "del_node p s = s\<lparr>nodes := AList.delete p (nodes s)\<rparr>"

lemma node_at_put [simp]: "node_at (put_node p n s) q = (if q = p then Some n else node_at s q)"
  by (simp add: node_at_def put_node_def update_conv')

lemma node_at_del [simp]: "node_at (del_node p s) q = (if q = p then None else node_at s q)"
  by (simp add: node_at_def del_node_def delete_conv')

lemma put_node_simps [simp]:
  "denied (put_node p n s) = denied s" "cwd (put_node p n s) = cwd s"
  "now_secs (put_node p n s) = now_secs s" "umask (put_node p n s) = umask s"
  "own_uid (put_node p n s) = own_uid s" "own_gid (put_node p n s) = own_gid s"
  by (simp_all add: put_node_def)

section \<open>Path walk\<close>

definition MAX_LINKS :: nat where "MAX_LINKS = 40"

function resolve :: "nat \<Rightarrow> os \<Rightarrow> bool \<Rightarrow> path \<Rightarrow> path \<Rightarrow> io_error + path" where
  "resolve n s follow cur [] = Inr cur"
| "resolve n s follow cur (RootDir # r) = resolve n s follow [RootDir] r"
| "resolve n s follow cur (CurDir # r) = resolve n s follow cur r"
| "resolve n s follow cur (ParentDir # r) =
     resolve n s follow (if length cur \<le> 1 then cur else butlast cur) r"
| "resolve n s follow cur (Normal w # r) =
     (case node_at s (cur @ [Normal w]) of
        None \<Rightarrow> if r = [] then Inr (cur @ [Normal w]) else Inl NotFound
      | Some (NDir _) \<Rightarrow> resolve n s follow (cur @ [Normal w]) r
      | Some (NLink _ t) \<Rightarrow>
          if r = [] \<and> \<not> follow then Inr (cur @ [Normal w])
          else (case n of 0 \<Rightarrow> Inl TooManyLinks | Suc k \<Rightarrow> resolve k s follow cur (path_of t @ r))
      | Some _ \<Rightarrow> if r = [] then Inr (cur @ [Normal w]) else Inl NotADirectory)"
  by pat_completeness auto
termination by (relation "measures [\<lambda>(n, s, f, c, r). n, \<lambda>(n, s, f, c, r). length r]") auto

text \<open>The resolved path, and the node there.\<close>

definition os_path :: "os \<Rightarrow> bool \<Rightarrow> path \<Rightarrow> io_error + path" where
  "os_path s follow p =
     (if p = [] then Inl NotFound
      else case resolve MAX_LINKS s follow (cwd s) p of
        Inl e \<Rightarrow> Inl e
      | Inr q \<Rightarrow> if q \<in> denied s then Inl PermissionDenied else Inr q)"

definition os_node :: "os \<Rightarrow> bool \<Rightarrow> path \<Rightarrow> io_error + (path \<times> node)" where
  "os_node s follow p = (case os_path s follow p of
     Inl e \<Rightarrow> Inl e
   | Inr q \<Rightarrow> (case node_at s q of None \<Rightarrow> Inl NotFound | Some n \<Rightarrow> Inr (q, n)))"

definition is_dir :: "os \<Rightarrow> path \<Rightarrow> bool" where
  "is_dir s p = (case os_node s True p of Inr (_, NDir _) \<Rightarrow> True | _ \<Rightarrow> False)"

fun node_meta :: "node \<Rightarrow> metadata" where
  "node_meta (NFile m _) = m"
| "node_meta (NDir m) = m"
| "node_meta (NLink m _) = m"
| "node_meta (NOther m) = m"

fun set_meta :: "metadata \<Rightarrow> node \<Rightarrow> node" where
  "set_meta m (NFile _ b) = NFile m b"
| "set_meta m (NDir _) = NDir m"
| "set_meta m (NLink _ t) = NLink m t"
| "set_meta m (NOther _) = NOther m"

text \<open>\<open>Metadata::len\<close>; a directory reports one block.\<close>

fun node_len :: "node \<Rightarrow> nat" where
  "node_len (NFile _ b) = length b"
| "node_len (NLink _ t) = length t"
| "node_len (NDir _) = 4096"
| "node_len (NOther _) = 0"

definition new_meta :: "os \<Rightarrow> 32 word \<Rightarrow> metadata" where
  "new_meta s mode = \<lparr>m_mode = and mode (not (umask s)), m_uid = own_uid s, m_gid = own_gid s,
     m_mtime = now_secs s\<rparr>"

definition touch :: "os \<Rightarrow> metadata \<Rightarrow> metadata" where
  "touch s m = m\<lparr>m_mtime := now_secs s\<rparr>"

text \<open>\<open>st_mode\<close>: the file type and the permission bits.\<close>

fun node_mode :: "node \<Rightarrow> 32 word" where
  "node_mode (NFile m _) = or 0x8000 (m_mode m)"
| "node_mode (NDir m) = or 0x4000 (m_mode m)"
| "node_mode (NLink m _) = or 0xA000 (m_mode m)"
| "node_mode (NOther m) = m_mode m"

section \<open>File contents\<close>

text \<open>Overwriting at an offset: a gap past the end reads as zeros.\<close>

definition write_bytes :: "nat \<Rightarrow> bytes \<Rightarrow> bytes \<Rightarrow> bytes" where
  "write_bytes off new old =
     (if new = [] then old
      else take off old @ replicate (off - length old) 0 @ new @ drop (off + length new) old)"

definition set_length :: "nat \<Rightarrow> bytes \<Rightarrow> bytes" where
  "set_length n b = take n b @ replicate (n - length b) 0"

text \<open>One \<open>read\<close> call with a buffer of \<open>limit\<close> bytes.\<close>

definition os_read_cap :: nat where "os_read_cap = 2 * 1024 * 1024"

definition read_once :: "nat \<Rightarrow> nat \<Rightarrow> bytes \<Rightarrow> bytes" where
  "read_once off limit b = take (min limit os_read_cap) (drop off b)"

lemma length_write_bytes: "new \<noteq> [] \<Longrightarrow> length (write_bytes off new old) = max (length old) (off + length new)"
  by (simp add: write_bytes_def)

lemma nth_write_bytes:
  assumes "new \<noteq> []" and "i < max (length old) (off + length new)"
  shows "write_bytes off new old ! i =
    (if off \<le> i \<and> i < off + length new then new ! (i - off)
     else if i < length old then old ! i else 0)"
proof -
  define pre where "pre = take off old @ replicate (off - length old) 0"
  have pre: "length pre = off" "\<And>k. k < off \<Longrightarrow> pre ! k = (if k < length old then old ! k else 0)"
    by (simp_all add: pre_def nth_append)
  have "write_bytes off new old = pre @ new @ drop (off + length new) old"
    using assms(1) by (simp add: write_bytes_def pre_def)
  then show ?thesis
    using assms(2) pre by (auto simp: nth_append)
qed

lemma length_set_length [simp]: "length (set_length n b) = n"
  by (simp add: set_length_def)

lemma nth_set_length: "i < n \<Longrightarrow> set_length n b ! i = (if i < length b then b ! i else 0)"
  by (simp add: set_length_def nth_append)

section \<open>Directories\<close>

definition below :: "path \<Rightarrow> path \<Rightarrow> bool" where
  "below p q \<longleftrightarrow> length p < length q \<and> take (length p) q = p"

definition children :: "os \<Rightarrow> path \<Rightarrow> (string \<times> node) list" where
  "children s p = map (\<lambda>(q, n). (case last q of Normal w \<Rightarrow> w | _ \<Rightarrow> [], n))
     (filter (\<lambda>(q, _). below p q \<and> length q = length p + 1) (nodes s))"

definition has_children :: "os \<Rightarrow> path \<Rightarrow> bool" where
  "has_children s p = list_ex (\<lambda>(q, _). below p q) (nodes s)"

definition os_read_dir :: "os \<Rightarrow> path \<Rightarrow> io_error + (string \<times> node) list" where
  "os_read_dir s p = (case os_node s True p of
     Inl e \<Rightarrow> Inl e
   | Inr (q, NDir _) \<Rightarrow> Inr (children s q)
   | Inr _ \<Rightarrow> Inl NotADirectory)"

definition os_create_dir :: "32 word \<Rightarrow> path \<Rightarrow> os \<Rightarrow> (io_error + unit) \<times> os" where
  "os_create_dir mode p s = (case os_path s False p of
     Inl e \<Rightarrow> (Inl e, s)
   | Inr q \<Rightarrow> if node_at s q \<noteq> None then (Inl AlreadyExists, s)
              else (Inr (), put_node q (NDir (new_meta s mode)) s))"

text \<open>\<open>create_dir_all\<close>: on \<open>NotFound\<close> the parents first, then once more.\<close>

function os_create_dir_all :: "path \<Rightarrow> os \<Rightarrow> (io_error + unit) \<times> os" where
  "os_create_dir_all p s =
     (if p = [] then (Inr (), s)
      else case os_create_dir 511 p s of
        (Inr _, s') \<Rightarrow> (Inr (), s')
      | (Inl e, s') \<Rightarrow>
          if e \<noteq> NotFound then (if is_dir s p then (Inr (), s) else (Inl e, s))
          else if last p = RootDir then (Inl e, s)
          else (case os_create_dir_all (butlast p) s of
              (Inl e', s2) \<Rightarrow> (Inl e', s2)
            | (Inr _, s2) \<Rightarrow>
                (case os_create_dir 511 p s2 of
                   (Inr _, s3) \<Rightarrow> (Inr (), s3)
                 | (Inl e2, s3) \<Rightarrow> if is_dir s2 p then (Inr (), s2) else (Inl e2, s2))))"
  by pat_completeness auto
termination by (relation "measure (\<lambda>(p, s). length p)") auto

declare os_create_dir_all.simps [simp del]

definition os_remove_file :: "path \<Rightarrow> os \<Rightarrow> (io_error + unit) \<times> os" where
  "os_remove_file p s = (case os_node s False p of
     Inl e \<Rightarrow> (Inl e, s)
   | Inr (q, NDir _) \<Rightarrow> (Inl IsADirectory, s)
   | Inr (q, _) \<Rightarrow> (Inr (), del_node q s))"

definition os_remove_dir :: "path \<Rightarrow> os \<Rightarrow> (io_error + unit) \<times> os" where
  "os_remove_dir p s = (case os_node s False p of
     Inl e \<Rightarrow> (Inl e, s)
   | Inr (q, NDir _) \<Rightarrow> if has_children s q then (Inl DirectoryNotEmpty, s) else (Inr (), del_node q s)
   | Inr _ \<Rightarrow> (Inl NotADirectory, s))"

definition del_tree :: "path \<Rightarrow> os \<Rightarrow> os" where
  "del_tree p s = s\<lparr>nodes := filter (\<lambda>(q, _). q \<noteq> p \<and> \<not> below p q) (nodes s)\<rparr>"

definition os_remove_dir_all :: "path \<Rightarrow> os \<Rightarrow> (io_error + unit) \<times> os" where
  "os_remove_dir_all p s = (case os_node s False p of
     Inl e \<Rightarrow> (Inl e, s)
   | Inr (q, NDir _) \<Rightarrow> (Inr (), del_tree q s)
   | Inr (q, NLink _ _) \<Rightarrow> (Inr (), del_node q s)
   | Inr _ \<Rightarrow> (Inl NotADirectory, s))"

lemma node_at_del_tree [simp]:
  "node_at (del_tree p s) q = (if q = p \<or> below p q then None else node_at s q)"
proof -
  have "map_of (filter (\<lambda>(q, _). q \<noteq> p \<and> \<not> below p q) xs) q =
      (if q = p \<or> below p q then None else map_of xs q)" for xs :: "(path \<times> node) list"
    by (induction xs) auto
  then show ?thesis by (simp add: node_at_def del_tree_def)
qed

section \<open>Files\<close>

text \<open>\<open>File::create\<close>: open for writing, created or emptied.\<close>

definition os_create_file :: "32 word \<Rightarrow> path \<Rightarrow> os \<Rightarrow> (io_error + path) \<times> os" where
  "os_create_file mode p s = (case os_path s True p of
     Inl e \<Rightarrow> (Inl e, s)
   | Inr q \<Rightarrow> (case node_at s q of
       None \<Rightarrow> (Inr q, put_node q (NFile (new_meta s mode) []) s)
     | Some (NFile m _) \<Rightarrow> (Inr q, put_node q (NFile (touch s m) []) s)
     | Some (NDir _) \<Rightarrow> (Inl IsADirectory, s)
     | Some _ \<Rightarrow> (Inr q, s)))"

text \<open>An existing file opened for writing; a directory cannot be.\<close>

definition os_open_write :: "path \<Rightarrow> os \<Rightarrow> io_error + path" where
  "os_open_write p s = (case os_node s True p of
     Inl e \<Rightarrow> Inl e
   | Inr (q, NDir _) \<Rightarrow> Inl IsADirectory
   | Inr (q, _) \<Rightarrow> Inr q)"

definition os_modify :: "(bytes \<Rightarrow> bytes) \<Rightarrow> path \<Rightarrow> os \<Rightarrow> os" where
  "os_modify f q s = (case node_at s q of
     Some (NFile m b) \<Rightarrow> put_node q (NFile (touch s m) (f b)) s
   | _ \<Rightarrow> s)"

definition os_open_read :: "path \<Rightarrow> os \<Rightarrow> io_error + path" where
  "os_open_read p s = (case os_node s True p of Inl e \<Rightarrow> Inl e | Inr (q, _) \<Rightarrow> Inr q)"

definition os_read_at :: "nat \<Rightarrow> nat \<Rightarrow> path \<Rightarrow> os \<Rightarrow> io_error + bytes" where
  "os_read_at off limit q s = (case node_at s q of
     Some (NFile _ b) \<Rightarrow> Inr (read_once off limit b)
   | Some (NDir _) \<Rightarrow> Inl IsADirectory
   | _ \<Rightarrow> Inr [])"

text \<open>The largest offset \<open>lseek\<close> takes.\<close>

definition seek_ok :: "nat \<Rightarrow> bool" where "seek_ok off \<longleftrightarrow> off < 2 ^ 63"

definition os_symlink :: "string \<Rightarrow> path \<Rightarrow> os \<Rightarrow> (io_error + unit) \<times> os" where
  "os_symlink target p s = (case os_path s False p of
     Inl e \<Rightarrow> (Inl e, s)
   | Inr q \<Rightarrow> if node_at s q \<noteq> None then (Inl AlreadyExists, s)
              else if target = [] then (Inl NotFound, s)
              else (Inr (), put_node q (NLink (new_meta s 511) target) s))"

definition os_set_mode :: "32 word \<Rightarrow> path \<Rightarrow> os \<Rightarrow> (io_error + unit) \<times> os" where
  "os_set_mode mode p s = (case os_node s True p of
     Inl e \<Rightarrow> (Inl e, s)
   | Inr (q, n) \<Rightarrow> (Inr (), put_node q (set_meta ((node_meta n)\<lparr>m_mode := mode\<rparr>) n) s))"

definition move_tree :: "path \<Rightarrow> path \<Rightarrow> os \<Rightarrow> os" where
  "move_tree p q s = s\<lparr>nodes := map (\<lambda>(x, n). (if x = p \<or> below p x then q @ drop (length p) x else x, n))
     (filter (\<lambda>(x, _). x \<noteq> q) (nodes s))\<rparr>"

definition os_rename :: "path \<Rightarrow> path \<Rightarrow> os \<Rightarrow> (io_error + unit) \<times> os" where
  "os_rename from to s = (case (os_node s False from, os_path s False to) of
     (Inl e, _) \<Rightarrow> (Inl e, s)
   | (_, Inl e) \<Rightarrow> (Inl e, s)
   | (Inr (p, n), Inr q) \<Rightarrow>
       let src_dir = (case n of NDir _ \<Rightarrow> True | _ \<Rightarrow> False) in
       if p = q then (Inr (), s)
       else if src_dir \<and> below p q then (Inl InvalidInput, s)
       else (case node_at s q of
           None \<Rightarrow> (Inr (), move_tree p q s)
         | Some (NDir _) \<Rightarrow>
             if \<not> src_dir then (Inl IsADirectory, s)
             else if has_children s q then (Inl DirectoryNotEmpty, s)
             else (Inr (), move_tree p q s)
         | Some _ \<Rightarrow> if src_dir then (Inl NotADirectory, s) else (Inr (), move_tree p q s)))"

text \<open>\<open>std::fs::copy\<close>: the destination is opened, and emptied, before the bytes are read.\<close>

definition os_copy_file :: "path \<Rightarrow> path \<Rightarrow> os \<Rightarrow> (io_error + unit) \<times> os" where
  "os_copy_file from to s = (case os_node s True from of
     Inl e \<Rightarrow> (Inl e, s)
   | Inr (p, NFile m _) \<Rightarrow>
       (case os_create_file (m_mode m) to s of
          (Inl e, s') \<Rightarrow> (Inl e, s')
        | (Inr q, s') \<Rightarrow>
            (case node_at s' p of
               Some (NFile _ b) \<Rightarrow>
                 (case node_at s' q of
                    Some (NFile m' _) \<Rightarrow> (Inr (), put_node q (NFile (m'\<lparr>m_mode := m_mode m\<rparr>) b) s')
                  | _ \<Rightarrow> (Inr (), s'))
             | _ \<Rightarrow> (Inr (), s')))
   | Inr _ \<Rightarrow> (Inl InvalidInput, s))"

end
