(* ===== verification/Agent_Files.thy ===== *)
theory Agent_Files
  imports Os_Fs Rpc Protocol_Params Protocol_Results "HOL-Library.Char_ord" "HOL-Library.List_Lexorder"
begin

text \<open>
  The file operations the agent serves (\<open>crates/agent/src/files.rs\<close>), one function per
  handler from the request's parameters and the file system to an error or a result and the
  new file system. Base64 is a third-party crate: its encoder \<open>enc\<close> and decoder \<open>dec\<close> are
  arguments. An error is serde's, base64's or a message.
\<close>

section \<open>Limits and errors\<close>

definition MAX_DIRECT_FILE_BYTES :: nat where "MAX_DIRECT_FILE_BYTES = 8 * 1024 * 1024"

definition MAX_DIRECT_FILE_BASE64_BYTES :: nat where
  "MAX_DIRECT_FILE_BASE64_BYTES = (MAX_DIRECT_FILE_BYTES + 2) div 3 * 4"

datatype agent_error = SerdeError | Base64Error | Failed string

type_synonym handled = "(agent_error + json) \<times> os"

definition io_failed :: "string \<Rightarrow> string \<Rightarrow> io_error \<Rightarrow> agent_error" where
  "io_failed what p e = Failed (what @ '' '' @ p @ '': '' @ io_text e)"

definition too_large :: agent_error where
  "too_large = Failed ''file data exceeds the 8388608 byte maximum''"

definition u64 :: "nat \<Rightarrow> 64 word" where "u64 n = of_nat n"

definition opt_or :: "'a \<Rightarrow> 'a option \<Rightarrow> 'a" where
  "opt_or d x = (case x of None \<Rightarrow> d | Some v \<Rightarrow> v)"

text \<open>A call of the file system as the whole of a handler.\<close>

definition answer :: "(io_error \<Rightarrow> agent_error) \<Rightarrow> (io_error + unit) \<times> os \<Rightarrow> handled" where
  "answer err r = (case r of (Inl e, s) \<Rightarrow> (Inl (err e), s) | (Inr _, s) \<Rightarrow> (Inr JNull, s))"

section \<open>Reading and writing\<close>

definition agent_read_file :: "(bytes \<Rightarrow> string) \<Rightarrow> json \<Rightarrow> os \<Rightarrow> handled" where
  "agent_read_file enc params s = (case of_read_file_params params of
     None \<Rightarrow> (Inl SerdeError, s)
   | Some p \<Rightarrow> (case os_open_read (path_of (rf_path p)) s of
       Inl e \<Rightarrow> (Inl (io_failed ''open'' (rf_path p) e), s)
     | Inr q \<Rightarrow>
         let offset = unat (opt_or 0 (rf_offset p)); limit = unat (opt_or (1024 * 1024) (rf_limit p)) in
         if MAX_DIRECT_FILE_BYTES < limit then
           (Inl (Failed ''read limit exceeds the 8388608 byte maximum''), s)
         else if 0 < offset \<and> \<not> seek_ok offset then (Inl (Failed (io_text InvalidInput)), s)
         else (case os_read_at offset limit q s of
             Inl e \<Rightarrow> (Inl (Failed (io_text e)), s)
           | Inr buf \<Rightarrow> (Inr (read_file_result_json
               \<lparr>rfr_data = enc buf, rfr_eof = length buf < limit\<rparr>), s))))"

text \<open>The checked decoding both writers share.\<close>

definition decode_data :: "(string \<Rightarrow> bytes option) \<Rightarrow> string \<Rightarrow> agent_error + bytes" where
  "decode_data dec d =
     (if MAX_DIRECT_FILE_BASE64_BYTES < length d then Inl too_large
      else case dec d of
        None \<Rightarrow> Inl Base64Error
      | Some b \<Rightarrow> if MAX_DIRECT_FILE_BYTES < length b then Inl too_large else Inr b)"

definition agent_write_file :: "(string \<Rightarrow> bytes option) \<Rightarrow> json \<Rightarrow> os \<Rightarrow> handled" where
  "agent_write_file dec params s = (case of_write_file_params params of
     None \<Rightarrow> (Inl SerdeError, s)
   | Some p \<Rightarrow>
       let pth = path_of (wf_path p);
           made = (case parent pth of
             Some par \<Rightarrow> if opt_or False (wf_create_dirs p) then os_create_dir_all par s else (Inr (), s)
           | None \<Rightarrow> (Inr (), s))
       in (case made of
           (Inl e, s1) \<Rightarrow> (Inl (io_failed ''create dirs'' (path_string (butlast pth)) e), s1)
         | (Inr _, s1) \<Rightarrow> (case decode_data dec (wf_data p) of
             Inl e \<Rightarrow> (Inl e, s1)
           | Inr b \<Rightarrow> (case os_create_file 438 pth s1 of
               (Inl e, s2) \<Rightarrow> (Inl (io_failed ''create'' (wf_path p) e), s2)
             | (Inr q, s2) \<Rightarrow> (Inr (write_file_result_json \<lparr>wfr_bytes_written = u64 (length b)\<rparr>),
                 os_modify (write_bytes 0 b) q s2)))))"

definition agent_write_at :: "(string \<Rightarrow> bytes option) \<Rightarrow> json \<Rightarrow> os \<Rightarrow> handled" where
  "agent_write_at dec params s = (case of_write_at_params params of
     None \<Rightarrow> (Inl SerdeError, s)
   | Some p \<Rightarrow> (case decode_data dec (wa_data p) of
       Inl e \<Rightarrow> (Inl e, s)
     | Inr b \<Rightarrow> (case os_open_write (path_of (wa_path p)) s of
         Inl e \<Rightarrow> (Inl (io_failed ''open'' (wa_path p) e), s)
       | Inr q \<Rightarrow>
           if \<not> seek_ok (unat (wa_offset p)) then (Inl (Failed (io_text InvalidInput)), s)
           else (Inr (JObj [(''bytes_written'', JInt (int (length b)))]),
             os_modify (write_bytes (unat (wa_offset p)) b) q s))))"

definition agent_truncate :: "json \<Rightarrow> os \<Rightarrow> handled" where
  "agent_truncate params s = (case of_truncate_params params of
     None \<Rightarrow> (Inl SerdeError, s)
   | Some p \<Rightarrow> (case os_open_write (path_of (tr_path p)) s of
       Inl e \<Rightarrow> (Inl (io_failed ''open'' (tr_path p) e), s)
     | Inr q \<Rightarrow>
         if \<not> seek_ok (unat (tr_size p)) then (Inl (io_failed ''truncate'' (tr_path p) InvalidInput), s)
         else (Inr JNull, os_modify (set_length (unat (tr_size p))) q s)))"

section \<open>Directories and metadata\<close>

fun node_kind :: "node \<Rightarrow> file_kind" where
  "node_kind (NDir _) = Dir"
| "node_kind (NFile _ _) = RegularFile"
| "node_kind (NLink _ _) = Symlink"
| "node_kind (NOther _) = Other"

definition dir_entry_of :: "string \<times> node \<Rightarrow> dir_entry" where
  "dir_entry_of x = (case x of (w, n) \<Rightarrow> \<lparr>de_name = w, de_kind = node_kind n, de_size = u64 (node_len n),
     de_modified = u64 (m_mtime (node_meta n))\<rparr>)"

definition agent_list_dir :: "json \<Rightarrow> os \<Rightarrow> handled" where
  "agent_list_dir params s = (case of_list_dir_params params of
     None \<Rightarrow> (Inl SerdeError, s)
   | Some p \<Rightarrow> (case os_read_dir s (path_of (ld_path p)) of
       Inl e \<Rightarrow> (Inl (io_failed ''read_dir'' (ld_path p) e), s)
     | Inr es \<Rightarrow> (Inr (list_dir_result_json
         \<lparr>ldr_entries = sort_key de_name (map dir_entry_of es)\<rparr>), s)))"

definition stat_of :: "node \<Rightarrow> stat_result" where
  "stat_of n = \<lparr>st_kind = node_kind n, st_size = u64 (node_len n),
     st_modified = u64 (m_mtime (node_meta n)), st_mode = node_mode n, st_uid = m_uid (node_meta n),
     st_gid = m_gid (node_meta n), st_link_target = (case n of NLink _ t \<Rightarrow> Some t | _ \<Rightarrow> None)\<rparr>"

definition agent_stat :: "json \<Rightarrow> os \<Rightarrow> handled" where
  "agent_stat params s = (case of_stat_params params of
     None \<Rightarrow> (Inl SerdeError, s)
   | Some p \<Rightarrow> (case os_node s False (path_of (sp_path p)) of
       Inl e \<Rightarrow> (Inl (io_failed ''stat'' (sp_path p) e), s)
     | Inr (_, n) \<Rightarrow> (Inr (stat_result_json (stat_of n)), s)))"

definition agent_mkdir :: "json \<Rightarrow> os \<Rightarrow> handled" where
  "agent_mkdir params s = (case of_mkdir_params params of
     None \<Rightarrow> (Inl SerdeError, s)
   | Some p \<Rightarrow> answer (io_failed ''mkdir'' (mk_path p))
       (os_create_dir (opt_or 493 (mk_mode p)) (path_of (mk_path p)) s))"

definition agent_remove :: "json \<Rightarrow> os \<Rightarrow> handled" where
  "agent_remove params s = (case of_remove_params params of
     None \<Rightarrow> (Inl SerdeError, s)
   | Some p \<Rightarrow>
       let pth = path_of (rm_path p); err = io_failed ''remove'' (rm_path p) in
       if opt_or False (rm_recursive p) then answer err (os_remove_dir_all pth s)
       else (case os_node s False pth of
           Inl e \<Rightarrow> (Inl (err e), s)
         | Inr (_, NDir _) \<Rightarrow> answer err (os_remove_dir pth s)
         | Inr _ \<Rightarrow> answer err (os_remove_file pth s)))"

definition agent_rename :: "json \<Rightarrow> os \<Rightarrow> handled" where
  "agent_rename params s = (case of_rename_params params of
     None \<Rightarrow> (Inl SerdeError, s)
   | Some p \<Rightarrow> answer (io_failed ''rename'' (mv_from p @ '' -> '' @ mv_to p))
       (os_rename (path_of (mv_from p)) (path_of (mv_to p)) s))"

definition agent_symlink :: "json \<Rightarrow> os \<Rightarrow> handled" where
  "agent_symlink params s = (case of_symlink_params params of
     None \<Rightarrow> (Inl SerdeError, s)
   | Some p \<Rightarrow> answer (io_failed ''symlink'' (sl_link p @ '' -> '' @ sl_target p))
       (os_symlink (sl_target p) (path_of (sl_link p)) s))"

definition agent_chmod :: "json \<Rightarrow> os \<Rightarrow> handled" where
  "agent_chmod params s = (case of_chmod_params params of
     None \<Rightarrow> (Inl SerdeError, s)
   | Some p \<Rightarrow> answer (io_failed ''chmod'' (cm_path p)) (os_set_mode (cm_mode p) (path_of (cm_path p)) s))"

section \<open>Copying\<close>

text \<open>
  The recursion follows the directory tree as it is found while copying, so it is bounded by
  fuel: \<open>None\<close> is a copy that has not ended.
\<close>

function (sequential) copy_dir_recursive :: "nat \<Rightarrow> path \<Rightarrow> path \<Rightarrow> os \<Rightarrow> (io_error + unit) option \<times> os"
  and copy_entries :: "nat \<Rightarrow> path \<Rightarrow> path \<Rightarrow> (string \<times> node) list \<Rightarrow> os \<Rightarrow> (io_error + unit) option \<times> os"
where
  "copy_dir_recursive 0 from to s = (None, s)"
| "copy_dir_recursive (Suc n) from to s =
     (case os_create_dir_all to s of
        (Inl e, s1) \<Rightarrow> (Some (Inl e), s1)
      | (Inr _, s1) \<Rightarrow> (case os_read_dir s1 from of
          Inl e \<Rightarrow> (Some (Inl e), s1)
        | Inr es \<Rightarrow> copy_entries n from to es s1))"
| "copy_entries n from to [] s = (Some (Inr ()), s)"
| "copy_entries n from to ((w, node) # es) s =
     (let src = from @ [Normal w]; dst = to @ [Normal w];
          r = (case node of
                 NDir _ \<Rightarrow> copy_dir_recursive n src dst s
               | _ \<Rightarrow> (case os_copy_file src dst s of (x, s1) \<Rightarrow> (Some x, s1)))
      in case r of
           (Some (Inr _), s1) \<Rightarrow> copy_entries n from to es s1
         | _ \<Rightarrow> r)"
  by pat_completeness auto
termination
  by (relation "measures [case_sum (\<lambda>(n, _). 2 * n) (\<lambda>(n, _). 2 * n + 1),
        case_sum (\<lambda>_. 0) (\<lambda>(n, f, t, es, s). length es)]") auto

definition agent_copy :: "nat \<Rightarrow> json \<Rightarrow> os \<Rightarrow> handled option" where
  "agent_copy fuel params s = (case of_copy_params params of
     None \<Rightarrow> Some (Inl SerdeError, s)
   | Some p \<Rightarrow>
       let from = path_of (cp_from p); to = path_of (cp_to p) in
       (case os_node s False from of
          Inl e \<Rightarrow> Some (Inl (io_failed ''copy'' (cp_from p) e), s)
        | Inr (_, NDir _) \<Rightarrow>
            if \<not> opt_or False (cp_recursive p) then
              Some (Inl (Failed (cp_from p @ '' is a directory; pass recursive=true to copy it'')), s)
            else (case copy_dir_recursive fuel from to s of
                (None, _) \<Rightarrow> None
              | (Some r, s1) \<Rightarrow> Some (answer (\<lambda>e. Failed (io_text e)) (r, s1)))
        | Inr _ \<Rightarrow>
            (case (case parent to of None \<Rightarrow> (Inr (), s) | Some par \<Rightarrow> os_create_dir_all par s) of
               (Inl e, s1) \<Rightarrow> Some (Inl (Failed (io_text e)), s1)
             | (Inr _, s1) \<Rightarrow> Some (answer (io_failed ''copy'' (cp_from p @ '' -> '' @ cp_to p))
                 (os_copy_file from to s1)))))"

section \<open>Streaming\<close>

definition STREAM_CHUNK :: nat where "STREAM_CHUNK = 256 * 1024"

function stream_chunks :: "bytes \<Rightarrow> bytes list" where
  "stream_chunks b = (if b = [] then [] else take STREAM_CHUNK b # stream_chunks (drop STREAM_CHUNK b))"
  by pat_completeness auto
termination by (relation "measure length") (auto simp: STREAM_CHUNK_def)

declare stream_chunks.simps [simp del]

text \<open>The notifications sent, and the response.\<close>

definition agent_stream_file :: "(bytes \<Rightarrow> string) \<Rightarrow> nat \<Rightarrow> json \<Rightarrow> os \<Rightarrow> json list \<times> (agent_error + json)" where
  "agent_stream_file enc id' params s = (case of_read_file_params params of
     None \<Rightarrow> ([], Inl SerdeError)
   | Some p \<Rightarrow> (case os_open_read (path_of (rf_path p)) s of
       Inl e \<Rightarrow> ([], Inl (io_failed ''open'' (rf_path p) e))
     | Inr q \<Rightarrow> (case node_at s q of
         Some (NFile _ b) \<Rightarrow>
           (map (\<lambda>c. notification_value ''stream_chunk''
                (JObj [(''id'', JInt (int id')), (''data'', JStr (enc c))])) (stream_chunks b) @
            [notification_value ''stream_end''
                (JObj [(''id'', JInt (int id')), (''total'', JInt (int (length b)))])], Inr JNull)
       | Some (NDir _) \<Rightarrow> ([], Inl (Failed (io_text IsADirectory)))
       | _ \<Rightarrow> ([notification_value ''stream_end''
                (JObj [(''id'', JInt (int id')), (''total'', JInt 0)])], Inr JNull))))"

lemma concat_stream_chunks: "concat (stream_chunks b) = b"
  by (induction b rule: stream_chunks.induct) (subst stream_chunks.simps, simp)

lemma stream_chunks_small: "c \<in> set (stream_chunks b) \<Longrightarrow> c \<noteq> [] \<and> length c \<le> STREAM_CHUNK"
proof (induction b rule: stream_chunks.induct)
  case (1 b)
  then show ?case
    by (cases "b = []") (simp add: stream_chunks.simps [of "[]"],
        auto simp: stream_chunks.simps [of b] STREAM_CHUNK_def)
qed

end
