(* ===== verification/Agent_Commands.thy ===== *)
theory Agent_Commands
  imports Agent_Files
begin

text \<open>
  Shell commands on the agent (\<open>crates/agent/src/commands.rs\<close>, \<open>AgentState\<close> of \<open>lib.rs\<close>). A
  task per \<open>run_command\<close> streams its child's lines, then waits for the child under the lock of
  the \<open>commands\<close> map, or is overtaken by its timeout. Child processes are the operating
  system's: alive or exited with an exit code (\<open>None\<close> when killed by a signal). The pieces of
  the tasks, \<open>kill_all\<close> and new requests interleave. A panic ends its task alone.
\<close>

section \<open>State\<close>

record command_result =
  cr_done :: bool
  cr_exit_code :: "32 word option"
  cr_timed_out :: bool
  cr_output :: string

datatype proc = Alive | Exited "32 word option"

datatype task_phase = Streaming | Draining | WaitingChild

record task =
  t_id :: nat
  t_background :: bool
  t_timeout :: "nat option"
  t_phase :: task_phase
  t_output :: string

record agent_state =
  commands :: "nat \<rightharpoonup> nat" \<comment> \<open>request id to child process\<close>
  results :: "nat \<rightharpoonup> command_result"
  procs :: "nat \<rightharpoonup> proc"
  tasks :: "nat \<rightharpoonup> task"
  commands_lock :: "nat option" \<comment> \<open>the task that holds the map's lock while it waits\<close>

definition new_agent_state :: agent_state where
  "new_agent_state = \<lparr>commands = Map.empty, results = Map.empty, procs = Map.empty,
     tasks = Map.empty, commands_lock = None\<rparr>"

section \<open>Starting a command\<close>

text \<open>The parameters' checks; \<open>spawn\<close> is whether the shell could be started.\<close>

definition check_command :: "json \<Rightarrow> io_error option \<Rightarrow> agent_error + run_command_params" where
  "check_command params spawn = (case of_run_command_params params of
     None \<Rightarrow> Inl SerdeError
   | Some p \<Rightarrow>
       if list_all whitespace (rc_command p) then Inl (Failed ''command must not be empty'')
       else (case spawn of
           Some e \<Rightarrow> Inl (Failed (''failed to spawn `'' @ rc_command p @ ''`: '' @ io_text e))
         | None \<Rightarrow> Inr p))"

definition empty_result :: command_result where
  "empty_result = \<lparr>cr_done = False, cr_exit_code = None, cr_timed_out = False, cr_output = []\<rparr>"

definition background :: "run_command_params \<Rightarrow> bool" where
  "background p \<longleftrightarrow> \<not> opt_or True (rc_wait p)"

text \<open>The child is tracked and its task started; a background command answers at once.\<close>

definition start_command ::
  "nat \<Rightarrow> nat \<Rightarrow> nat \<Rightarrow> run_command_params \<Rightarrow> agent_state \<Rightarrow> agent_state \<times> json option" where
  "start_command tid pid i p s =
     (let s1 = s\<lparr>commands := (commands s)(i \<mapsto> pid), procs := (procs s)(pid \<mapsto> Alive),
        tasks := (tasks s)(tid \<mapsto> \<lparr>t_id = i, t_background = background p,
          t_timeout = map_option unat (rc_timeout_secs p), t_phase = Streaming, t_output = []\<rparr>)\<rparr>
      in if background p then
           (s1\<lparr>results := (results s1)(i \<mapsto> empty_result)\<rparr>,
            Some (run_command_result_json \<lparr>rcr_exit_code = None, rcr_timed_out = False, rcr_output = [],
              rcr_execution_id = Some (u64 i)\<rparr>))
         else (s1, None))"

section \<open>A task's pieces\<close>

definition output_notification :: "nat \<Rightarrow> string \<Rightarrow> string \<Rightarrow> json" where
  "output_notification i stream line = notification_value (notify_name COMMAND_OUTPUT)
     (command_output_notification_json
       \<lparr>con_id = u64 i, con_stream = stream, con_data = line @ [CHR 0x0A]\<rparr>)"

definition task_line :: "nat \<Rightarrow> task \<Rightarrow> string \<Rightarrow> string \<Rightarrow> agent_state \<Rightarrow> agent_state \<times> json list" where
  "task_line tid t stream line s =
     (let out = line @ [CHR 0x0A];
          s1 = (if t_background t then
                  (case results s (t_id t) of
                     None \<Rightarrow> s
                   | Some r \<Rightarrow> s\<lparr>results := (results s)(t_id t \<mapsto> r\<lparr>cr_output := cr_output r @ out\<rparr>)\<rparr>)
                else s\<lparr>tasks := (tasks s)(tid \<mapsto> t\<lparr>t_output := t_output t @ out\<rparr>)\<rparr>)
      in (s1, [output_notification (t_id t) stream line]))"

text \<open>Both pipes closed: the task goes on to take the lock and wait.\<close>

definition task_eof :: "nat \<Rightarrow> task \<Rightarrow> agent_state \<Rightarrow> agent_state" where
  "task_eof tid t s = s\<lparr>tasks := (tasks s)(tid \<mapsto> t\<lparr>t_phase := Draining\<rparr>)\<rparr>"

definition panic_task :: "nat \<Rightarrow> agent_state \<Rightarrow> agent_state" where
  "panic_task tid s = s\<lparr>tasks := (tasks s)(tid := None),
     commands_lock := (if commands_lock s = Some tid then None else commands_lock s)\<rparr>"

text \<open>\<open>expect("command tracked")\<close> panics when the command is no longer in the map.\<close>

definition task_lock :: "nat \<Rightarrow> task \<Rightarrow> agent_state \<Rightarrow> agent_state" where
  "task_lock tid t s = (case commands s (t_id t) of
     None \<Rightarrow> panic_task tid s
   | Some _ \<Rightarrow> s\<lparr>tasks := (tasks s)(tid \<mapsto> t\<lparr>t_phase := WaitingChild\<rparr>), commands_lock := Some tid\<rparr>)"

text \<open>
  The end of \<open>run_to_completion\<close>. A background task records the result and leaves the command
  in the map; a waiting one removes it, notifies and answers, and its dispatcher answers again.
\<close>

definition finish_command ::
  "nat \<Rightarrow> task \<Rightarrow> 32 word option \<Rightarrow> bool \<Rightarrow> agent_state \<Rightarrow> agent_state \<times> json list" where
  "finish_command tid t code timed_out s =
     (let s1 = s\<lparr>tasks := (tasks s)(tid := None),
            commands_lock := (if commands_lock s = Some tid then None else commands_lock s)\<rparr>
      in if t_background t then
           (case results s (t_id t) of
              None \<Rightarrow> (s1, [])
            | Some r \<Rightarrow> (s1\<lparr>results := (results s)(t_id t \<mapsto>
                r\<lparr>cr_done := True, cr_exit_code := code, cr_timed_out := timed_out\<rparr>)\<rparr>, []))
         else
           (s1\<lparr>commands := (commands s)(t_id t := None)\<rparr>,
            [notification_value (notify_name COMMAND_FINISHED) (command_finished_notification_json
               \<lparr>cfn_id = u64 (t_id t), cfn_exit_code = code, cfn_timed_out = timed_out\<rparr>),
             response_value (t_id t) (Some (run_command_result_json \<lparr>rcr_exit_code = code,
               rcr_timed_out = timed_out, rcr_output = t_output t, rcr_execution_id = None\<rparr>)) None,
             response_value (t_id t) (Some JNull) None]))"

definition task_timeout :: "nat \<Rightarrow> task \<Rightarrow> agent_state \<Rightarrow> agent_state \<times> json list" where
  "task_timeout tid t s = (case commands s (t_id t) of
     None \<Rightarrow> (panic_task tid s, [])
   | Some pid \<Rightarrow> finish_command tid t None True
       (s\<lparr>procs := (procs s)(pid \<mapsto> (case procs s pid of Some (Exited c) \<Rightarrow> Exited c | _ \<Rightarrow> Exited None))\<rparr>))"

definition kill_all :: "agent_state \<Rightarrow> agent_state" where
  "kill_all s = s\<lparr>commands := Map.empty,
     procs := (\<lambda>pid. if pid \<in> ran (commands s) \<and> procs s pid = Some Alive then Some (Exited None)
                     else procs s pid)\<rparr>"

section \<open>Fetching a result\<close>

text \<open>\<open>str::lines\<close>: no line after a final newline, a carriage return before it dropped.\<close>

definition chomp_cr :: "string \<Rightarrow> string" where
  "chomp_cr l = (if l \<noteq> [] \<and> last l = CHR 0x0D then butlast l else l)"

definition str_lines :: "string \<Rightarrow> string list" where
  "str_lines out = (let ws = split_on (CHR 0x0A) out;
      body = map chomp_cr (butlast ws) in if last ws = [] then body else body @ [last ws])"

definition trim_output :: "string \<Rightarrow> nat option \<Rightarrow> nat option \<Rightarrow> string" where
  "trim_output out head tail =
     (let l1 = (case head of None \<Rightarrow> str_lines out | Some h \<Rightarrow> take h (str_lines out));
          l2 = (case tail of None \<Rightarrow> l1 | Some t \<Rightarrow> drop (length l1 - t) l1)
      in join_lines l2)"

definition fetch_command_result :: "json \<Rightarrow> agent_state \<Rightarrow> agent_error + json" where
  "fetch_command_result params s = (case of_get_command_result_params params of
     None \<Rightarrow> Inl SerdeError
   | Some p \<Rightarrow> (case results s (unat (gcp_execution_id p)) of
       None \<Rightarrow> Inl (Failed (''unknown execution id: '' @ show_nat (unat (gcp_execution_id p))))
     | Some r \<Rightarrow> Inr (get_command_result_json \<lparr>gcr_done = cr_done r,
         gcr_exit_code = (if cr_done r then cr_exit_code r else None),
         gcr_timed_out = (if cr_done r then Some (cr_timed_out r) else None),
         gcr_output = trim_output (cr_output r) (map_option unat (gcp_head p)) (map_option unat (gcp_tail p))\<rparr>)))"

section \<open>Steps\<close>

text \<open>What needs the lock of \<open>commands\<close> waits while a task holds it; processes exit by themselves.\<close>

inductive agent_step :: "agent_state \<Rightarrow> json list \<Rightarrow> agent_state \<Rightarrow> bool" where
  ag_start: "commands_lock s = None \<Longrightarrow> tasks s tid = None \<Longrightarrow> procs s pid = None \<Longrightarrow>
     start_command tid pid i p s = (s', answer_now) \<Longrightarrow>
     agent_step s (case answer_now of None \<Rightarrow> [] | Some v \<Rightarrow> [response_value i (Some v) None]) s'"
| ag_line: "tasks s tid = Some t \<Longrightarrow> t_phase t = Streaming \<Longrightarrow> task_line tid t stream line s = (s', out) \<Longrightarrow>
     agent_step s out s'"
| ag_eof: "tasks s tid = Some t \<Longrightarrow> t_phase t = Streaming \<Longrightarrow> agent_step s [] (task_eof tid t s)"
| ag_lock: "tasks s tid = Some t \<Longrightarrow> t_phase t = Draining \<Longrightarrow> commands_lock s = None \<Longrightarrow>
     agent_step s [] (task_lock tid t s)"
| ag_reap: "tasks s tid = Some t \<Longrightarrow> t_phase t = WaitingChild \<Longrightarrow> commands s (t_id t) = Some pid \<Longrightarrow>
     procs s pid = Some (Exited code) \<Longrightarrow> finish_command tid t code False s = (s', out) \<Longrightarrow>
     agent_step s out s'"
| ag_timeout: "tasks s tid = Some t \<Longrightarrow> t_timeout t = Some secs \<Longrightarrow> 0 < secs \<Longrightarrow>
     commands_lock s \<in> {None, Some tid} \<Longrightarrow> task_timeout tid t s = (s', out) \<Longrightarrow> agent_step s out s'"
| ag_kill_all: "commands_lock s = None \<Longrightarrow> agent_step s [] (kill_all s)"
| ag_exit: "procs s pid = Some Alive \<Longrightarrow> agent_step s [] (s\<lparr>procs := (procs s)(pid \<mapsto> Exited code)\<rparr>)"

definition agent_moves :: "agent_state \<Rightarrow> agent_state \<Rightarrow> bool" where
  "agent_moves s t \<longleftrightarrow> (\<exists>out. agent_step s out t)"

lemmas agent_op_defs = start_command_def task_line_def task_eof_def task_lock_def panic_task_def
  finish_command_def task_timeout_def kill_all_def

end
