(* ===== verification/Agent_Commands_Props.thy ===== *)
theory Agent_Commands_Props
  imports Agent_Commands
begin

text \<open>The invariant of the command tasks and the properties of \<open>run_command\<close>.\<close>

section \<open>The lock invariant\<close>

definition agent_inv :: "agent_state \<Rightarrow> bool" where
  "agent_inv s \<longleftrightarrow>
     (\<forall>tid t. tasks s tid = Some t \<and> t_phase t = WaitingChild \<longrightarrow> commands_lock s = Some tid) \<and>
     (\<forall>tid. commands_lock s = Some tid \<longrightarrow>
        (\<exists>t. tasks s tid = Some t \<and> t_phase t = WaitingChild \<and> commands s (t_id t) \<noteq> None))"

lemma agent_inv_new: "agent_inv new_agent_state"
  by (simp add: agent_inv_def new_agent_state_def)

lemma task_line_effect:
  assumes "task_line tid t stream line s = (s', out)"
  shows "commands s' = commands s" and "commands_lock s' = commands_lock s" and "procs s' = procs s"
    and "tasks s' = tasks s \<or> (\<exists>o'. tasks s' = (tasks s)(tid \<mapsto> t\<lparr>t_output := o'\<rparr>))"
    and "dom (results s) = dom (results s')"
    and "x \<noteq> t_id t \<Longrightarrow> results s' x = results s x"
  using assms by (auto simp: task_line_def Let_def split: if_splits option.splits)

lemma finish_command_effect:
  assumes "finish_command tid t code timed_out s = (s', out)"
  shows "commands s' = (if t_background t then commands s else (commands s)(t_id t := None))"
    and "commands_lock s' = (if commands_lock s = Some tid then None else commands_lock s)"
    and "tasks s' = (tasks s)(tid := None)" and "procs s' = procs s"
    and "dom (results s) = dom (results s')"
    and "x \<noteq> t_id t \<Longrightarrow> results s' x = results s x"
  using assms by (auto simp: finish_command_def Let_def split: if_splits option.splits)

lemma task_timeout_effect:
  assumes "task_timeout tid t s = (s', out)"
  shows "tasks s' = (tasks s)(tid := None)"
    and "commands_lock s' = (if commands_lock s = Some tid then None else commands_lock s)"
    and "dom (results s) = dom (results s')"
proof -
  have "tasks s' = (tasks s)(tid := None) \<and>
    commands_lock s' = (if commands_lock s = Some tid then None else commands_lock s) \<and>
    dom (results s) = dom (results s')"
  proof (cases "commands s (t_id t)")
    case None
    then show ?thesis using assms by (auto simp: task_timeout_def panic_task_def)
  next
    case (Some pid)
    then have "finish_command tid t None True
        (s\<lparr>procs := (procs s)(pid \<mapsto> (case procs s pid of Some (Exited c) \<Rightarrow> Exited c | _ \<Rightarrow> Exited None))\<rparr>) = (s', out)"
      using assms by (simp add: task_timeout_def)
    from finish_command_effect(2,3,5) [OF this] show ?thesis by simp
  qed
  then show "tasks s' = (tasks s)(tid := None)"
    and "commands_lock s' = (if commands_lock s = Some tid then None else commands_lock s)"
    and "dom (results s) = dom (results s')" by simp_all
qed

lemma start_command_effect:
  assumes "start_command tid pid i p s = (s', r)"
  shows "commands s' = (commands s)(i \<mapsto> pid)" and "commands_lock s' = commands_lock s"
    and "\<exists>t. tasks s' = (tasks s)(tid \<mapsto> t) \<and> t_phase t = Streaming \<and> t_id t = i"
    and "procs s' = (procs s)(pid \<mapsto> Alive)"
    and "dom (results s) \<subseteq> dom (results s')"
  using assms by (auto simp: start_command_def Let_def split: if_splits)

lemma agent_step_keeps: "agent_step s out s' \<Longrightarrow> agent_inv s \<Longrightarrow> agent_inv s'"
proof (induction rule: agent_step.induct)
  case (ag_start s tid pid i p s' answer_now)
  note e = start_command_effect [OF ag_start(4)]
  then show ?case using ag_start(1,2,5) by (auto simp: agent_inv_def split: if_splits)
next
  case (ag_line s tid t stream line s' out)
  note e = task_line_effect [OF ag_line(3)]
  then show ?case using ag_line by (auto simp: agent_inv_def split: if_splits)
next
  case (ag_eof s tid t)
  then show ?case by (auto simp: agent_inv_def task_eof_def split: if_splits)
next
  case (ag_lock s tid t)
  then show ?case
    by (auto simp: agent_inv_def task_lock_def panic_task_def split: option.splits if_splits)
next
  case (ag_reap s tid t pid code s' out)
  note e = finish_command_effect [OF ag_reap(5)]
  have "commands_lock s = Some tid" using ag_reap by (auto simp: agent_inv_def)
  then show ?case using ag_reap e by (auto simp: agent_inv_def)
next
  case (ag_timeout s tid t secs s' out)
  note e = task_timeout_effect [OF ag_timeout(5)]
  have "commands_lock s' = None" using e(2) ag_timeout(4) by auto
  moreover have only: "x = tid" if "tasks s x = Some t'" "t_phase t' = WaitingChild" for x t'
  proof -
    have "commands_lock s = Some x" using that ag_timeout(6) unfolding agent_inv_def by blast
    then show ?thesis using ag_timeout(4) by simp
  qed
  moreover have "\<not> (tasks s' x = Some t' \<and> t_phase t' = WaitingChild)" for x t'
    using only [of x t'] e(1) by (cases "x = tid") auto
  ultimately show ?case unfolding agent_inv_def by simp
next
  case (ag_kill_all s)
  then show ?case by (auto simp: agent_inv_def kill_all_def)
next
  case (ag_exit s pid code)
  then show ?case by (simp add: agent_inv_def)
qed

interpretation agent_tasks: step_invariant agent_moves agent_inv
  by unfold_locales (auto simp: agent_moves_def intro: agent_step_keeps)

lemma reachable_agent_inv: "agent_moves\<^sup>*\<^sup>* new_agent_state s \<Longrightarrow> agent_inv s"
  by (rule agent_tasks.steps_keep [OF _ agent_inv_new])

section \<open>Waited commands\<close>

text \<open>A waited command that ends is answered twice. Its task sends the finished
  notification and the result under the request's id, and returns \<open>null\<close> to the dispatcher,
  which sends that as a second response with the same id.\<close>

theorem waited_command_answers_twice:
  assumes "\<not> t_background t" and "finish_command tid t code timed_out s = (s', out)"
  shows "filter is_response out =
      [response_value (t_id t) (Some (run_command_result_json \<lparr>rcr_exit_code = code,
         rcr_timed_out = timed_out, rcr_output = t_output t, rcr_execution_id = None\<rparr>)) None,
       response_value (t_id t) (Some JNull) None] \<and>
    commands s' (t_id t) = None \<and> tasks s' tid = None"
  using assms by (auto simp: finish_command_def Let_def)

definition sample_task :: task where
  "sample_task = \<lparr>t_id = 3, t_background = False, t_timeout = None, t_phase = WaitingChild, t_output = ''ok''\<rparr>"

theorem waited_command_answers_twice_witness:
  "length (filter is_response (snd (finish_command 0 sample_task (Some 0) False new_agent_state))) = 2"
proof -
  have "\<not> t_background sample_task" by (simp add: sample_task_def)
  from waited_command_answers_twice [OF this surjective_pairing] show ?thesis by simp
qed

section \<open>Background commands\<close>

text \<open>A result is kept for ever: no step of the agent, not even fetching it, removes the
  entry of a background command, so the map grows with every command; the comment of
  \<open>CommandResult\<close> says it is tracked until it is fetched.\<close>

theorem results_never_removed:
  assumes "agent_moves\<^sup>*\<^sup>* s s'" shows "dom (results s) \<subseteq> dom (results s')"
  using assms
proof (induction rule: rtranclp_induct)
  case (step s1 s2)
  from step(2) obtain out where "agent_step s1 out s2" by (auto simp: agent_moves_def)
  then have "dom (results s1) \<subseteq> dom (results s2)"
  proof (cases rule: agent_step.cases)
    case (ag_line tid t stream line)
    then show ?thesis using task_line_effect(5) by blast
  next
    case (ag_lock tid t)
    then show ?thesis by (simp add: task_lock_def panic_task_def split: option.split)
  next
    case (ag_reap tid t pid code)
    then show ?thesis using finish_command_effect(5) by blast
  next
    case (ag_timeout tid t secs)
    then show ?thesis using task_timeout_effect(3) by blast
  qed (auto simp: task_eof_def kill_all_def dest: start_command_effect(5))
  with step.IH show ?case by blast
qed simp

definition sample_params :: "bool \<Rightarrow> run_command_params" where
  "sample_params wait = \<lparr>rc_command = ''make'', rc_cwd = None, rc_env = None, rc_timeout_secs = None,
     rc_input = None, rc_wait = Some wait\<rparr>"

definition started :: agent_state where
  "started = fst (start_command 0 0 7 (sample_params False) new_agent_state)"

lemma started_reachable: "agent_moves\<^sup>*\<^sup>* new_agent_state started"
proof (rule r_into_rtranclp, unfold agent_moves_def, rule exI, rule ag_start)
  show "start_command 0 0 7 (sample_params False) new_agent_state =
      (started, snd (start_command 0 0 7 (sample_params False) new_agent_state))"
    by (simp add: started_def)
qed (simp_all add: new_agent_state_def)

lemma started_state:
  "results started = [7 \<mapsto> empty_result]" "commands started = [7 \<mapsto> 0]" "procs started = [0 \<mapsto> Alive]"
  "commands_lock started = None"
  "tasks started = [0 \<mapsto> \<lparr>t_id = 7, t_background = True, t_timeout = None, t_phase = Streaming, t_output = []\<rparr>]"
  by (simp_all add: started_def start_command_def sample_params_def background_def new_agent_state_def Let_def
      opt_or_def)

theorem results_never_removed_witness: "7 \<in> dom (results (kill_all started))"
proof -
  have "agent_moves\<^sup>*\<^sup>* started (kill_all started)"
    unfolding agent_moves_def by (intro r_into_rtranclp exI, rule ag_kill_all, rule started_state(4))
  from results_never_removed [OF this] started_state(1) show ?thesis by auto
qed


section \<open>Waiting under the lock\<close>

text \<open>C24: a command that closes its output but keeps running blocks the agent's commands. Its
  task waits for the child holding the lock of the command map; unless the command has a
  timeout, every further step leaves the lock held and the map as it is, so no command
  starts and \<open>kill_all\<close> does not run, until the child exits by itself.\<close>

theorem waiting_child_blocks_commands:
  assumes "agent_moves\<^sup>*\<^sup>* new_agent_state s" and "commands_lock s = Some tid"
    and "tasks s tid = Some t" and "t_timeout t = None \<or> t_timeout t = Some 0"
    and "commands s (t_id t) = Some pid" and "procs s pid = Some Alive" and "agent_step s out s'"
  shows "commands_lock s' = Some tid \<and> commands s' = commands s"
  using assms(7)
proof (cases rule: agent_step.cases)
  case (ag_line tid' t' stream line)
  then show ?thesis using task_line_effect(1,2) assms(2) by metis
next
  case (ag_reap tid' t' pid' code)
  then have "commands_lock s = Some tid'"
    using reachable_agent_inv [OF assms(1)] by (auto simp: agent_inv_def)
  with ag_reap assms show ?thesis by simp
next
  case (ag_timeout tid' t' secs)
  with assms show ?thesis by simp
qed (use assms in \<open>simp_all add: task_eof_def\<close>)

text \<open>A command whose output is closed while it runs on.\<close>

definition daemonised :: agent_state where
  "daemonised = (let t = \<lparr>t_id = 7, t_background = True, t_timeout = None, t_phase = Streaming, t_output = []\<rparr>
     in task_lock 0 (t\<lparr>t_phase := Draining\<rparr>) (task_eof 0 t started))"

theorem waiting_child_blocks_commands_witness:
  "commands_lock (daemonised\<lparr>procs := (procs daemonised)(0 \<mapsto> Exited (Some 0))\<rparr>) = Some 0 \<and>
   commands daemonised = [7 \<mapsto> 0]"
proof -
  let ?t = "\<lparr>t_id = 7, t_background = True, t_timeout = None, t_phase = Draining, t_output = []\<rparr>"
  define s1 where "s1 = task_eof 0 (?t\<lparr>t_phase := Streaming\<rparr>) started"
  have d: "daemonised = task_lock 0 ?t s1" by (simp add: daemonised_def s1_def Let_def)
  have s1: "commands s1 = [7 \<mapsto> 0]" "commands_lock s1 = None" "procs s1 = [0 \<mapsto> Alive]" "tasks s1 0 = Some ?t"
    by (simp_all add: s1_def task_eof_def started_state)
  have "agent_moves started s1" unfolding agent_moves_def s1_def
    by (rule exI, rule ag_eof) (simp_all add: started_state)
  moreover have "agent_moves s1 daemonised" unfolding agent_moves_def d
    by (rule exI, rule ag_lock) (simp_all add: s1)
  ultimately have r: "agent_moves\<^sup>*\<^sup>* new_agent_state daemonised"
    using started_reachable by (meson rtranclp.rtrancl_into_rtrancl)
  have s: "commands_lock daemonised = Some 0" "tasks daemonised 0 = Some (?t\<lparr>t_phase := WaitingChild\<rparr>)"
    "commands daemonised = [7 \<mapsto> 0]" "procs daemonised 0 = Some Alive"
    using s1 by (simp_all add: d task_lock_def)
  have "agent_step daemonised [] (daemonised\<lparr>procs := (procs daemonised)(0 \<mapsto> Exited (Some 0))\<rparr>)"
    by (rule ag_exit [OF s(4)])
  from waiting_child_blocks_commands [OF r s(1,2) _ _ s(4) this] s(3) show ?thesis by simp
qed

section \<open>Trimming the output\<close>

definition clean_line :: "string \<Rightarrow> bool" where
  "clean_line l \<longleftrightarrow> CHR 0x0A \<notin> set l \<and> (l = [] \<or> last l \<noteq> CHR 0x0D)"

definition as_output :: "string list \<Rightarrow> string" where
  "as_output ls = concat (map (\<lambda>l. l @ [CHR 0x0A]) ls)"

lemma split_as_output:
  "\<forall>l \<in> set ls. CHR 0x0A \<notin> set l \<Longrightarrow> split_on (CHR 0x0A) (as_output ls) = ls @ [[]]"
  by (induction ls) (auto simp: as_output_def split_on_sep)

lemma str_lines_as_output:
  assumes "\<forall>l \<in> set ls. clean_line l"
  shows "str_lines (as_output ls) = ls"
proof -
  have "map chomp_cr ls = ls" using assms by (intro map_idI) (auto simp: clean_line_def chomp_cr_def)
  then show ?thesis
    using split_as_output [of ls] assms by (simp add: str_lines_def clean_line_def)
qed

text \<open>Fetching a result gives whole lines. Of the output the task accumulated line by
  line, \<open>head\<close> keeps the first lines, then \<open>tail\<close> the last of those, joined by newlines.\<close>

theorem trim_output_takes_lines:
  assumes "\<forall>l \<in> set ls. clean_line l"
  shows "trim_output (as_output ls) None None = join_lines ls \<and>
    trim_output (as_output ls) (Some h) None = join_lines (take h ls) \<and>
    trim_output (as_output ls) None (Some t) = join_lines (drop (length ls - t) ls) \<and>
    trim_output (as_output ls) (Some h) (Some t) =
      join_lines (drop (min (length ls) h - t) (take h ls))"
  using str_lines_as_output [OF assms] by (simp add: trim_output_def)

theorem trim_output_takes_lines_witness:
  "trim_output (as_output [''a'', ''b'', ''c'']) (Some 2) (Some 1) = ''b''"
proof -
  have "\<forall>l \<in> set [''a'', ''b'', ''c'']. clean_line l" by (simp add: clean_line_def)
  from trim_output_takes_lines [OF this, of 2 1] show ?thesis by simp
qed

end
