(* ===== verification/Os_Fs_Props.thy ===== *)
theory Os_Fs_Props
  imports Os_Fs
begin

text \<open>
  Path walks and file contents: a walk depends only on which paths are directories and links,
  so writing to a file leaves every walk as it was, and creating a file at the end of a walk
  makes the walk end there.
\<close>

fun node_shape :: "node option \<Rightarrow> string option option" where
  "node_shape None = None"
| "node_shape (Some (NDir _)) = Some None"
| "node_shape (Some (NLink _ t)) = Some (Some (CHR ''l'' # t))"
| "node_shape (Some _) = Some (Some [])"

lemma resolve_same_shape:
  assumes "\<And>x. node_shape (node_at s' x) = node_shape (node_at s x)"
  shows "resolve n s' follow cur p = resolve n s follow cur p"
  using assms
proof (induction n s follow cur p rule: resolve.induct)
  case (5 n s follow cur w r)
  note sh = "5.prems" [of "cur @ [Normal w]"]
  show ?case
  proof (cases "node_at s (cur @ [Normal w])")
    case None
    then have "node_at s' (cur @ [Normal w]) = None"
      using sh by (cases "node_at s' (cur @ [Normal w])" rule: node_shape.cases) auto
    then show ?thesis using None by simp
  next
    case (Some m)
    then show ?thesis
      using 5 sh
      by (cases m; cases "node_at s' (cur @ [Normal w])" rule: node_shape.cases)
        (auto split: nat.split)
  qed
qed simp_all

lemma resolve_new_file:
  assumes "resolve n s follow cur p = Inr r" and "node_at s x = None"
  shows "resolve n (put_node x (NFile m b) s) follow cur p = Inr r"
  using assms
proof (induction n s follow cur p rule: resolve.induct)
  case (5 n s follow cur w rest)
  show ?case
  proof (cases "node_at s (cur @ [Normal w])")
    case None
    then show ?thesis using "5.prems" by (auto split: if_splits)
  next
    case (Some y)
    then have "cur @ [Normal w] \<noteq> x" using "5.prems"(2) by auto
    then show ?thesis using 5 Some by (cases y) (auto split: nat.splits if_splits)
  qed
qed simp_all

lemma os_path_new_file:
  assumes "os_path s follow p = Inr q" and "node_at s x = None"
  shows "os_path (put_node x (NFile m b) s) follow p = Inr q"
  using assms resolve_new_file [of MAX_LINKS s follow "cwd s" p q x m b]
  by (auto simp: os_path_def split: sum.splits if_splits)

lemma os_path_same_shape:
  assumes "\<And>x. node_shape (node_at s' x) = node_shape (node_at s x)" and "cwd s' = cwd s" and "denied s' = denied s"
  shows "os_path s' follow p = os_path s follow p"
  using resolve_same_shape [OF assms(1)] assms(2,3) by (simp add: os_path_def cong: sum.case_cong)

lemma os_modify_simps [simp]:
  "denied (os_modify f q s) = denied s" "cwd (os_modify f q s) = cwd s" "now_secs (os_modify f q s) = now_secs s"
  by (auto simp: os_modify_def split: option.split node.split)

lemma node_at_modify:
  "node_at (os_modify f q s) x =
     (if x = q then (case node_at s q of Some (NFile m b) \<Rightarrow> Some (NFile (touch s m) (f b)) | n \<Rightarrow> n)
      else node_at s x)"
  by (auto simp: os_modify_def split: option.splits node.splits)

lemma os_path_modify [simp]: "os_path (os_modify f q s) follow p = os_path s follow p"
  by (rule os_path_same_shape) (auto simp: node_at_modify split: option.split node.split)

lemma os_node_modify:
  assumes "os_node s follow p = Inr (q, NFile m b)"
  shows "os_node (os_modify f q s) follow p = Inr (q, NFile (touch s m) (f b))"
  using assms by (auto simp: os_node_def node_at_modify split: sum.splits option.splits)

lemma os_node_modify_other:
  assumes "os_node s follow p = Inr (x, n)" and "x \<noteq> q"
  shows "os_node (os_modify f q s) follow p = Inr (x, n)"
  using assms by (auto simp: os_node_def node_at_modify split: sum.splits option.splits)

lemma os_node_new_file:
  assumes "os_path s follow p = Inr q" and "node_at s q = None"
  shows "os_node (put_node q (NFile m b) s) follow p = Inr (q, NFile m b)"
  using os_path_new_file [OF assms] by (simp add: os_node_def)

lemma node_at_move_tree_dest:
  assumes "p \<noteq> q"
  shows "node_at (move_tree p q s) q = node_at s p"
proof -
  have "map_of (map (\<lambda>(x, n). (if x = p \<or> below p x then q @ drop (length p) x else x, n))
      (filter (\<lambda>(x, _). x \<noteq> q) xs)) q = map_of xs p" for xs :: "(path \<times> node) list"
  proof (induction xs)
    case (Cons y xs)
    obtain a n where y: "y = (a, n)" by (cases y)
    have "q \<noteq> q @ drop (length p) a" if "below p a" using that by (auto simp: below_def)
    then show ?case using Cons assms by (cases "below p a") (auto simp: y)
  qed simp
  then show ?thesis by (simp add: node_at_def move_tree_def)
qed

section \<open>Replacing a file by way of a temporary one\<close>

definition same_but :: "path \<Rightarrow> os \<Rightarrow> os \<Rightarrow> bool" where
  "same_but t fs fs' \<longleftrightarrow> (\<forall>follow p. os_path fs' follow p = os_path fs follow p) \<and>
     (\<forall>x. x \<noteq> t \<longrightarrow> node_at fs' x = node_at fs x)"

lemma same_but_refl [simp]: "same_but t fs fs"
  by (simp add: same_but_def)

lemma same_but_write: "same_but t fs (os_modify f t fs)"
  by (simp add: same_but_def node_at_modify)

lemma same_but_trans: "same_but t a b \<Longrightarrow> same_but t b c \<Longrightarrow> same_but t a c"
  by (simp add: same_but_def)

text \<open>The temporary file is new, the destination is absent or a file, and they are not the same.\<close>

definition replace_ready :: "os \<Rightarrow> path \<Rightarrow> path \<Rightarrow> path \<Rightarrow> path \<Rightarrow> bool" where
  "replace_ready fs temp t q x \<longleftrightarrow> (\<forall>follow. os_path fs follow temp = Inr t) \<and> node_at fs t = None \<and>
     os_path fs False q = Inr x \<and> x \<noteq> t \<and> (\<forall>n. node_at fs x = Some n \<longrightarrow> (\<exists>m c. n = NFile m c))"

lemma replace_ready_create:
  assumes "replace_ready fs temp t q x"
  shows "os_create_file mode temp fs = (Inr t, put_node t (NFile (new_meta fs mode) []) fs)"
    and "os_node (put_node t (NFile (new_meta fs mode) []) fs) True temp = Inr (t, NFile (new_meta fs mode) [])"
    and "node_at fs t = None"
proof -
  have p: "os_path fs True temp = Inr t" "node_at fs t = None" using assms by (auto simp: replace_ready_def)
  show "os_create_file mode temp fs = (Inr t, put_node t (NFile (new_meta fs mode) []) fs)" "node_at fs t = None"
    using p by (simp_all add: os_create_file_def)
  show "os_node (put_node t (NFile (new_meta fs mode) []) fs) True temp = Inr (t, NFile (new_meta fs mode) [])"
    by (rule os_node_new_file [OF p])
qed

lemma replace_ready_finish:
  assumes "replace_ready fs temp t q x" and "same_but t (put_node t (NFile m0 b0) fs) fs'"
    and "node_at fs' t = Some (NFile m b)"
  shows "node_at fs' x = node_at fs x"
    and "os_rename temp q fs' = (Inr (), move_tree t x fs')"
    and "os_remove_file temp fs' = (Inr (), del_node t fs')"
    and "os_open_write temp fs' = Inr t"
    and "node_at (move_tree t x fs') x = Some (NFile m b)"
proof -
  note d = assms(1) [unfolded replace_ready_def]
  have p: "os_path fs' follow temp = Inr t" "os_path fs' False q = Inr x" for follow
    using d assms(2) os_path_new_file by (simp_all add: same_but_def)
  show x: "node_at fs' x = node_at fs x" using assms(2) d by (simp add: same_but_def)
  show "os_rename temp q fs' = (Inr (), move_tree t x fs')"
    using p assms(3) x d by (auto simp: os_rename_def os_node_def split: option.split node.split)
  show "os_remove_file temp fs' = (Inr (), del_node t fs')" "os_open_write temp fs' = Inr t"
    using p assms(3) by (simp_all add: os_remove_file_def os_node_def os_open_write_def)
  have "t \<noteq> x" using d by blast
  then show "node_at (move_tree t x fs') x = Some (NFile m b)"
    using node_at_move_tree_dest [of t x] assms(3) by simp
qed

end
