(* ===== verification/Agent_Files_Props.thy ===== *)
theory Agent_Files_Props
  imports Agent_Files Os_Fs_Props "HOL-Library.Multiset"
begin

text \<open>The properties of the agent's file operations.\<close>

section \<open>A sample file system\<close>

definition sample_meta :: metadata where
  "sample_meta = \<lparr>m_mode = 420, m_uid = 0, m_gid = 0, m_mtime = 5\<rparr>"

definition sample_os :: os where
  "sample_os = \<lparr>nodes = [([RootDir], NDir sample_meta), ([RootDir, Normal ''d''], NDir sample_meta),
      ([RootDir, Normal ''d'', Normal ''f''], NFile sample_meta [1, 2, 3])],
    denied = {}, cwd = [RootDir], now_secs = 9, umask = 18, own_uid = 0, own_gid = 0\<rparr>"

definition raw_enc :: "bytes \<Rightarrow> string" where "raw_enc b = map (\<lambda>w. char_of (unat w)) b"
definition raw_dec :: "string \<Rightarrow> bytes option" where "raw_dec s = Some (map (\<lambda>c. of_nat (of_char c)) s)"

lemma raw_law: "raw_dec (raw_enc b) = Some b"
proof -
  have "unat w mod 256 = unat w" for w :: byte using unsigned_less [where 'a = nat, of w] by simp
  then show ?thesis by (simp add: raw_dec_def raw_enc_def o_def)
qed

lemma raw_length: "length (raw_enc b) = length b"
  by (simp add: raw_enc_def)

lemma sample_walk:
  "resolve MAX_LINKS sample_os follow [RootDir] [RootDir, Normal ''d'', Normal ''f''] =
     Inr [RootDir, Normal ''d'', Normal ''f'']"
  by (simp add: sample_os_def node_at_def)

lemma sample_path_of: "path_of ''/d/f'' = [RootDir, Normal ''d'', Normal ''f'']"
  by (simp add: path_of_def starts_with_def comps_of_def)

lemma sample_node:
  "os_node sample_os follow (path_of ''/d/f'') =
     Inr ([RootDir, Normal ''d'', Normal ''f''], NFile sample_meta [1, 2, 3])"
  unfolding sample_path_of os_node_def os_path_def
  using sample_walk by (simp add: sample_os_def node_at_def)

section \<open>Reading\<close>

text \<open>C19: \<open>read_file\<close> returns the bytes from the offset, as many as the limit and one read of
  the file give, and its \<open>eof\<close> means "fewer than asked for". Up to 2 MiB that is exactly the
  end of the file; a larger limit (8 MiB is accepted) is cut to 2 MiB by the file buffer and
  reported as \<open>eof\<close> although the file goes on.\<close>

theorem read_file_window:
  assumes "of_read_file_params params = Some p" and "os_open_read (path_of (rf_path p)) s = Inr q"
    and "node_at s q = Some (NFile m b)"
    and "off = unat (opt_or 0 (rf_offset p))" and "limit = unat (opt_or (1024 * 1024) (rf_limit p))"
    and "limit \<le> MAX_DIRECT_FILE_BYTES" and "seek_ok off"
  shows "agent_read_file enc params s = (Inr (read_file_result_json
      \<lparr>rfr_data = enc (read_once off limit b), rfr_eof = length (read_once off limit b) < limit\<rparr>), s) \<and>
    (limit \<le> os_read_cap \<longrightarrow>
       (length (read_once off limit b) < limit \<longleftrightarrow> length b < off + limit \<and> 0 < limit) \<and>
       read_once off limit b = take limit (drop off b)) \<and>
    (os_read_cap < limit \<longrightarrow> length (read_once off limit b) < limit)"
proof -
  have "agent_read_file enc params s = (Inr (read_file_result_json
      \<lparr>rfr_data = enc (read_once off limit b), rfr_eof = length (read_once off limit b) < limit\<rparr>), s)"
    using assms by (simp add: agent_read_file_def os_read_at_def Let_def)
  moreover have "length (read_once off limit b) = min (min limit os_read_cap) (length b - off)"
    by (simp add: read_once_def min.commute)
  ultimately show ?thesis by (auto simp: read_once_def min_def)
qed

lemma opt_or_simps [simp]: "opt_or d None = d" "opt_or d (Some v) = v"
  by (simp_all add: opt_or_def)

theorem read_file_window_witness:
  "agent_read_file raw_enc (read_file_params_json \<lparr>rf_path = ''/d/f'', rf_offset = Some 1, rf_limit = Some 8\<rparr>) sample_os =
     (Inr (read_file_result_json \<lparr>rfr_data = raw_enc [2, 3], rfr_eof = True\<rparr>), sample_os)"
proof -
  let ?p = "\<lparr>rf_path = ''/d/f'', rf_offset = Some (1 :: 64 word), rf_limit = Some (8 :: 64 word)\<rparr>"
  have "os_open_read (path_of (rf_path ?p)) sample_os = Inr [RootDir, Normal ''d'', Normal ''f'']"
    by (simp add: os_open_read_def sample_node)
  moreover have "node_at sample_os [RootDir, Normal ''d'', Normal ''f''] = Some (NFile sample_meta [1, 2, 3])"
    by (simp add: sample_os_def node_at_def)
  ultimately have "agent_read_file raw_enc (read_file_params_json ?p) sample_os = (Inr (read_file_result_json
      \<lparr>rfr_data = raw_enc (read_once 1 8 [1, 2, 3]), rfr_eof = length (read_once 1 8 [1, 2, 3::byte]) < 8\<rparr>), sample_os)"
    using read_file_window [OF read_file_params_roundtrip [of ?p], of sample_os _ sample_meta "[1, 2, 3]" 1 8 raw_enc]
    by (simp add: MAX_DIRECT_FILE_BYTES_def seek_ok_def)
  then show ?thesis by (simp add: read_once_def os_read_cap_def)
qed

section \<open>Writing\<close>



text \<open>Copying a file onto itself destroys it: the destination is emptied when it is opened
  and there is nothing left to copy; the handler answers success.\<close>

theorem copy_onto_itself_empties:
  assumes "of_copy_params params = Some p" and "cp_to p = cp_from p"
    and "os_node s True (path_of (cp_from p)) = Inr (q, NFile m b)"
    and "os_node s False (path_of (cp_from p)) = Inr (q, NFile m b)"
    and "is_dir s (butlast (path_of (cp_from p)))"
    and "parent (path_of (cp_from p)) = Some (butlast (path_of (cp_from p)))"
    and "os_create_dir 511 (butlast (path_of (cp_from p))) s = (Inl AlreadyExists, s)"
  shows "\<exists>s'. agent_copy fuel params s = Some (Inr JNull, s') \<and> (\<exists>m'. node_at s' q = Some (NFile m' []))"
proof -
  let ?p = "path_of (cp_from p)"
  have n: "node_at s q = Some (NFile m b)" and pa: "os_path s True ?p = Inr q"
    using assms(3) by (auto simp: os_node_def split: sum.splits option.splits)
  have "os_create_dir_all (butlast ?p) s = (Inr (), s)"
    using assms(5,7) by (subst os_create_dir_all.simps) simp
  moreover have "os_create_file (m_mode m) ?p s = (Inr q, put_node q (NFile (touch s m) []) s)"
    using n pa by (simp add: os_create_file_def)
  ultimately show ?thesis
    using assms by (simp add: agent_copy_def os_copy_file_def answer_def Let_def)
qed

theorem copy_onto_itself_empties_witness:
  "\<exists>s'. agent_copy 0 (copy_params_json \<lparr>cp_from = ''/d/f'', cp_to = ''/d/f'', cp_recursive = None\<rparr>) sample_os =
     Some (Inr JNull, s') \<and> (\<exists>m'. node_at s' [RootDir, Normal ''d'', Normal ''f''] = Some (NFile m' []))"
proof (rule copy_onto_itself_empties [OF copy_params_roundtrip])
  let ?p = "\<lparr>cp_from = ''/d/f'', cp_to = ''/d/f'', cp_recursive = None\<rparr>"
  show "is_dir sample_os (butlast (path_of (cp_from ?p)))"
    by (simp add: sample_path_of is_dir_def os_node_def os_path_def sample_os_def node_at_def)
  show "parent (path_of (cp_from ?p)) = Some (butlast (path_of (cp_from ?p)))"
    by (simp add: sample_path_of parent_def)
  show "os_create_dir 511 (butlast (path_of (cp_from ?p))) sample_os = (Inl AlreadyExists, sample_os)"
    by (simp add: sample_path_of os_create_dir_def os_path_def sample_os_def node_at_def)
qed (simp_all add: sample_node)

section \<open>Removing and listing\<close>



text \<open>\<open>list_dir\<close> lists every entry of the directory once, sorted by name, with its kind,
  size and time, without following symbolic links, and changes nothing.\<close>

theorem list_dir_sorted_and_complete:
  assumes "of_list_dir_params params = Some p" and "os_read_dir s (path_of (ld_path p)) = Inr es"
  shows "\<exists>entries. agent_list_dir params s = (Inr (list_dir_result_json \<lparr>ldr_entries = entries\<rparr>), s) \<and>
    sorted (map de_name entries) \<and> mset entries = mset (map dir_entry_of es)"
  using assms
  by (intro exI [of _ "sort_key de_name (map dir_entry_of es)"]) (simp add: agent_list_dir_def)

theorem list_dir_sorted_and_complete_witness:
  "\<exists>entries. fst (agent_list_dir (list_dir_params_json \<lparr>ld_path = ''/d''\<rparr>) sample_os) =
     Inr (list_dir_result_json \<lparr>ldr_entries = entries\<rparr>) \<and> map de_name entries = [''f'']"
proof -
  have "path_of ''/d'' = [RootDir, Normal ''d'']"
      by (simp add: path_of_def starts_with_def comps_of_def)
  then have rd: "os_read_dir sample_os (path_of (ld_path \<lparr>ld_path = ''/d''\<rparr>)) =
      Inr [(''f'', NFile sample_meta [1, 2, 3])]"
    by (simp add: os_read_dir_def os_node_def os_path_def sample_os_def node_at_def children_def below_def)
  from list_dir_sorted_and_complete [OF list_dir_params_roundtrip rd]
  obtain entries where e: "agent_list_dir (list_dir_params_json \<lparr>ld_path = ''/d''\<rparr>) sample_os =
      (Inr (list_dir_result_json \<lparr>ldr_entries = entries\<rparr>), sample_os)"
    "mset entries = mset (map dir_entry_of [(''f'', NFile sample_meta [1, 2, 3])])" by blast
  from e(2) have "entries = [dir_entry_of (''f'', NFile sample_meta [1, 2, 3])]" by simp
  with e(1) show ?thesis by (intro exI [of _ entries]) (simp add: dir_entry_of_def)
qed

end
