(* ===== verification/Agent_Conn.thy ===== *)
theory Agent_Conn
  imports Agent_Commands_Props Agent_Files_Props Relay_Props
begin

text \<open>
  The agent's connection (\<open>crates/agent/src/conn.rs\<close>): the handshake, the read loop, the
  dispatch of one request to its handler and the end of the session. The environment holds
  what is not in the repository: base64, the texts of serde's and base64's errors, the host,
  whether the shell can be started.
\<close>

section \<open>Dispatch\<close>

record agent_env =
  env_enc :: "bytes \<Rightarrow> string"
  env_dec :: "string \<Rightarrow> bytes option"
  serde_text :: string
  base64_text :: string
  env_hostname :: string
  env_pid :: "32 word"
  copy_fuel :: nat
  env_spawn :: "io_error option"
  fresh_task :: nat
  fresh_child :: nat

definition error_text :: "agent_env \<Rightarrow> agent_error \<Rightarrow> string" where
  "error_text env e = (case e of
     SerdeError \<Rightarrow> serde_text env
   | Base64Error \<Rightarrow> ''invalid base64: '' @ base64_text env
   | Failed m \<Rightarrow> m)"

text \<open>The file methods; \<open>None\<close> is a method that is not one of them.\<close>

definition file_method :: "agent_env \<Rightarrow> string \<Rightarrow> (json \<Rightarrow> os \<Rightarrow> handled) option" where
  "file_method env m =
     (if m = method_name READ_FILE then Some (agent_read_file (env_enc env))
      else if m = method_name WRITE_FILE then Some (agent_write_file (env_dec env))
      else if m = method_name LIST_DIR then Some agent_list_dir
      else if m = method_name STAT then Some agent_stat
      else if m = method_name MKDIR then Some agent_mkdir
      else if m = method_name REMOVE then Some agent_remove
      else if m = method_name RENAME then Some agent_rename
      else if m = method_name WRITE_AT then Some (agent_write_at (env_dec env))
      else if m = method_name TRUNCATE then Some agent_truncate
      else if m = method_name SYMLINK then Some agent_symlink
      else if m = method_name CHMOD then Some agent_chmod
      else None)"

definition reply :: "agent_env \<Rightarrow> nat \<Rightarrow> agent_error + json \<Rightarrow> json" where
  "reply env i r = (case r of
     Inr v \<Rightarrow> response_value i (Some v) None
   | Inl e \<Rightarrow> response_value i None (Some (rpc_error_new INTERNAL_ERROR (error_text env e))))"

text \<open>
  Frames sent, whether the request is still being worked on (a waited command, or a copy that
  has not ended), and the new states.
\<close>

type_synonym dispatched = "json list \<times> bool \<times> os \<times> agent_state"

definition dispatch_method ::
  "agent_env \<Rightarrow> nat \<Rightarrow> string \<Rightarrow> json \<Rightarrow> os \<Rightarrow> agent_state \<Rightarrow> dispatched" where
  "dispatch_method env i m params fs st =
     (if m = method_name RUN_COMMAND then
        (case check_command params (env_spawn env) of
           Inl e \<Rightarrow> ([reply env i (Inl e)], False, fs, st)
         | Inr p \<Rightarrow> (case start_command (fresh_task env) (fresh_child env) i p st of
             (st', None) \<Rightarrow> ([], True, fs, st')
           | (st', Some v) \<Rightarrow> ([reply env i (Inr v)], False, fs, st')))
      else if m = method_name GET_COMMAND_RESULT then
        ([reply env i (fetch_command_result params st)], False, fs, st)
      else if m = method_name COPY then
        (case agent_copy (copy_fuel env) params fs of
           None \<Rightarrow> ([], True, fs, st)
         | Some (r, fs') \<Rightarrow> ([reply env i r], False, fs', st))
      else if m = method_name STREAM_FILE then
        (case agent_stream_file (env_enc env) i params fs of
           (ns, r) \<Rightarrow> (ns @ [reply env i r], False, fs, st))
      else if m = method_name PING then
        ([reply env i (Inr (ping_result_json
            \<lparr>pr_ok = True, pr_hostname = env_hostname env, pr_pid = env_pid env\<rparr>))], False, fs, st)
      else (case file_method env m of
          Some h \<Rightarrow> (case h params fs of (r, fs') \<Rightarrow> ([reply env i r], False, fs', st))
        | None \<Rightarrow> ([response_value i None (Some (rpc_error_new METHOD_NOT_FOUND
              (''unknown method: '' @ m)))], False, fs, st)))"

definition dispatch :: "agent_env \<Rightarrow> json \<Rightarrow> os \<Rightarrow> agent_state \<Rightarrow> dispatched" where
  "dispatch env v fs st = (case Option.bind (get v ''id'') as_u64 of
     None \<Rightarrow> ([], False, fs, st)
   | Some i \<Rightarrow>
       dispatch_method env i
         (case Option.bind (get v ''method'') as_str of None \<Rightarrow> [] | Some m \<Rightarrow> m)
         (case get v ''params'' of None \<Rightarrow> JNull | Some p \<Rightarrow> p) fs st)"

section \<open>Handshake and read loop\<close>

text \<open>Frames before the relay's \<open>hello_ack\<close> are read and dropped; \<open>None\<close> if it never comes.\<close>

fun agent_handshake :: "json list \<Rightarrow> json list option" where
  "agent_handshake [] = None"
| "agent_handshake (v # vs) =
     (if Option.bind (get v ''method'') as_str = Some ''hello_ack'' then Some vs else agent_handshake vs)"

datatype session_end = StreamEnded | SocketFailed | PongFailed

text \<open>Messages with, for a ping, whether the pong could be sent; the frames handed to tasks.\<close>

fun serve :: "(string \<Rightarrow> json option) \<Rightarrow> (ws_message \<times> bool) list \<Rightarrow> json list \<times> session_end" where
  "serve parse [] = ([], StreamEnded)"
| "serve parse ((m, pong_ok) # ms) =
     (case m of
        Text t \<Rightarrow> (case parse t of
            None \<Rightarrow> serve parse ms
          | Some v \<Rightarrow> (case serve parse ms of (vs, e) \<Rightarrow> (v # vs, e)))
      | Close \<Rightarrow> ([], StreamEnded)
      | WsFailed \<Rightarrow> ([], SocketFailed)
      | Ping \<Rightarrow> if pong_ok then serve parse ms else ([], PongFailed)
      | _ \<Rightarrow> serve parse ms)"

text \<open>A failed pong leaves the function early, before the commands are killed.\<close>

definition end_session :: "session_end \<Rightarrow> agent_state \<Rightarrow> agent_state" where
  "end_session e st = (if e = PongFailed then st else kill_all st)"

section \<open>Properties\<close>

lemma reply_response [simp]: "is_response (reply env i r)" "get (reply env i r) ''id'' = Some (JInt (int i))"
  by (cases r; simp add: reply_def)+

lemma stream_notifications:
  assumes "agent_stream_file enc i params fs = (ns, r)" shows "filter is_response ns = []"
  using assms
  by (auto simp: agent_stream_file_def filter_empty_conv split: option.splits sum.splits node.splits if_splits)


definition sample_env :: agent_env where
  "sample_env = \<lparr>env_enc = raw_enc, env_dec = raw_dec, serde_text = ''bad params'', base64_text = ''bad data'',
     env_hostname = ''h'', env_pid = 1, copy_fuel = 3, env_spawn = None, fresh_task = 0, fresh_child = 0\<rparr>"


text \<open>When a session ends every tracked command is killed and forgotten, except when it ends
  because a pong could not be sent: then the function returns early and the commands of the
  dead session keep running.\<close>

theorem session_end_kills_commands:
  assumes "serve parse ms = (vs, e)"
  shows "(e \<noteq> PongFailed \<longrightarrow> commands (end_session e st) = Map.empty \<and>
      (\<forall>pid \<in> ran (commands st). procs (end_session e st) pid \<noteq> Some Alive)) \<and>
    (e = PongFailed \<longrightarrow> end_session e st = st \<and> (Ping, False) \<in> set ms)"
proof -
  have "serve parse ms = (vs, PongFailed) \<Longrightarrow> (Ping, False) \<in> set ms"
  proof (induction parse ms arbitrary: vs rule: serve.induct)
    case (2 parse m pong_ok ms)
    then show ?case by (cases m) (auto split: option.splits prod.splits if_splits)
  qed simp
  then show ?thesis using assms by (auto simp: end_session_def kill_all_def)
qed

theorem session_end_kills_commands_witness:
  "procs (end_session StreamEnded started) 0 \<noteq> Some Alive \<and> procs (end_session PongFailed started) 0 = Some Alive"
proof -
  have "0 \<in> ran (commands started)" by (simp add: started_state)
  then show ?thesis
    using session_end_kills_commands [of "\<lambda>_. None" "[]" "[]" StreamEnded started]
      session_end_kills_commands [of "\<lambda>_. None" "[(Ping, False)]" "[]" PongFailed started]
    by (simp add: started_state)
qed

text \<open>A request can be lost between registration and acknowledgement. The relay routes to an
  agent from its registration on, but the agent drops every frame before its \<open>hello_ack\<close>; such
  a request is forwarded, never dispatched, and no side answers it.\<close>

theorem request_before_ack_is_lost:
  assumes "hub_moves\<^sup>*\<^sup>* (new_hub required) s" and "live s c = Some (a, token, False)"
    and "get_vec (agents (app s)) token = [a]" and "accepts c"
    and "hint ''target'' v = None" and "hint ''session'' v = None"
    and "Option.bind (get v ''method'') as_str \<noteq> Some ''hello_ack''"
  shows "route_request accepts (app s) b token v = [(c, v)] \<and>
    (\<exists>ack. acknowledge accepts (app s) token a = [(c, ack)] \<and> agent_handshake [v, ack] = Some [])"
proof -
  have c: "rp_conn a = c" using hub_invD(3) [OF reachable_hub_inv [OF assms(1)] assms(2)] by simp
  have "route_request accepts (app s) b token v = [(c, v)]"
    using assms c by (simp add: route_request_def pick_agent_def relay_send_def)
  moreover have "\<exists>ack. acknowledge accepts (app s) token a = [(c, ack)] \<and> agent_handshake [v, ack] = Some []"
    using assms(4,7) c by (simp add: acknowledge_def relay_send_def Let_def)
  ultimately show ?thesis by blast
qed

theorem request_before_ack_is_lost_witness:
  "\<exists>ack. agent_handshake [request_value 1 ''ping'' JNull, ack] = Some [] \<and>
     acknowledge (\<lambda>_. True) (app sample_hub) ''t'' sample_agent = [(0, ack)]"
proof -
  have a: "get_vec (agents (app sample_hub)) ''t'' = [sample_agent]" by (simp add: sample_hub_app get_vec_def)
  have h: "hint ''target'' (request_value 1 ''ping'' JNull) = None"
    "hint ''session'' (request_value 1 ''ping'' JNull) = None"
    "Option.bind (get (request_value 1 ''ping'' JNull) ''method'') as_str \<noteq> Some ''hello_ack''"
    by (simp_all add: hint_def or_else_def)
  from request_before_ack_is_lost [OF sample_hub_reachable sample_hub_app(4) a, of "\<lambda>_. True", OF TrueI h]
  show ?thesis by blast
qed

end
