(* ===== verification/Inodes.thy ===== *)
theory Inodes
  imports Paths Protocol
begin

text \<open>
  The inode table of a mount (\<open>InodeMap\<close> of \<open>crates/bridge/src/fuse_fs.rs\<close>) and the mapping of
  the agent's error texts to error numbers.
\<close>

section \<open>The table\<close>

record inode_map =
  ino_next :: nat
  by_ino :: "nat \<rightharpoonup> path"
  by_path :: "path \<rightharpoonup> nat"

definition new_inodes :: "path \<Rightarrow> inode_map" where
  "new_inodes root = \<lparr>ino_next = 2, by_ino = [1 \<mapsto> root], by_path = [root \<mapsto> 1]\<rparr>"

definition ino_path :: "inode_map \<Rightarrow> nat \<Rightarrow> path option" where
  "ino_path m i = by_ino m i"

definition ino_for :: "path \<Rightarrow> inode_map \<Rightarrow> nat \<times> inode_map" where
  "ino_for p m = (case by_path m p of
     Some i \<Rightarrow> (i, m)
   | None \<Rightarrow> (ino_next m, m\<lparr>ino_next := ino_next m + 1, by_path := (by_path m)(p \<mapsto> ino_next m),
       by_ino := (by_ino m)(ino_next m \<mapsto> p)\<rparr>))"

text \<open>The table is a bijection between the numbers below \<open>ino_next\<close> it uses and its paths.\<close>

definition inode_inv :: "inode_map \<Rightarrow> bool" where
  "inode_inv m \<longleftrightarrow> (\<forall>i p. by_ino m i = Some p \<longleftrightarrow> by_path m p = Some i) \<and>
     (\<forall>i. by_ino m i \<noteq> None \<longrightarrow> 0 < i \<and> i < ino_next m) \<and> 0 < ino_next m"

lemma inode_inv_new: "inode_inv (new_inodes root)"
  by (auto simp: inode_inv_def new_inodes_def)

lemma ino_for_inv:
  assumes "inode_inv m" and "ino_for p m = (i, m')"
  shows "inode_inv m'" and "by_ino m' i = Some p" and "by_ino m \<subseteq>\<^sub>m by_ino m'"
    and "ino_for p m' = (i, m')"
proof -
  have fresh: "by_ino m (ino_next m) = None" using assms(1) by (force simp: inode_inv_def)
  have np: "by_path m q \<noteq> Some (ino_next m)" for q using assms(1) fresh by (force simp: inode_inv_def)
  show "inode_inv m'"
  proof (cases "by_path m p")
    case None
    then have m': "m' = m\<lparr>ino_next := ino_next m + 1, by_path := (by_path m)(p \<mapsto> ino_next m),
        by_ino := (by_ino m)(ino_next m \<mapsto> p)\<rparr>" using assms(2) by (auto simp: ino_for_def)
    have "by_ino m j \<noteq> Some p" for j using assms(1) None by (simp add: inode_inv_def)
    then show ?thesis using assms(1) fresh np unfolding inode_inv_def m'
      by (auto simp: less_Suc_eq)
  qed (use assms in \<open>simp add: ino_for_def\<close>)
  show "by_ino m' i = Some p" "by_ino m \<subseteq>\<^sub>m by_ino m'" "ino_for p m' = (i, m')"
    using assms fresh np by (auto simp: ino_for_def inode_inv_def map_le_def split: option.splits)
qed

text \<open>
  What a client of the table relies on: numbers, once given, keep naming the same path, and
  asking for a path twice gives the same number.
\<close>

locale inode_table =
  fixes number :: "'p \<Rightarrow> 'm \<Rightarrow> nat \<times> 'm"
    and path_at :: "'m \<Rightarrow> nat \<Rightarrow> 'p option"
    and ok :: "'m \<Rightarrow> bool"
  assumes number_ok: "ok m \<Longrightarrow> ok (snd (number p m))"
    and number_names: "ok m \<Longrightarrow> path_at (snd (number p m)) (fst (number p m)) = Some p"
    and number_keeps: "ok m \<Longrightarrow> path_at m i = Some q \<Longrightarrow> path_at (snd (number p m)) i = Some q"
    and number_inj: "ok m \<Longrightarrow> path_at m i = Some p \<Longrightarrow> path_at m j = Some p \<Longrightarrow> i = j"
begin

lemma number_all:
  assumes "ok m"
  shows "ok (fold (\<lambda>p m. snd (number p m)) ps m) \<and>
    (path_at m i = Some q \<longrightarrow> path_at (fold (\<lambda>p m. snd (number p m)) ps m) i = Some q)"
  using assms
proof (induction ps arbitrary: m)
  case (Cons p ps)
  then show ?case using number_ok number_keeps by (metis fold_simps(2))
qed simp

lemma number_distinct:
  assumes "ok m" and "p \<noteq> q"
  shows "fst (number p m) \<noteq> fst (number q (snd (number p m)))"
  using assms number_names [OF assms(1), of p] number_names [OF number_ok [OF assms(1)], of q p]
    number_keeps [OF number_ok [OF assms(1)] number_names [OF assms(1), of p], of q] by fastforce

end

interpretation inodes: inode_table ino_for ino_path inode_inv
proof
  fix m p
  assume ok: "inode_inv m"
  obtain i m' where n: "ino_for p m = (i, m')" by fastforce
  note e = ino_for_inv [OF ok n]
  show "inode_inv (snd (ino_for p m))" "ino_path (snd (ino_for p m)) (fst (ino_for p m)) = Some p"
    using e n by (simp_all add: ino_path_def)
  show "ino_path m j = Some q \<Longrightarrow> ino_path (snd (ino_for p m)) j = Some q" for j q
    using e(3) n by (auto simp: ino_path_def map_le_def dom_def)
  show "ino_path m j = Some p \<Longrightarrow> ino_path m k = Some p \<Longrightarrow> j = k" for j k
    using ok unfolding inode_inv_def ino_path_def by (metis option.inject)
qed

section \<open>Error numbers\<close>

definition errno_for :: "rpc_error \<Rightarrow> errno" where
  "errno_for e =
     (let msg = to_lowercase (err_message e) in
      if str_contains msg ''no such file'' \<or> str_contains msg ''not found'' then ENOENT
      else if str_contains msg ''permission'' \<or> str_contains msg ''denied'' then EACCES
      else if str_contains msg ''exists'' then EEXIST
      else if str_contains msg ''not a directory'' then ENOTDIR
      else if str_contains msg ''is a directory'' then EISDIR
      else EIO)"

definition send_fatal :: "rpc_error \<Rightarrow> bool" where
  "send_fatal e \<longleftrightarrow> err_code e = word_of_int (code_value METHOD_NOT_FOUND) \<or>
     (let msg = to_lowercase (err_message e) in
      str_contains msg ''no such file'' \<or> str_contains msg ''not found'' \<or>
      str_contains msg ''permission'' \<or> str_contains msg ''denied'')"

end
