(* ===== verification/Fuse_Fs.thy ===== *)
theory Fuse_Fs
  imports Inodes Write_Behind Os_Fs Rpc Protocol_Results
begin

text \<open>
  The FUSE file system of a mount (\<open>RemoteFs\<close> of \<open>crates/bridge/src/fuse_fs.rs\<close>): one function
  per kernel request, from the state to the reply and the new state. The state holds the inode
  table, the upload queue, the local file system with the cache directory, and the remote,
  which is reached only through the environment's \<open>rpc\<close>. \<open>drain\<close> is what waiting for the
  queue did: its outcome and the state it left (the flusher runs meanwhile), and \<open>below\<close> the
  state when a writer held back by the queue's cap goes on. Base64 is the environment's. Replies carry the attributes the program computes from the remote; those it
  sets to constants are left out.
\<close>

section \<open>State\<close>

record 'r fuse =
  read_only :: bool
  remote_dir :: path
  cache_dir :: path
  inodes :: inode_map
  uploads :: queue_state
  local_fs :: os
  remote :: 'r
  prefetching :: "path set"

type_synonym 'r rpc_fun = "string \<Rightarrow> json \<Rightarrow> 'r \<Rightarrow> (rpc_error + json) \<times> 'r"

record 'r fuse_env =
  fe_rpc :: "'r rpc_fun"
  fe_drain :: "path list \<Rightarrow> 'r fuse \<Rightarrow> (errno + unit) \<times> 'r fuse"
  fe_below :: "'r fuse \<Rightarrow> 'r fuse"
  fe_enc :: "bytes \<Rightarrow> string"
  fe_dec :: "string \<Rightarrow> bytes option"

definition new_fuse :: "path \<Rightarrow> path \<Rightarrow> bool \<Rightarrow> instant \<Rightarrow> os \<Rightarrow> 'r \<Rightarrow> 'r fuse" where
  "new_fuse rdir cdir ro now loc r = \<lparr>read_only = ro, remote_dir = rdir, cache_dir = cdir,
     inodes = new_inodes rdir, uploads = new_queue now, local_fs = snd (os_create_dir_all cdir loc),
     remote = r, prefetching = {}\<rparr>"

text \<open>A call of the local file system whose outcome is ignored (\<open>let _ = ...\<close>).\<close>

definition try_local :: "(os \<Rightarrow> 'a \<times> os) \<Rightarrow> 'r fuse \<Rightarrow> 'r fuse" where
  "try_local f s = s\<lparr>local_fs := snd (f (local_fs s))\<rparr>"

section \<open>Helpers\<close>

definition cache_path :: "'r fuse \<Rightarrow> path \<Rightarrow> path" where
  "cache_path s p = (case strip_prefix (remote_dir s) p of
     Some rel \<Rightarrow> path_join (cache_dir s) rel
   | None \<Rightarrow> path_join (cache_dir s) (case file_name p of Some w \<Rightarrow> [Normal w] | None \<Rightarrow> []))"

definition path_for :: "'r fuse \<Rightarrow> nat \<Rightarrow> path option" where
  "path_for s ino = ino_path (inodes s) ino"

definition ino_for_path :: "path \<Rightarrow> 'r fuse \<Rightarrow> nat \<times> 'r fuse" where
  "ino_for_path p s = (case ino_for p (inodes s) of (i, m) \<Rightarrow> (i, s\<lparr>inodes := m\<rparr>))"

definition child_path :: "nat \<Rightarrow> string \<Rightarrow> 'r fuse \<Rightarrow> path option \<times> 'r fuse" where
  "child_path par w s = (case ino_path (inodes s) par of
     None \<Rightarrow> (None, s)
   | Some pp \<Rightarrow> (Some (path_join pp [Normal w]), snd (ino_for_path (path_join pp [Normal w]) s)))"

definition rpc :: "'r fuse_env \<Rightarrow> string \<times> json \<Rightarrow> 'r fuse \<Rightarrow> (errno + json) \<times> 'r fuse" where
  "rpc env mj s = (case fe_rpc env (fst mj) (snd mj) (remote s) of
     (Inl e, r) \<Rightarrow> (Inl (errno_for e), s\<lparr>remote := r\<rparr>)
   | (Inr v, r) \<Rightarrow> (Inr v, s\<lparr>remote := r\<rparr>))"

definition path_param :: "path \<Rightarrow> string \<times> json" where
  "path_param p = (''path'', JStr (path_string p))"

text \<open>\<open>drain_uploads\<close>: no paths, no wait.\<close>

definition drain_uploads :: "'r fuse_env \<Rightarrow> path list \<Rightarrow> 'r fuse \<Rightarrow> (errno + unit) \<times> 'r fuse" where
  "drain_uploads env ps s = (if ps = [] then (Inr (), s) else fe_drain env ps s)"

section \<open>Attributes\<close>

datatype file_type = RegularType | DirectoryType | SymlinkType

record file_attr =
  fa_ino :: nat
  fa_size :: nat
  fa_blocks :: nat
  fa_mtime :: nat
  fa_kind :: file_type
  fa_perm :: "32 word"
  fa_nlink :: nat
  fa_uid :: "32 word"
  fa_gid :: "32 word"

fun file_type_of :: "file_kind \<Rightarrow> file_type" where
  "file_type_of RegularFile = RegularType"
| "file_type_of Dir = DirectoryType"
| "file_type_of Symlink = SymlinkType"
| "file_type_of Other = RegularType"

definition attr_from_stat :: "stat_result \<Rightarrow> nat \<Rightarrow> file_attr" where
  "attr_from_stat st ino = (let kind = file_type_of (st_kind st); len = unat (st_size st) in
     \<lparr>fa_ino = ino, fa_size = len, fa_blocks = len div 512, fa_mtime = unat (st_modified st),
      fa_kind = kind, fa_perm = and (st_mode st) 4095,
      fa_nlink = (if kind = DirectoryType then 2 else 1), fa_uid = st_uid st, fa_gid = st_gid st\<rparr>)"

definition attr_from_metadata :: "node \<Rightarrow> nat \<Rightarrow> file_attr" where
  "attr_from_metadata n ino =
     (let kind = (case n of NDir _ \<Rightarrow> DirectoryType | NLink _ _ \<Rightarrow> SymlinkType | _ \<Rightarrow> RegularType) in
     \<lparr>fa_ino = ino, fa_size = node_len n, fa_blocks = node_len n div 512, fa_mtime = m_mtime (node_meta n),
      fa_kind = kind, fa_perm = and (node_mode n) 4095,
      fa_nlink = (if kind = DirectoryType then 2 else 1),
      fa_uid = m_uid (node_meta n), fa_gid = m_gid (node_meta n)\<rparr>)"

definition remote_attr :: "'r fuse_env \<Rightarrow> path \<Rightarrow> 'r fuse \<Rightarrow> (errno + file_attr) \<times> 'r fuse" where
  "remote_attr env p s = (case rpc env (method_name STAT, JObj [path_param p]) s of
     (Inl e, s1) \<Rightarrow> (Inl e, s1)
   | (Inr v, s1) \<Rightarrow> (case of_stat_result v of
       None \<Rightarrow> (Inl EIO, s1)
     | Some st \<Rightarrow> (case ino_for_path p s1 of (i, s2) \<Rightarrow> (Inr (attr_from_stat st i), s2))))"

definition attr_for :: "'r fuse_env \<Rightarrow> path \<Rightarrow> 'r fuse \<Rightarrow> (errno + file_attr) \<times> 'r fuse" where
  "attr_for env p s = (case remote_attr env p s of
     (Inr a, s1) \<Rightarrow>
       (Inr a, if fa_kind a = DirectoryType then try_local (os_create_dir_all (cache_path s p)) s1 else s1)
   | (Inl e, s1) \<Rightarrow> (case os_node (local_fs s1) False (cache_path s p) of
       Inr (_, n) \<Rightarrow> (case ino_for_path p s1 of (i, s2) \<Rightarrow> (Inr (attr_from_metadata n i), s2))
     | Inl _ \<Rightarrow> (Inl e, s1)))"

section \<open>Replies\<close>

datatype fuse_reply =
    RError errno
  | REntry file_attr
  | RAttr file_attr
  | RCreated file_attr
  | RData bytes
  | RText string
  | ROk
  | RWritten nat
  | ROpened bool \<comment> \<open>whether the kernel may keep its page cache\<close>
  | RSize nat
  | RStatfs "nat list"
  | RDir "(nat \<times> nat \<times> file_type \<times> string) list"

definition attr_reply :: "(file_attr \<Rightarrow> fuse_reply) \<Rightarrow> (errno + file_attr) \<times> 'r fuse \<Rightarrow> fuse_reply \<times> 'r fuse" where
  "attr_reply f r = (case r of (Inr a, s) \<Rightarrow> (f a, s) | (Inl e, s) \<Rightarrow> (RError e, s))"

section \<open>Lookup and attributes\<close>

definition fuse_lookup :: "'r fuse_env \<Rightarrow> nat \<Rightarrow> string \<Rightarrow> 'r fuse \<Rightarrow> fuse_reply \<times> 'r fuse" where
  "fuse_lookup env par w s = (case child_path par w s of
     (None, s1) \<Rightarrow> (RError ENOENT, s1)
   | (Some p, s1) \<Rightarrow> attr_reply REntry (attr_for env p s1))"

definition fuse_getattr :: "'r fuse_env \<Rightarrow> nat \<Rightarrow> 'r fuse \<Rightarrow> fuse_reply \<times> 'r fuse" where
  "fuse_getattr env ino s = (case path_for s ino of
     None \<Rightarrow> (RError ENOENT, s)
   | Some p \<Rightarrow> attr_reply RAttr (attr_for env p s))"

definition truncate_both :: "'r fuse_env \<Rightarrow> path \<Rightarrow> nat \<Rightarrow> 'r fuse \<Rightarrow> 'r fuse" where
  "truncate_both env p len s =
     (let s1 = snd (rpc env (method_name TRUNCATE, JObj [path_param p, (''size'', JInt (int len))]) s) in
      case os_open_write (cache_path s p) (local_fs s1) of
        Inl _ \<Rightarrow> s1
      | Inr q \<Rightarrow> if seek_ok len then s1\<lparr>local_fs := os_modify (set_length len) q (local_fs s1)\<rparr> else s1)"

definition chmod_both :: "'r fuse_env \<Rightarrow> path \<Rightarrow> 32 word \<Rightarrow> 'r fuse \<Rightarrow> 'r fuse" where
  "chmod_both env p mode s =
     try_local (os_set_mode mode (cache_path s p))
       (snd (rpc env (method_name CHMOD, JObj [path_param p, (''mode'', unsigned_json mode)]) s))"

definition fuse_setattr ::
  "'r fuse_env \<Rightarrow> nat \<Rightarrow> 32 word option \<Rightarrow> nat option \<Rightarrow> 'r fuse \<Rightarrow> fuse_reply \<times> 'r fuse" where
  "fuse_setattr env ino mode len s = (case path_for s ino of
     None \<Rightarrow> (RError ENOENT, s)
   | Some p \<Rightarrow>
       (let resized = (case len of
              None \<Rightarrow> Inr s
            | Some n \<Rightarrow> (case drain_uploads env [p] s of
                (Inl _, s1) \<Rightarrow> Inl s1
              | (Inr _, s1) \<Rightarrow> Inr (truncate_both env p n s1)))
        in case resized of
             Inl s1 \<Rightarrow> (RError EIO, s1)
           | Inr s1 \<Rightarrow> attr_reply RAttr (attr_for env p
               (case mode of None \<Rightarrow> s1 | Some m \<Rightarrow> chmod_both env p m s1))))"

definition fuse_readlink :: "'r fuse_env \<Rightarrow> nat \<Rightarrow> 'r fuse \<Rightarrow> fuse_reply \<times> 'r fuse" where
  "fuse_readlink env ino s = (case path_for s ino of
     None \<Rightarrow> (RError ENOENT, s)
   | Some p \<Rightarrow> (case os_node (local_fs s) False (cache_path s p) of
       Inr (_, NLink _ t) \<Rightarrow> (RText t, s)
     | _ \<Rightarrow> (case rpc env (method_name STAT, JObj [path_param p]) s of
         (Inl e, s1) \<Rightarrow> (RError e, s1)
       | (Inr v, s1) \<Rightarrow> (case of_stat_result v of
           None \<Rightarrow> (RError EIO, s1)
         | Some st \<Rightarrow> (case st_link_target st of
             Some t \<Rightarrow> (RText t, s1)
           | None \<Rightarrow> (RError EINVAL, s1))))))"

section \<open>Creating and removing\<close>

text \<open>The prologue of the modifying requests: the child's path and the read-only check.\<close>

definition modifying ::
  "nat \<Rightarrow> string \<Rightarrow> (path \<Rightarrow> 'r fuse \<Rightarrow> fuse_reply \<times> 'r fuse) \<Rightarrow> 'r fuse \<Rightarrow> fuse_reply \<times> 'r fuse" where
  "modifying par w body s = (case child_path par w s of
     (None, s1) \<Rightarrow> (RError ENOENT, s1)
   | (Some p, s1) \<Rightarrow> if read_only s1 then (RError EROFS, s1) else body p s1)"

definition drained ::
  "'r fuse_env \<Rightarrow> path list \<Rightarrow> ('r fuse \<Rightarrow> fuse_reply \<times> 'r fuse) \<Rightarrow> 'r fuse \<Rightarrow> fuse_reply \<times> 'r fuse" where
  "drained env ps body s = (case drain_uploads env ps s of
     (Inl _, s1) \<Rightarrow> (RError EIO, s1)
   | (Inr _, s1) \<Rightarrow> body s1)"

definition try_rpc :: "'r fuse_env \<Rightarrow> rpc_method \<Rightarrow> (string \<times> json) list \<Rightarrow> 'r fuse \<Rightarrow> 'r fuse" where
  "try_rpc env m params s = snd (rpc env (method_name m, JObj params) s)"

definition empty_file_local :: "path \<Rightarrow> 32 word \<Rightarrow> 'r fuse \<Rightarrow> 'r fuse" where
  "empty_file_local p mode s =
     try_local (os_set_mode mode (cache_path s p))
       (try_local (os_create_file 438 (cache_path s p))
         (try_local (os_create_dir_all (butlast (cache_path s p))) s))"

definition fuse_mknod :: "'r fuse_env \<Rightarrow> nat \<Rightarrow> string \<Rightarrow> 32 word \<Rightarrow> 'r fuse \<Rightarrow> fuse_reply \<times> 'r fuse" where
  "fuse_mknod env par w mode = modifying par w (\<lambda>p s.
     drained env [p] (\<lambda>s1. attr_reply REntry (attr_for env p
       (try_rpc env WRITE_FILE [path_param p, (''data'', JStr []), (''create_dirs'', JBool False)] s1)))
     (empty_file_local p mode s))"

definition fuse_mkdir :: "'r fuse_env \<Rightarrow> nat \<Rightarrow> string \<Rightarrow> 32 word \<Rightarrow> 'r fuse \<Rightarrow> fuse_reply \<times> 'r fuse" where
  "fuse_mkdir env par w mode = modifying par w (\<lambda>p s.
     attr_reply REntry (attr_for env p
       (try_rpc env MKDIR [path_param p, (''mode'', unsigned_json mode)]
         (try_local (os_create_dir_all (cache_path s p)) s))))"

definition fuse_unlink :: "'r fuse_env \<Rightarrow> nat \<Rightarrow> string \<Rightarrow> 'r fuse \<Rightarrow> fuse_reply \<times> 'r fuse" where
  "fuse_unlink env par w = modifying par w (\<lambda>p.
     drained env [p] (\<lambda>s1. (ROk, try_rpc env REMOVE [path_param p, (''recursive'', JBool False)]
       (try_local (os_remove_file (cache_path s1 p)) s1))))"

definition fuse_rmdir :: "'r fuse_env \<Rightarrow> nat \<Rightarrow> string \<Rightarrow> 'r fuse \<Rightarrow> fuse_reply \<times> 'r fuse" where
  "fuse_rmdir env par w = modifying par w (\<lambda>p.
     drained env [p] (\<lambda>s1. (ROk, try_rpc env REMOVE [path_param p, (''recursive'', JBool False)]
       (try_local (os_remove_dir (cache_path s1 p)) s1))))"

definition fuse_symlink :: "'r fuse_env \<Rightarrow> nat \<Rightarrow> string \<Rightarrow> string \<Rightarrow> 'r fuse \<Rightarrow> fuse_reply \<times> 'r fuse" where
  "fuse_symlink env par w dest = modifying par w (\<lambda>p s.
     drained env [p] (\<lambda>s1. attr_reply REntry (attr_for env p
       (try_rpc env SYMLINK [(''link'', JStr (path_string p)), (''target'', JStr dest)] s1)))
     (try_local (os_symlink dest (cache_path s p)) s))"

definition fuse_rename ::
  "'r fuse_env \<Rightarrow> nat \<Rightarrow> string \<Rightarrow> nat \<Rightarrow> string \<Rightarrow> 'r fuse \<Rightarrow> fuse_reply \<times> 'r fuse" where
  "fuse_rename env par w newpar neww s =
     (case child_path par w s of (from, s1) \<Rightarrow>
        (case child_path newpar neww s1 of (to, s2) \<Rightarrow>
           (case (from, to) of
              (Some pf, Some pt) \<Rightarrow>
                if read_only s2 then (RError EROFS, s2)
                else drained env [pf, pt] (\<lambda>s3. (ROk,
                  try_rpc env RENAME [(''from'', JStr (path_string pf)), (''to'', JStr (path_string pt))]
                    (try_local (os_rename (cache_path s3 pf) (cache_path s3 pt))
                      (try_local (os_create_dir_all (butlast (cache_path s3 pt))) s3)))) s2
            | _ \<Rightarrow> (RError ENOENT, s2))))"

definition fuse_create :: "'r fuse_env \<Rightarrow> nat \<Rightarrow> string \<Rightarrow> 32 word \<Rightarrow> 'r fuse \<Rightarrow> fuse_reply \<times> 'r fuse" where
  "fuse_create env par w mode = modifying par w (\<lambda>p s.
     drained env [p] (\<lambda>s1. attr_reply RCreated (attr_for env p
       (try_rpc env CHMOD [path_param p, (''mode'', unsigned_json mode)]
         (try_rpc env WRITE_FILE [path_param p, (''data'', JStr []), (''create_dirs'', JBool False)] s1))))
     (empty_file_local p mode s))"

section \<open>Reading and writing\<close>

text \<open>What the local cache file can serve.\<close>

definition cached_bytes :: "nat \<Rightarrow> nat \<Rightarrow> path \<Rightarrow> os \<Rightarrow> bytes option" where
  "cached_bytes offset len q fs = (case os_node fs True q of
     Inr (_, NFile _ b) \<Rightarrow>
       if b \<noteq> [] \<and> offset < length b then Some (take (min len (length b - offset)) (drop offset b))
       else if b = [] \<and> offset = 0 then Some []
       else None
   | _ \<Rightarrow> None)"

text \<open>A fetch is cached only when it extends the cached prefix; then the rest is prefetched.\<close>

definition cache_fetch :: "path \<Rightarrow> nat \<Rightarrow> bytes \<Rightarrow> 'r fuse \<Rightarrow> 'r fuse" where
  "cache_fetch p offset bs s =
     (let q = cache_path s p; s1 = try_local (os_create_dir_all (butlast q)) s;
          frontier = (case os_node (local_fs s1) True q of Inr (_, n) \<Rightarrow> node_len n | Inl _ \<Rightarrow> 0)
      in if offset \<le> frontier then
           (case (case os_open_write q (local_fs s1) of
                Inr r \<Rightarrow> (Inr r, local_fs s1)
              | Inl NotFound \<Rightarrow> os_create_file 438 q (local_fs s1)
              | Inl e \<Rightarrow> (Inl e, local_fs s1)) of
              (Inr r, fs) \<Rightarrow>
                s1\<lparr>local_fs := os_modify (write_bytes offset bs) r fs, prefetching := insert p (prefetching s1)\<rparr>
            | (Inl _, fs) \<Rightarrow> s1\<lparr>local_fs := fs\<rparr>)
         else s1)"

definition READ_CHUNK :: nat where "READ_CHUNK = 1024 * 1024"

definition fuse_read :: "'r fuse_env \<Rightarrow> nat \<Rightarrow> nat \<Rightarrow> nat \<Rightarrow> 'r fuse \<Rightarrow> fuse_reply \<times> 'r fuse" where
  "fuse_read env ino offset len s = (case path_for s ino of
     None \<Rightarrow> (RError ENOENT, s)
   | Some p \<Rightarrow> (case cached_bytes offset len (cache_path s p) (local_fs s) of
       Some b \<Rightarrow> (RData b, s)
     | None \<Rightarrow>
         (case rpc env (method_name READ_FILE, JObj [path_param p, (''offset'', JInt (int offset)),
              (''limit'', JInt (int (max len READ_CHUNK)))]) s of
            (Inr v, s1) \<Rightarrow> (case of_read_file_result v of
                None \<Rightarrow> (RError EIO, s1)
              | Some r \<Rightarrow> (case fe_dec env (rfr_data r) of
                  None \<Rightarrow> (RError EIO, s1)
                | Some b \<Rightarrow> (RData (take len b), cache_fetch p offset b s1)))
          | (Inl e, s1) \<Rightarrow> (case os_node (local_fs s1) True (cache_path s1 p) of
              Inr (_, NFile _ b) \<Rightarrow>
                if seek_ok offset then (RData (take len (drop offset b)), s1) else (RError e, s1)
            | _ \<Rightarrow> (RError e, s1)))))"

text \<open>The local half of a write: \<open>None\<close> when the cache file cannot be written.\<close>

definition write_cache :: "path \<Rightarrow> nat \<Rightarrow> bytes \<Rightarrow> os \<Rightarrow> os option" where
  "write_cache q offset bs fs =
     (case (case os_open_write q fs of
          Inr r \<Rightarrow> (Inr r, fs)
        | Inl NotFound \<Rightarrow> os_create_file 438 q fs
        | Inl e \<Rightarrow> (Inl e, fs)) of
        (Inr r, fs1) \<Rightarrow> if seek_ok offset then Some (os_modify (write_bytes offset bs) r fs1) else None
      | (Inl _, _) \<Rightarrow> None)"

definition queue_upload :: "'r fuse_env \<Rightarrow> path \<Rightarrow> nat \<Rightarrow> nat \<Rightarrow> 'r fuse \<Rightarrow> 'r fuse" where
  "queue_upload env p offset n s =
     (let s1 = s\<lparr>uploads := enqueue_upload p offset n (uploads s)\<rparr> in
      if n = 0 \<or> wait_below QUEUE_CAP [uploads s1] then s1 else fe_below env s1)"

definition fuse_write :: "'r fuse_env \<Rightarrow> nat \<Rightarrow> nat \<Rightarrow> bytes \<Rightarrow> 'r fuse \<Rightarrow> fuse_reply \<times> 'r fuse" where
  "fuse_write env ino offset bs s = (case path_for s ino of
     None \<Rightarrow> (RError ENOENT, s)
   | Some p \<Rightarrow>
       if read_only s then (RError EROFS, s)
       else let q = cache_path s p; s1 = try_local (os_create_dir_all (butlast q)) s in
         (case write_cache q offset bs (local_fs s1) of
            Some fs \<Rightarrow> (RWritten (length bs), queue_upload env p offset (length bs) (s1\<lparr>local_fs := fs\<rparr>))
          | None \<Rightarrow> (RWritten (length bs), try_rpc env WRITE_AT
              [path_param p, (''offset'', JInt (int offset)), (''data'', JStr (fe_enc env bs))] s1)))"

section \<open>Flushing\<close>

definition fuse_flush :: "'r fuse_env \<Rightarrow> nat \<Rightarrow> 'r fuse \<Rightarrow> fuse_reply \<times> 'r fuse" where
  "fuse_flush env ino s = (case path_for s ino of
     None \<Rightarrow> (ROk, s)
   | Some p \<Rightarrow> (case drain_uploads env [p] s of
       (Inr _, s1) \<Rightarrow> (ROk, s1)
     | (Inl e, s1) \<Rightarrow> (RError e, s1)))"

definition fuse_fsync :: "'r fuse_env \<Rightarrow> nat \<Rightarrow> 'r fuse \<Rightarrow> fuse_reply \<times> 'r fuse" where
  "fuse_fsync env ino s = fuse_flush env ino s"

definition fuse_release :: "'r fuse_env \<Rightarrow> nat \<Rightarrow> 'r fuse \<Rightarrow> fuse_reply \<times> 'r fuse" where
  "fuse_release env ino s = (ROk, case path_for s ino of
     None \<Rightarrow> s | Some p \<Rightarrow> snd (drain_uploads env [p] s))"

section \<open>Directories\<close>

definition mirror_dirs :: "path \<Rightarrow> dir_entry list \<Rightarrow> 'r fuse \<Rightarrow> 'r fuse" where
  "mirror_dirs dir es s = fold (\<lambda>e. if file_type_of (de_kind e) = DirectoryType
     then try_local (os_create_dir_all (path_join dir (path_of (de_name e)))) else (\<lambda>s. s)) es s"

definition local_entries :: "path \<Rightarrow> os \<Rightarrow> (file_type \<times> string) list option" where
  "local_entries dir fs = (case os_read_dir fs dir of
     Inl _ \<Rightarrow> None
   | Inr es \<Rightarrow> Some (map (\<lambda>(w, n). (case n of NDir _ \<Rightarrow> DirectoryType
       | NLink _ _ \<Rightarrow> SymlinkType | _ \<Rightarrow> RegularType, w)) es))"

definition dir_entries :: "'r fuse_env \<Rightarrow> path \<Rightarrow> 'r fuse \<Rightarrow> (errno + (file_type \<times> string) list) \<times> 'r fuse" where
  "dir_entries env p s =
     (let dir = cache_path s p; s0 = try_local (os_create_dir_all dir) s in
      case rpc env (method_name LIST_DIR, JObj [path_param p]) s0 of
        (Inr v, s1) \<Rightarrow> (case of_list_dir_result v of
            None \<Rightarrow> (Inl EIO, s1)
          | Some l \<Rightarrow> (Inr (map (\<lambda>e. (file_type_of (de_kind e), de_name e)) (ldr_entries l)),
              mirror_dirs dir (ldr_entries l) s1))
      | (Inl e, s1) \<Rightarrow> (case local_entries dir (local_fs s1) of
            Some es \<Rightarrow> (Inr es, s1)
          | None \<Rightarrow> (Inl e, s1)))"

fun number_entries ::
  "path \<Rightarrow> (file_type \<times> string) list \<Rightarrow> 'r fuse \<Rightarrow> (nat \<times> file_type \<times> string) list \<times> 'r fuse" where
  "number_entries p [] s = ([], s)"
| "number_entries p ((k, w) # es) s =
     (case ino_for_path (path_join p (path_of w)) s of (i, s1) \<Rightarrow>
        (case number_entries p es s1 of (xs, s2) \<Rightarrow> ((i, k, w) # xs, s2)))"

text \<open>
  The entries from the offset on, each with the offset after it, as many as fit: \<open>room\<close> is how
  many the kernel's buffer takes. \<open>reply.add\<close> says "full" for the first that does not fit.
\<close>

definition fill_page :: "nat \<Rightarrow> nat \<Rightarrow> 'a list \<Rightarrow> (nat \<times> 'a) list" where
  "fill_page room offset all = take room (drop offset (zip [1..<Suc (length all)] all))"

definition fuse_readdir :: "'r fuse_env \<Rightarrow> nat \<Rightarrow> nat \<Rightarrow> nat \<Rightarrow> 'r fuse \<Rightarrow> fuse_reply \<times> 'r fuse" where
  "fuse_readdir env room ino offset s = (case path_for s ino of
     None \<Rightarrow> (RError ENOENT, s)
   | Some p \<Rightarrow> (case dir_entries env p s of
       (Inl e, s1) \<Rightarrow> (RError e, s1)
     | (Inr es, s1) \<Rightarrow> (case number_entries p es s1 of (xs, s2) \<Rightarrow>
         (RDir (map (\<lambda>(off, i, k, w). (i, off, k, w)) (fill_page room offset
            ([(ino, DirectoryType, ''.''), (1, DirectoryType, ''..'')] @ xs))), s2))))"

section \<open>The rest\<close>

definition fuse_open :: "'r fuse \<Rightarrow> fuse_reply \<times> 'r fuse" where "fuse_open s = (ROpened True, s)"
definition fuse_opendir :: "'r fuse \<Rightarrow> fuse_reply \<times> 'r fuse" where "fuse_opendir s = (ROpened False, s)"
definition fuse_link :: "'r fuse \<Rightarrow> fuse_reply \<times> 'r fuse" where "fuse_link s = (RError ENOSYS, s)"
definition fuse_releasedir :: "'r fuse \<Rightarrow> fuse_reply \<times> 'r fuse" where "fuse_releasedir s = (ROk, s)"
definition fuse_fsyncdir :: "'r fuse \<Rightarrow> fuse_reply \<times> 'r fuse" where "fuse_fsyncdir s = (ROk, s)"
definition fuse_access :: "'r fuse \<Rightarrow> fuse_reply \<times> 'r fuse" where "fuse_access s = (ROk, s)"
definition fuse_setxattr :: "'r fuse \<Rightarrow> fuse_reply \<times> 'r fuse" where "fuse_setxattr s = (RError ENOSYS, s)"
definition fuse_getxattr :: "'r fuse \<Rightarrow> fuse_reply \<times> 'r fuse" where "fuse_getxattr s = (RError ENOSYS, s)"
definition fuse_removexattr :: "'r fuse \<Rightarrow> fuse_reply \<times> 'r fuse" where "fuse_removexattr s = (RError ENOSYS, s)"

definition fuse_listxattr :: "nat \<Rightarrow> 'r fuse \<Rightarrow> fuse_reply \<times> 'r fuse" where
  "fuse_listxattr len s = (if len = 0 then RSize 0 else RData [], s)"

definition fuse_statfs :: "'r fuse \<Rightarrow> fuse_reply \<times> 'r fuse" where
  "fuse_statfs s = (RStatfs [2 ^ 30, 2 ^ 29, 2 ^ 29, 2 ^ 20, 2 ^ 20, 4096, 255, 4096], s)"

end
