(* ===== verification/Fuse_Requests.thy ===== *)
theory Fuse_Requests
  imports Fuse_Fs
begin

text \<open>
  The requests of the kernel as one datatype, dispatched to the handlers, and what all of them
  keep: the inode table only grows.
\<close>

section \<open>Requests\<close>

datatype fuse_request =
    Lookup nat string
  | Getattr nat
  | Setattr nat "32 word option" "nat option"
  | Readlink nat
  | Mknod nat string "32 word"
  | Mkdir nat string "32 word"
  | Unlink nat string
  | Rmdir nat string
  | SymlinkAt nat string string
  | Rename nat string nat string
  | Link
  | Open
  | Read nat nat nat
  | Write nat nat bytes
  | Flush nat
  | Release nat
  | Fsync nat
  | Opendir
  | Readdir nat nat nat \<comment> \<open>room, inode, offset\<close>
  | Releasedir
  | Fsyncdir
  | Statfs
  | Setxattr
  | Getxattr
  | Listxattr nat
  | Removexattr
  | Access
  | Create nat string "32 word"

fun handle :: "'r fuse_env \<Rightarrow> fuse_request \<Rightarrow> 'r fuse \<Rightarrow> fuse_reply \<times> 'r fuse" where
  "handle env (Lookup par w) = fuse_lookup env par w"
| "handle env (Getattr i) = fuse_getattr env i"
| "handle env (Setattr i mode len) = fuse_setattr env i mode len"
| "handle env (Readlink i) = fuse_readlink env i"
| "handle env (Mknod par w mode) = fuse_mknod env par w mode"
| "handle env (Mkdir par w mode) = fuse_mkdir env par w mode"
| "handle env (Unlink par w) = fuse_unlink env par w"
| "handle env (Rmdir par w) = fuse_rmdir env par w"
| "handle env (SymlinkAt par w dest) = fuse_symlink env par w dest"
| "handle env (Rename par w npar nw) = fuse_rename env par w npar nw"
| "handle env Link = fuse_link"
| "handle env Open = fuse_open"
| "handle env (Read i off len) = fuse_read env i off len"
| "handle env (Write i off bs) = fuse_write env i off bs"
| "handle env (Flush i) = fuse_flush env i"
| "handle env (Release i) = fuse_release env i"
| "handle env (Fsync i) = fuse_fsync env i"
| "handle env Opendir = fuse_opendir"
| "handle env (Readdir room i off) = fuse_readdir env room i off"
| "handle env Releasedir = fuse_releasedir"
| "handle env Fsyncdir = fuse_fsyncdir"
| "handle env Statfs = fuse_statfs"
| "handle env Setxattr = fuse_setxattr"
| "handle env Getxattr = fuse_getxattr"
| "handle env (Listxattr n) = fuse_listxattr n"
| "handle env Removexattr = fuse_removexattr"
| "handle env Access = fuse_access"
| "handle env (Create par w mode) = fuse_create env par w mode"

definition handle_all :: "'r fuse_env \<Rightarrow> fuse_request list \<Rightarrow> 'r fuse \<Rightarrow> 'r fuse" where
  "handle_all env qs s = fold (\<lambda>q s. snd (handle env q s)) qs s"

section \<open>The inode table only grows\<close>

definition grows :: "'r fuse \<Rightarrow> 'r fuse \<Rightarrow> bool" where
  "grows s s' \<longleftrightarrow> (inode_inv (inodes s) \<longrightarrow> inode_inv (inodes s') \<and> by_ino (inodes s) \<subseteq>\<^sub>m by_ino (inodes s'))"

text \<open>Waiting for the queue lets other requests run; they, too, only add numbers.\<close>

definition fair_env :: "'r fuse_env \<Rightarrow> bool" where
  "fair_env env \<longleftrightarrow> (\<forall>ps s. grows s (snd (fe_drain env ps s))) \<and> (\<forall>s. grows s (fe_below env s))"

lemma grows_same: "inodes s' = inodes s \<Longrightarrow> grows s s'"
  by (simp add: grows_def)

lemma grows_refl [simp]: "grows s s"
  by (simp add: grows_same)

lemma grows_trans: "grows s t \<Longrightarrow> grows t u \<Longrightarrow> grows s u"
  by (auto simp: grows_def intro: map_le_trans)

lemma inodes_try_local [simp]: "inodes (try_local f s) = inodes s"
  by (simp add: try_local_def)

lemma inodes_rpc [simp]: "inodes (snd (rpc env mj s)) = inodes s"
  by (simp add: rpc_def split: prod.split sum.split)

lemma inodes_try_rpc [simp]: "inodes (try_rpc env m ps s) = inodes s"
  by (simp add: try_rpc_def)

lemma inodes_empty_file_local [simp]: "inodes (empty_file_local p mode s) = inodes s"
  by (simp add: empty_file_local_def)

lemma grows_to: "grows s t \<Longrightarrow> inodes u = inodes t \<Longrightarrow> grows s u"
  by (simp add: grows_def)

lemma grows_from: "inodes s = inodes t \<Longrightarrow> grows t u \<Longrightarrow> grows s u"
  by (simp add: grows_def)

lemma grows_ino_for_path: "grows s (snd (ino_for_path p s))"
proof -
  obtain i m where m: "ino_for p (inodes s) = (i, m)" by fastforce
  then show ?thesis using ino_for_inv(1,3) [OF _ m] by (simp add: ino_for_path_def grows_def)
qed

lemma grows_child_path: "grows s (snd (child_path par w s))"
  by (simp add: child_path_def grows_ino_for_path split: option.split)

lemma grows_drain: "fair_env env \<Longrightarrow> grows s (snd (drain_uploads env ps s))"
  by (simp add: fair_env_def drain_uploads_def)

lemma grows_remote_attr: "grows s (snd (remote_attr env p s))"
proof -
  obtain r s1 where r: "rpc env (method_name STAT, JObj [path_param p]) s = (r, s1)" by fastforce
  then have s1: "inodes s = inodes s1" using inodes_rpc [of env _ s] by (metis snd_conv)
  obtain i s2 where i: "ino_for_path p s1 = (i, s2)" by fastforce
  have "grows s1 s2" using grows_ino_for_path [of s1 p] i by simp
  then show ?thesis using s1 r i
    by (simp add: remote_attr_def grows_def split: sum.split option.split)
qed

lemma grows_attr_for: "grows s (snd (attr_for env p s))"
proof -
  obtain r s1 where r: "remote_attr env p s = (r, s1)" by fastforce
  then have s1: "grows s s1" using grows_remote_attr [of s env p] by simp
  obtain i s2 where i: "ino_for_path p s1 = (i, s2)" by fastforce
  have "grows s1 s2" using grows_ino_for_path [of s1 p] i by simp
  then have "grows s s2" by (rule grows_trans [OF s1])
  then show ?thesis using s1 r i
    by (auto simp: attr_for_def split: sum.split prod.split elim: grows_to)
qed

lemma grows_attr_reply: "grows s (snd (attr_reply f (attr_for env p s)))"
  using grows_attr_for [of s env p] by (auto simp: attr_reply_def split: prod.split sum.split)

lemma grows_modifying: "(\<And>p t. grows t (snd (body p t))) \<Longrightarrow> grows s (snd (modifying par w body s))"
  using grows_child_path [of s par w]
  by (auto simp: modifying_def split: prod.split option.split intro: grows_trans)

lemma grows_drained: "fair_env env \<Longrightarrow> (\<And>t. grows t (snd (body t))) \<Longrightarrow> grows s (snd (drained env ps body s))"
  using grows_drain [of env s ps]
  by (auto simp: drained_def split: prod.split sum.split intro: grows_trans)

lemmas grow_steps = grows_attr_reply grows_modifying grows_drained grows_same

lemma grows_attr_after: "inodes s = inodes t \<Longrightarrow> grows s (snd (attr_reply f (attr_for env p t)))"
  by (rule grows_from [OF _ grows_attr_reply])

lemma grows_drained_after:
  "fair_env env \<Longrightarrow> inodes s = inodes t \<Longrightarrow> (\<And>t. grows t (snd (body t))) \<Longrightarrow> grows s (snd (drained env ps body t))"
  by (rule grows_from [OF _ grows_drained])

lemma grows_rename:
  assumes "fair_env env"
  shows "grows s (snd (fuse_rename env par w npar nw s))"
proof -
  obtain f s1 where f: "child_path par w s = (f, s1)" by fastforce
  obtain g s2 where g: "child_path npar nw s1 = (g, s2)" by fastforce
  have s2: "grows s s2"
    using grows_child_path [of s par w] grows_child_path [of s1 npar nw] f g by (auto intro: grows_trans)
  have "grows s2 (snd (drained env ps (\<lambda>t. (ROk, b t)) s2))" if "\<And>t. inodes (b t) = inodes t" for ps b
    by (rule grows_drained [OF assms]) (simp add: grows_same that)
  then show ?thesis using f g s2
    by (auto simp: fuse_rename_def split: option.split intro!: grows_trans [OF s2])
qed

lemma grows_setattr:
  assumes "fair_env env"
  shows "grows s (snd (fuse_setattr env i mode len s))"
proof -
  have c: "inodes (chmod_both env p m t) = inodes t" for p m t by (simp add: chmod_both_def)
  have r: "inodes (truncate_both env p n t) = inodes t" for p n t
    by (simp add: truncate_both_def Let_def split: sum.split)
  have a: "grows t (snd (attr_reply RAttr (attr_for env p (case mode of None \<Rightarrow> u | Some m \<Rightarrow> chmod_both env p m u))))"
    if "inodes t = inodes u" for p t u
    by (rule grows_attr_after) (simp add: that c split: option.split)
  show ?thesis
  proof (cases "path_for s i")
    case (Some p)
    show ?thesis
    proof (cases len)
      case (Some n)
      obtain d s1 where d: "drain_uploads env [p] s = (d, s1)" by fastforce
      then have s1: "grows s s1" using grows_drain [OF assms, of s "[p]"] by simp
      show ?thesis
        using d \<open>path_for s i = Some p\<close> Some s1 grows_trans [OF s1 a [OF r [symmetric]]]
        by (simp add: fuse_setattr_def split: sum.split)
    qed (use Some a in \<open>simp add: fuse_setattr_def\<close>)
  qed (simp add: fuse_setattr_def)
qed

lemma grows_read: "grows s (snd (fuse_read env i off len s))"
proof -
  have c: "inodes (cache_fetch p off b t) = inodes t" for p b t
    by (simp add: cache_fetch_def Let_def split: prod.split sum.split)
  have "inodes (snd (fuse_read env i off len s)) = inodes s"
  proof (cases "path_for s i")
    case (Some p)
    let ?r = "rpc env (method_name READ_FILE, JObj [path_param p, (''offset'', JInt (int off)),
              (''limit'', JInt (int (max len READ_CHUNK)))]) s"
    obtain a t where "?r = (a, t)" by fastforce
    moreover then have "inodes t = inodes s" using inodes_rpc [of env _ s] by (metis snd_conv)
    ultimately have "?r = (a, t)" "inodes t = inodes s" by simp_all
    then show ?thesis
      by (simp add: fuse_read_def Some c split: option.split sum.split prod.split node.split)
  qed (simp add: fuse_read_def)
  then show ?thesis by (simp add: grows_same)
qed

lemma grows_write:
  assumes "fair_env env"
  shows "grows s (snd (fuse_write env i off bs s))"
proof -
  have q: "grows t (queue_upload env p off n u)" if "inodes t = inodes u" for p n t u
  proof -
    let ?u = "u\<lparr>uploads := enqueue_upload p off n (uploads u)\<rparr>"
    have "grows t ?u" using that by (simp add: grows_same)
    moreover have "grows ?u (fe_below env ?u)" using assms by (simp add: fair_env_def)
    ultimately show ?thesis by (auto simp: queue_upload_def Let_def intro: grows_trans)
  qed
  show ?thesis
    by (auto simp: fuse_write_def Let_def q grows_same split: option.split)
qed

lemma inodes_dir_entries: "inodes (snd (dir_entries env p t)) = inodes t"
proof -
  have m: "inodes (mirror_dirs d es u) = inodes u" for d es u
    unfolding mirror_dirs_def by (induction es arbitrary: u) simp_all
  let ?t = "try_local (os_create_dir_all (cache_path t p)) t"
  obtain a u where r: "rpc env (method_name LIST_DIR, JObj [path_param p]) ?t = (a, u)" by fastforce
  then have "inodes u = inodes t" using inodes_rpc [of env _ ?t] by (metis inodes_try_local snd_conv)
  then show ?thesis
    using r by (simp add: dir_entries_def Let_def m split: sum.split option.split)
qed

lemma grows_number_entries: "grows t (snd (number_entries p es t))"
proof (induction p es t rule: number_entries.induct)
  case (2 p k w es t)
  obtain j t1 where j: "ino_for_path (path_join p (path_of w)) t = (j, t1)" by fastforce
  then have "grows t t1" using grows_ino_for_path [of t "path_join p (path_of w)"] by simp
  then show ?case using j 2 [OF j [symmetric]] by (auto split: prod.split intro: grows_trans)
qed simp

lemma grows_readdir: "grows s (snd (fuse_readdir env room i off s))"
proof (cases "path_for s i")
  case (Some p)
  obtain r t where r: "dir_entries env p s = (r, t)" by fastforce
  then have "inodes s = inodes t" using inodes_dir_entries [of env p s] by simp
  then have "grows s (snd (number_entries p es t))" "grows s t" for es
    using grows_number_entries [of t p es] by (auto intro: grows_from grows_same)
  then show ?thesis using r Some by (simp add: fuse_readdir_def split: sum.split prod.split) (metis snd_conv)
qed (simp add: fuse_readdir_def)

lemma grows_flush: "fair_env env \<Longrightarrow> grows s (snd (fuse_flush env i s))"
  using grows_drain [of env s "[the (path_for s i)]"]
  by (auto simp: fuse_flush_def split: option.split prod.split sum.split)

lemma grows_handle:
  assumes "fair_env env"
  shows "grows s (snd (handle env q s))"
proof (cases q)
  case (Mknod par w mode)
  show ?thesis unfolding Mknod handle.simps fuse_mknod_def
    by (intro grows_modifying grows_drained_after grows_attr_after assms) simp_all
next
  case (Create par w mode)
  show ?thesis unfolding Create handle.simps fuse_create_def
    by (intro grows_modifying grows_drained_after grows_attr_after assms) simp_all
next
  case (SymlinkAt par w dest)
  show ?thesis unfolding SymlinkAt handle.simps fuse_symlink_def
    by (intro grows_modifying grows_drained_after grows_attr_after assms) simp_all
next
  case (Mkdir par w mode)
  show ?thesis unfolding Mkdir handle.simps fuse_mkdir_def
    by (intro grows_modifying grows_attr_after) simp
next
  case (Unlink par w)
  show ?thesis unfolding Unlink handle.simps fuse_unlink_def
    by (intro grows_modifying grows_drained grows_same assms) simp
next
  case (Rmdir par w)
  show ?thesis unfolding Rmdir handle.simps fuse_rmdir_def
    by (intro grows_modifying grows_drained grows_same assms) simp
next
  case (Lookup par w)
  obtain r s1 where c: "child_path par w s = (r, s1)" by fastforce
  then have "grows s s1" using grows_child_path [of s par w] by simp
  then show ?thesis using c grows_attr_reply [of s1 REntry env]
    by (auto simp: Lookup fuse_lookup_def split: option.split intro: grows_trans)
next
  case (Getattr i)
  then show ?thesis by (simp add: fuse_getattr_def grows_attr_reply split: option.split)
next
  case (Readlink i)
  have "inodes (snd (fuse_readlink env i s)) = inodes s"
  proof (cases "path_for s i")
    case (Some p)
    obtain a u where r: "rpc env (method_name STAT, JObj [path_param p]) s = (a, u)" by fastforce
    then have "inodes u = inodes s" using inodes_rpc [of env _ s] by (metis snd_conv)
    then show ?thesis using r Some
      by (simp add: fuse_readlink_def split: sum.split option.split prod.split node.split)
  qed (simp add: fuse_readlink_def)
  then show ?thesis by (simp add: Readlink grows_same)
next
  case (Release i)
  then show ?thesis using grows_drain [OF assms, of s] by (simp add: fuse_release_def split: option.split)
qed (simp_all add: grows_setattr grows_rename grows_read grows_write grows_flush grows_readdir assms
    fuse_fsync_def fuse_link_def fuse_open_def fuse_opendir_def fuse_releasedir_def fuse_fsyncdir_def
    fuse_access_def fuse_setxattr_def fuse_getxattr_def fuse_removexattr_def fuse_listxattr_def
    fuse_statfs_def)

lemma grows_handle_all: "fair_env env \<Longrightarrow> grows s (handle_all env qs s)"
proof (induction qs arbitrary: s)
  case (Cons q qs)
  have "handle_all env (q # qs) s = handle_all env qs (snd (handle env q s))"
    by (simp add: handle_all_def)
  then show ?case using Cons.IH [OF Cons.prems] grows_handle [OF Cons.prems] by (auto intro: grows_trans)
qed (simp add: handle_all_def)

end
