(* ===== verification/Fuse_Props.thy ===== *)
theory Fuse_Props
  imports Fuse_Requests Agent_Conn
begin

text \<open>
  The properties of the mount's file system. The witnesses run it against the agent's own file
  handlers, with a queue that is always drained, and against a target that cannot be reached.
\<close>

section \<open>Remotes\<close>

definition agent_rpc :: "agent_env \<Rightarrow> os rpc_fun" where
  "agent_rpc env m v fs = (case file_method env m of
     None \<Rightarrow> (Inl (rpc_error_new METHOD_NOT_FOUND (''unknown method: '' @ m)), fs)
   | Some h \<Rightarrow> (case h v fs of
       (Inl e, fs') \<Rightarrow> (Inl (rpc_error_new INTERNAL_ERROR (error_text env e)), fs')
     | (Inr r, fs') \<Rightarrow> (Inr r, fs')))"

definition offline_rpc :: "'r rpc_fun" where
  "offline_rpc m v r = (Inl (rpc_error_new AGENT_OFFLINE ''agent is not connected''), r)"

definition drained_env :: "'r rpc_fun \<Rightarrow> 'r fuse_env" where
  "drained_env f = \<lparr>fe_rpc = f, fe_drain = (\<lambda>ps s. (Inr (), s)), fe_below = (\<lambda>s. s),
     fe_enc = raw_enc, fe_dec = raw_dec\<rparr>"

definition empty_os :: os where
  "empty_os = \<lparr>nodes = [([RootDir], NDir sample_meta)],
    denied = {}, cwd = [RootDir], now_secs = 9, umask = 18, own_uid = 0, own_gid = 0\<rparr>"

definition sample_mount :: "bool \<Rightarrow> os fuse" where
  "sample_mount ro = new_fuse [RootDir, Normal ''d''] [RootDir, Normal ''c''] ro 0 empty_os sample_os"

section \<open>Read-only mounts\<close>

fun changes_names :: "fuse_request \<Rightarrow> bool" where
  "changes_names (Mknod _ _ _) = True"
| "changes_names (Mkdir _ _ _) = True"
| "changes_names (Unlink _ _) = True"
| "changes_names (Rmdir _ _) = True"
| "changes_names (SymlinkAt _ _ _) = True"
| "changes_names (Rename _ _ _ _) = True"
| "changes_names (Create _ _ _) = True"
| "changes_names (Write _ _ _) = True"
| "changes_names _ = False"

lemma child_path_keeps:
  assumes "child_path par w s = (r, s')"
  shows "\<exists>m. s' = s\<lparr>inodes := m\<rparr>"
proof -
  have "\<exists>m. snd (ino_for_path p s) = s\<lparr>inodes := m\<rparr>" for p
    by (auto simp: ino_for_path_def split: prod.split)
  moreover have "\<exists>m. s = s\<lparr>inodes := m\<rparr>" by (rule exI [of _ "inodes s"]) simp
  ultimately show ?thesis
    using assms by (auto simp: child_path_def split: option.splits)
qed

lemma modifying_read_only:
  assumes "read_only s" and "modifying par w body s = (r, s')"
  shows "r \<in> {RError ENOENT, RError EROFS} \<and> (\<exists>m. s' = s\<lparr>inodes := m\<rparr>)"
proof -
  obtain p s1 where c: "child_path par w s = (p, s1)" by fastforce
  obtain m where "s1 = s\<lparr>inodes := m\<rparr>" using child_path_keeps [OF c] by blast
  then show ?thesis using assms c
    by (cases p) (auto simp: modifying_def)
qed

text \<open>C30: a read-only mount answers every request that writes data or changes names with
  \<open>EROFS\<close> (or \<open>ENOENT\<close> for an unknown inode) and leaves the target, the cache and the upload
  queue as they were.\<close>

theorem read_only_mount_rejects_changes:
  assumes "read_only s" and "changes_names q" and "handle env q s = (r, s')"
  shows "r \<in> {RError ENOENT, RError EROFS} \<and> (\<exists>m. s' = s\<lparr>inodes := m\<rparr>)"
proof -
  note m = modifying_read_only [OF assms(1)]
  have same: "\<exists>m. s = s\<lparr>inodes := m\<rparr>" by (rule exI [of _ "inodes s"]) simp
  show ?thesis
  proof (cases q)
    case (Rename par w npar nw)
    obtain f s1 where f: "child_path par w s = (f, s1)" by fastforce
    obtain g s2 where g: "child_path npar nw s1 = (g, s2)" by fastforce
    obtain m1 where "s1 = s\<lparr>inodes := m1\<rparr>" using child_path_keeps [OF f] by blast
    moreover obtain m2 where "s2 = s1\<lparr>inodes := m2\<rparr>" using child_path_keeps [OF g] by blast
    ultimately show ?thesis
      using assms f g Rename
      by (cases f; cases g) (auto simp: fuse_rename_def intro: exI [of _ m2])
  next
    case (Mknod par w mode)
    show ?thesis using m assms(3) unfolding Mknod handle.simps fuse_mknod_def by blast
  next
    case (Mkdir par w mode)
    show ?thesis using m assms(3) unfolding Mkdir handle.simps fuse_mkdir_def by blast
  next
    case (Unlink par w)
    show ?thesis using m assms(3) unfolding Unlink handle.simps fuse_unlink_def by blast
  next
    case (Rmdir par w)
    show ?thesis using m assms(3) unfolding Rmdir handle.simps fuse_rmdir_def by blast
  next
    case (SymlinkAt par w dest)
    show ?thesis using m assms(3) unfolding SymlinkAt handle.simps fuse_symlink_def by blast
  next
    case (Create par w mode)
    show ?thesis using m assms(3) unfolding Create handle.simps fuse_create_def by blast
  next
    case (Write i off bs)
    then show ?thesis using assms same by (auto simp: fuse_write_def split: option.splits)
  qed (use assms in simp_all)
qed

theorem read_only_mount_rejects_changes_witness:
  "fst (handle (drained_env (agent_rpc sample_env)) (Unlink 1 ''f'') (sample_mount True)) = RError EROFS"
proof -
  let ?r = "handle (drained_env (agent_rpc sample_env)) (Unlink 1 ''f'') (sample_mount True)"
  obtain r s' where r: "?r = (r, s')" by fastforce
  have "r \<in> {RError ENOENT, RError EROFS}"
    using read_only_mount_rejects_changes [OF _ _ r] by (simp add: sample_mount_def new_fuse_def)
  moreover have "r \<noteq> RError ENOENT"
    using r by (auto simp: sample_mount_def new_fuse_def fuse_unlink_def modifying_def child_path_def
        ino_path_def new_inodes_def ino_for_path_def split: prod.splits)
  ultimately show ?thesis using r by simp
qed

section \<open>The agent as the remote\<close>

lemma file_method_agent [simp]:
  "file_method env (method_name TRUNCATE) = Some agent_truncate"
  "file_method env (method_name STAT) = Some agent_stat"
  "file_method env (method_name READ_FILE) = Some (agent_read_file (env_enc env))"
  "file_method env (method_name REMOVE) = Some agent_remove"
  by (simp_all add: file_method_def)

lemma drained_env_simps [simp]:
  "fe_rpc (drained_env f) = f" "drain_uploads (drained_env f) ps s = (Inr (), s)"
  "fe_below (drained_env f) s = s" "fe_enc (drained_env f) = raw_enc" "fe_dec (drained_env f) = raw_dec"
  by (simp_all add: drained_env_def drain_uploads_def)

lemma agent_stat_keeps: "snd (agent_stat v fs) = fs"
  by (simp add: agent_stat_def split: option.split sum.split prod.split)

lemma remote_ino_for_path: "ino_for_path p s = (i, s') \<Longrightarrow> remote s' = remote s"
  by (auto simp: ino_for_path_def split: prod.splits)

lemma remote_try_local [simp]: "remote (try_local f s) = remote s"
  by (simp add: try_local_def)

lemma remote_stat_rpc: "remote (snd (rpc (drained_env (agent_rpc a)) (method_name STAT, v) s)) = remote s"
proof -
  obtain r fs where "agent_stat v (remote s) = (r, fs)" and "fs = remote s"
    using agent_stat_keeps [of v "remote s"] by (metis prod.collapse)
  then show ?thesis
    unfolding rpc_def fst_conv snd_conv drained_env_simps agent_rpc_def file_method_agent option.case
    by (simp split: sum.split)
qed

lemma remote_attr_for: "remote (snd (attr_for (drained_env (agent_rpc a)) p s)) = remote s"
proof -
  obtain r s1 where r: "rpc (drained_env (agent_rpc a)) (method_name STAT, JObj [path_param p]) s = (r, s1)"
    by fastforce
  then have s1: "remote s1 = remote s" using remote_stat_rpc [of a _ s] by (metis snd_conv)
  obtain i s2 where i: "ino_for_path p s1 = (i, s2)" by fastforce
  obtain v s3 where a: "remote_attr (drained_env (agent_rpc a)) p s = (v, s3)" by fastforce
  have s3: "remote s3 = remote s"
    using a s1 i remote_ino_for_path [OF i] unfolding remote_attr_def r
    by (auto split: sum.splits option.splits)
  obtain j s4 where j: "ino_for_path p s3 = (j, s4)" by fastforce
  show ?thesis using s3 remote_ino_for_path [OF j] by (simp add: attr_for_def a j split: sum.split prod.split)
qed

lemma remote_attr_reply: "remote (snd (attr_reply f (attr_for (drained_env (agent_rpc a)) p s))) = remote s"
  using remote_attr_for [of a p s] by (auto simp: attr_reply_def split: prod.split sum.split)

lemma unat_u64 [simp]: "n < 2 ^ 64 \<Longrightarrow> unat (of_nat n :: 64 word) = n"
  by (simp add: unsigned_of_nat take_bit_nat_eq_self)

lemma truncate_call: "n < 2 ^ 64 \<Longrightarrow> of_truncate_params (JObj [(''path'', JStr w), (''size'', JInt (int n))]) =
    Some \<lparr>tr_path = w, tr_size = of_nat n\<rparr>"
  using truncate_params_roundtrip [of "\<lparr>tr_path = w, tr_size = of_nat n\<rparr>"]
  by (simp add: truncate_params_json_def obj_fields.simps unsigned_json_def uint_nat)

lemma read_call: "off < 2 ^ 64 \<Longrightarrow> len < 2 ^ 64 \<Longrightarrow>
    of_read_file_params (JObj [(''path'', JStr w), (''offset'', JInt (int off)), (''limit'', JInt (int len))]) =
    Some \<lparr>rf_path = w, rf_offset = Some (of_nat off), rf_limit = Some (of_nat len)\<rparr>"
  using read_file_params_roundtrip [of "\<lparr>rf_path = w, rf_offset = Some (of_nat off), rf_limit = Some (of_nat len)\<rparr>"]
  by (simp add: read_file_params_json_def unsigned_json_def uint_nat obj_fields.simps opt_json_def)

text \<open>The read-only flag of a mount does not reach \<open>setattr\<close>: on a read-only mount a
  truncation cuts, or extends, the target's file. (The mount is not read-only for the kernel
  either, so nothing else stops it.)\<close>

theorem read_only_mount_still_truncates:
  assumes "read_only s" and "path_for s i = Some p"
    and "os_open_write (path_of (path_string p)) (remote s) = Inr q"
    and "node_at (remote s) q = Some (NFile m b)" and "seek_ok n"
  shows "node_at (remote (snd (handle (drained_env (agent_rpc a)) (Setattr i None (Some n)) s))) q =
    Some (NFile (touch (remote s) m) (set_length n b))"
proof -
  let ?env = "drained_env (agent_rpc a)"
  let ?v = "JObj [path_param p, (''size'', JInt (int n))]"
  have n: "n < 2 ^ 64" "unat (of_nat n :: 64 word) = n"
    using assms(5) by (simp_all add: seek_ok_def)
  have "agent_rpc a (method_name TRUNCATE) ?v (remote s) = (Inr JNull, os_modify (set_length n) q (remote s))"
    unfolding agent_rpc_def file_method_agent option.case agent_truncate_def path_param_def truncate_call [OF n(1)]
    using assms n(2) by simp
  then have "remote (truncate_both ?env p n s) = os_modify (set_length n) q (remote s)"
    by (simp add: truncate_both_def rpc_def Let_def split: sum.split)
  then have "remote (snd (fuse_setattr ?env i None (Some n) s)) = os_modify (set_length n) q (remote s)"
    using assms(2) by (simp add: fuse_setattr_def remote_attr_reply)
  then show ?thesis using assms(4) by (simp add: node_at_modify)
qed

lemma sample_mount_simps [simp]:
  "read_only (sample_mount ro) = ro" "remote (sample_mount ro) = sample_os"
  "inodes (sample_mount ro) = new_inodes [RootDir, Normal ''d'']"
  "remote_dir (sample_mount ro) = [RootDir, Normal ''d'']" "cache_dir (sample_mount ro) = [RootDir, Normal ''c'']"
  "uploads (sample_mount ro) = new_queue 0"
  by (simp_all add: sample_mount_def new_fuse_def)

definition known_mount :: "bool \<Rightarrow> os fuse" where
  "known_mount ro = snd (child_path 1 ''f'' (sample_mount ro))"

lemma known_mount_simps [simp]:
  "read_only (known_mount ro) = ro" "remote (known_mount ro) = sample_os"
  "path_for (known_mount ro) (Suc (Suc 0)) = Some [RootDir, Normal ''d'', Normal ''f'']"
  "path_for (known_mount ro) (Suc 0) = Some [RootDir, Normal ''d'']"
  by (simp_all add: known_mount_def child_path_def ino_path_def new_inodes_def ino_for_path_def ino_for_def
      path_for_def path_join_def)

theorem read_only_mount_still_truncates_witness:
  "node_at (remote (snd (handle (drained_env (agent_rpc sample_env)) (Setattr 2 None (Some 0)) (known_mount True))))
     [RootDir, Normal ''d'', Normal ''f''] = Some (NFile (touch sample_os sample_meta) [])"
proof -
  have "os_open_write (path_of (path_string [RootDir, Normal ''d'', Normal ''f''])) sample_os =
      Inr [RootDir, Normal ''d'', Normal ''f'']"
    using path_of_path_string [of "[Normal ''d'', Normal ''f'']"] sample_node sample_path_of
    by (simp add: os_open_write_def good_rel_def good_name_def)
  moreover have "node_at sample_os [RootDir, Normal ''d'', Normal ''f''] = Some (NFile sample_meta [1, 2, 3])"
    by (simp add: sample_os_def node_at_def)
  ultimately show ?thesis
    using read_only_mount_still_truncates [of "known_mount True" 2 "[RootDir, Normal ''d'', Normal ''f'']"
        "[RootDir, Normal ''d'', Normal ''f'']" sample_meta "[1, 2, 3]" 0 sample_env]
    by (simp add: seek_ok_def set_length_def numeral_2_eq_2)
qed

lemma cache_os:
  "local_fs (sample_mount ro) = empty_os\<lparr>nodes := [([RootDir], NDir sample_meta),
     ([RootDir, Normal ''c''], NDir (new_meta empty_os 511))]\<rparr>"
  by (simp add: sample_mount_def new_fuse_def empty_os_def os_create_dir_all.simps os_create_dir_def
      os_path_def node_at_def put_node_def MAX_LINKS_def new_meta_def)

lemma cache_os_read [simp]:
  "try_local (os_create_dir_all [RootDir, Normal ''c'']) (sample_mount ro) = sample_mount ro"
  "os_read_dir (local_fs (sample_mount ro)) [RootDir, Normal ''c''] = Inr []"
  by (simp_all add: try_local_def cache_os os_create_dir_all.simps os_create_dir_def os_read_dir_def children_def
      below_def is_dir_def os_node_def os_path_def node_at_def MAX_LINKS_def empty_os_def)

section \<open>Removals\<close>

text \<open>\<open>unlink\<close> and \<open>rmdir\<close> answer success whatever the target answered to the removal: on an
  error, \<open>EACCES\<close> or an unreachable target, the caller is told the entry is gone.\<close>

theorem failed_removal_reported_ok:
  assumes "\<not> read_only s" and "child_path par w s = (Some p, s1)" and "drain_uploads env [p] s1 = (Inr (), s2)"
    and "fe_rpc env (method_name REMOVE) (JObj [path_param p, (''recursive'', JBool False)]) (remote s2) = (Inl e, r)"
  shows "fst (handle env (Unlink par w) s) = ROk \<and> remote (snd (handle env (Unlink par w) s)) = r \<and>
    fst (handle env (Rmdir par w) s) = ROk \<and> remote (snd (handle env (Rmdir par w) s)) = r"
proof -
  have "\<not> read_only s1" using child_path_keeps [OF assms(2)] assms(1) by auto
  moreover have "remote (try_rpc env REMOVE [path_param p, (''recursive'', JBool False)] (try_local f s2)) = r"
    for f :: "os \<Rightarrow> (io_error + unit) \<times> os"
    using assms(4) by (simp add: try_rpc_def rpc_def)
  ultimately show ?thesis
    using assms(2,3) by (simp add: fuse_unlink_def fuse_rmdir_def modifying_def drained_def)
qed

theorem failed_removal_reported_ok_witness:
  "fst (handle (drained_env offline_rpc) (Unlink 1 ''f'') (sample_mount False)) = ROk \<and>
   node_at (remote (snd (handle (drained_env offline_rpc) (Unlink 1 ''f'') (sample_mount False))))
     [RootDir, Normal ''d'', Normal ''f''] = Some (NFile sample_meta [1, 2, 3])"
proof -
  obtain p s1 where c: "child_path 1 ''f'' (sample_mount False) = (Some p, s1)"
    by (simp add: child_path_def ino_path_def new_inodes_def)
  then have "remote s1 = sample_os" using child_path_keeps [OF c] by auto
  then show ?thesis
    using failed_removal_reported_ok [OF _ c, of "drained_env offline_rpc" s1]
    by (simp add: offline_rpc_def sample_os_def node_at_def)
qed

section \<open>Inode numbers\<close>

lemma handle_all_append: "handle_all env (qs @ qs') s = handle_all env qs' (handle_all env qs s)"
  by (simp add: handle_all_def)

lemma inode_inv_mount: "inode_inv (inodes (new_fuse rdir cdir ro now loc r))"
  by (simp add: new_fuse_def inode_inv_new)

text \<open>C29: an inode number, once given out, names the same path for the life of the mount, and no
  other number names it. That holds across \<open>rename\<close> and \<open>unlink\<close> too: a file that is renamed
  while open goes on being read and written under its old path.\<close>

theorem inode_numbers_are_stable:
  assumes "fair_env env" and "s = handle_all env qs (new_fuse rdir cdir ro now loc r)"
    and "path_for s i = Some p" and "t = handle_all env qs' s"
  shows "path_for t i = Some p \<and> (path_for t j = Some p \<longrightarrow> j = i)"
proof -
  let ?s0 = "new_fuse rdir cdir ro now loc r"
  have "grows ?s0 s" unfolding assms(2) by (rule grows_handle_all [OF assms(1)])
  then have "inode_inv (inodes s)" unfolding grows_def using inode_inv_mount [of rdir cdir ro now loc r] by (rule mp [THEN conjunct1])
  moreover have "grows s t" unfolding assms(4) by (rule grows_handle_all [OF assms(1)])
  ultimately have t: "inode_inv (inodes t)" "by_ino (inodes s) \<subseteq>\<^sub>m by_ino (inodes t)"
    by (simp_all add: grows_def)
  then have "path_for t i = Some p"
    using assms(3) by (auto simp: path_for_def ino_path_def map_le_def dom_def)
  then show ?thesis using inodes.number_inj [OF t(1)] by (simp add: path_for_def)
qed

lemma fair_drained_env: "fair_env (drained_env f)"
  by (simp add: fair_env_def drained_env_def)

theorem inode_numbers_are_stable_witness:
  "path_for (handle_all (drained_env offline_rpc) [Rename 1 ''f'' 1 ''g'']
     (handle_all (drained_env offline_rpc) [Lookup 1 ''f''] (sample_mount False))) 2 =
     Some [RootDir, Normal ''d'', Normal ''f'']"
proof -
  let ?s = "snd (handle (drained_env offline_rpc) (Lookup 1 ''f'') (sample_mount False))"
  have s: "handle_all (drained_env offline_rpc) [Lookup 1 ''f''] (sample_mount False) = ?s"
    by (simp add: handle_all_def)
  have "child_path 1 ''f'' (sample_mount False) = (Some [RootDir, Normal ''d'', Normal ''f''], known_mount False)"
    by (simp add: known_mount_def child_path_def ino_path_def new_inodes_def path_join_def)
  moreover have "grows (known_mount False) (snd (attr_reply REntry (attr_for (drained_env offline_rpc) p (known_mount False))))" for p
    by (rule grows_attr_reply)
  ultimately have "grows (known_mount False) ?s" by (simp add: fuse_lookup_def)
  moreover have "inode_inv (inodes (known_mount False))"
    using grows_child_path [of "sample_mount False" 1 "''f''"] inode_inv_new [of "[RootDir, Normal ''d'']"]
    by (simp add: grows_def known_mount_def)
  moreover have "by_ino (inodes (known_mount False)) 2 = Some [RootDir, Normal ''d'', Normal ''f'']"
    using known_mount_simps(3) [of False] by (simp add: path_for_def ino_path_def numeral_2_eq_2)
  ultimately have "path_for ?s 2 = Some [RootDir, Normal ''d'', Normal ''f'']"
    by (auto simp: grows_def path_for_def ino_path_def map_le_def dom_def)
  then show ?thesis
    using inode_numbers_are_stable [OF fair_drained_env, of ?s offline_rpc "[Lookup 1 ''f'']"] s
    unfolding sample_mount_def by metis
qed

section \<open>Listing a directory\<close>

lemma number_entries_names:
  assumes "inode_inv (inodes s)" and "number_entries p es s = (xs, s')"
  shows "map snd xs = es \<and> inode_inv (inodes s') \<and> by_ino (inodes s) \<subseteq>\<^sub>m by_ino (inodes s') \<and>
    (\<forall>(i, k, w) \<in> set xs. path_for s' i = Some (path_join p (path_of w)))"
  using assms
proof (induction p es s arbitrary: xs s' rule: number_entries.induct)
  case (2 p k w es s)
  obtain i m where m: "ino_for (path_join p (path_of w)) (inodes s) = (i, m)" by fastforce
  let ?s = "s\<lparr>inodes := m\<rparr>"
  obtain ys t where t: "number_entries p es ?s = (ys, t)" by fastforce
  have i: "ino_for_path (path_join p (path_of w)) s = (i, ?s)" by (simp add: ino_for_path_def m)
  note inv = ino_for_inv [OF "2.prems"(1) m]
  have eq: "xs = (i, k, w) # ys" "s' = t" using "2.prems"(2) by (simp_all add: i t)
  have IH: "map snd ys = es \<and> inode_inv (inodes t) \<and> by_ino m \<subseteq>\<^sub>m by_ino (inodes t) \<and>
      (\<forall>(i, k, w) \<in> set ys. path_for t i = Some (path_join p (path_of w)))"
    using "2.IH" [OF i [symmetric]] inv(1) t by simp
  moreover have "path_for t i = Some (path_join p (path_of w))"
    using IH inv(2) by (auto simp: path_for_def ino_path_def map_le_def dom_def)
  ultimately show ?case using inv(3) map_le_trans by (auto simp: eq)
qed simp

lemma fill_page_nth:
  "length (fill_page room off xs) = min room (length xs - off)"
  "k < length (fill_page room off xs) \<Longrightarrow> fill_page room off xs ! k = (off + k + 1, xs ! (off + k))"
proof -
  show len: "length (fill_page room off xs) = min room (length xs - off)"
    by (simp add: fill_page_def min.commute)
  assume "k < length (fill_page room off xs)"
  then have k: "k < room" "off + k < length xs" by (auto simp: len)
  then show "fill_page room off xs ! k = (off + k + 1, xs ! (off + k))"
    unfolding fill_page_def by (simp del: upt_Suc)
qed

text \<open>Reading a directory from offset \<open>off\<close> returns the entries of the listing from there on, as
  many as fit, each with the offset to go on from, so that reading page after page yields "."
  and ".." and every entry once; each entry's inode number is the number of its path.\<close>

theorem directory_pages_complete:
  assumes "path_for s i = Some p" and "inode_inv (inodes s)"
    and "dir_entries env p s = (Inr es, s1)" and "handle env (Readdir room i off) s = (RDir page, s')"
  shows "\<exists>xs. map snd xs = es \<and> length page = min room (length es + 2 - off) \<and>
    (\<forall>k < length page. page ! k = (case ([(i, DirectoryType, ''.''), (1, DirectoryType, ''..'')] @ xs) ! (off + k)
       of (j, kind, w) \<Rightarrow> (j, off + k + 1, kind, w))) \<and>
    (\<forall>(j, kind, w) \<in> set xs. path_for s' j = Some (path_join p (path_of w)))"
proof -
  obtain xs t where n: "number_entries p es s1 = (xs, t)" by fastforce
  let ?all = "[(i, DirectoryType, ''.''), (1, DirectoryType, ''..'')] @ xs"
  have "inodes s1 = inodes s" using inodes_dir_entries [of env p s] assms(3) by simp
  then have x: "map snd xs = es" "\<forall>(j, kind, w) \<in> set xs. path_for t j = Some (path_join p (path_of w))"
    using number_entries_names [OF _ n] assms(2) by simp_all
  have page: "page = map (\<lambda>(off, i, k, w). (i, off, k, w)) (fill_page room off ?all)" and "s' = t"
    using assms(1,3,4) n by (simp_all add: fuse_readdir_def)
  have len: "length xs = length es" using x(1) by auto
  have f: "length (fill_page room off ?all) = min room (length ?all - off)"
    "\<And>k. k < length (fill_page room off ?all) \<Longrightarrow> fill_page room off ?all ! k = (off + k + 1, ?all ! (off + k))"
    by (rule fill_page_nth)+
  have "length page = min room (length es + 2 - off)"
    unfolding page length_map f(1) by (simp add: len)
  moreover have "page ! k = (case ?all ! (off + k) of (j, kind, w) \<Rightarrow> (j, off + k + 1, kind, w))"
    if "k < length page" for k
  proof -
    have k: "k < length (fill_page room off ?all)" using that unfolding page length_map .
    show ?thesis unfolding page nth_map [OF k] f(2) [OF k] by (simp only: prod.case_distrib split_beta fst_conv snd_conv)
  qed
  ultimately show ?thesis
    using x \<open>s' = t\<close> by blast
qed

theorem directory_pages_complete_witness:
  "\<exists>j s'. handle (drained_env offline_rpc) (Readdir 5 1 1) (sample_mount False) =
     (RDir [(1, 2, DirectoryType, ''..'')], s')"
proof -
  let ?s = "sample_mount False" and ?env = "drained_env offline_rpc :: os fuse_env"
  let ?p = "[RootDir, Normal ''d'']"
  obtain r s' where h: "handle ?env (Readdir 5 1 1) ?s = (r, s')" by fastforce
  have d: "dir_entries ?env ?p ?s = (Inr [], ?s)"
    by (simp add: dir_entries_def rpc_def offline_rpc_def cache_path_def strip_prefix_def path_join_def
        local_entries_def cache_os_read Let_def)
  have "r = RDir [(1, 2, DirectoryType, ''..'')]"
    using h d by (simp add: fuse_readdir_def path_for_def ino_path_def new_inodes_def fill_page_def numeral_2_eq_2)
  then obtain page where "r = RDir page" by blast
  with h have "handle ?env (Readdir 5 1 1) ?s = (RDir page, s')" by simp
  note c = directory_pages_complete [OF _ _ d this]
  have "path_for ?s 1 = Some ?p" by (simp add: path_for_def ino_path_def new_inodes_def)
  from c [OF this] have "length page = 1" "page ! 0 = (1, 2, DirectoryType, ''..'')"
    by (auto simp: inode_inv_new)
  then have "page = [(1, 2, DirectoryType, ''..'')]" by (cases page) simp_all
  then show ?thesis using h \<open>r = RDir page\<close> by blast
qed

section \<open>Reading what was written\<close>

lemma write_cache_content:
  assumes "write_cache q off bs fs0 = Some fs" and "os_node fs True q = Inr (x, NFile m b)"
  shows "\<exists>old. b = write_bytes off bs old \<and> (os_node fs0 True q = Inl NotFound \<longrightarrow> old = [])"
proof (cases "os_node fs0 True q")
  case (Inl e)
  then have e: "e = NotFound" "os_open_write q fs0 = Inl NotFound"
    using assms(1) by (auto simp: write_cache_def os_open_write_def split: io_error.splits)
  then obtain r where r: "os_path fs0 True q = Inr r" "node_at fs0 r = None"
    using assms(1) Inl
    by (auto simp: write_cache_def os_create_file_def os_node_def split: sum.splits option.splits)
  then have "fs = os_modify (write_bytes off bs) r (put_node r (NFile (new_meta fs0 438) []) fs0)"
    using assms(1) e by (auto simp: write_cache_def os_create_file_def split: if_splits)
  then show ?thesis
    using os_node_modify [OF os_node_new_file [OF r]] assms(2) by auto
next
  case (Inr y)
  then obtain r n where y: "os_node fs0 True q = Inr (r, n)" by (cases y) simp
  then have fs: "fs = os_modify (write_bytes off bs) r fs0"
    using assms(1) by (auto simp: write_cache_def os_open_write_def split: node.splits if_splits)
  have at: "node_at fs0 r = Some n" using y by (auto simp: os_node_def split: sum.splits option.splits)
  show ?thesis
  proof (cases n)
    case (NFile m0 old)
    then show ?thesis using os_node_modify [of fs0 True q r m0 old] y fs assms(2) by auto
  qed (use y at fs assms(2) in \<open>simp_all add: os_modify_def\<close>)
qed

definition idle_wait :: "'r fuse_env \<Rightarrow> bool" where
  "idle_wait env \<longleftrightarrow> (\<forall>t. local_fs (fe_below env t) = local_fs t \<and> inodes (fe_below env t) = inodes t \<and>
     remote_dir (fe_below env t) = remote_dir t \<and> cache_dir (fe_below env t) = cache_dir t)"

definition cached_write :: "'r fuse \<Rightarrow> path \<Rightarrow> nat \<Rightarrow> bytes \<Rightarrow> os option" where
  "cached_write s p off bs =
     write_cache (cache_path s p) off bs (snd (os_create_dir_all (butlast (cache_path s p)) (local_fs s)))"

lemma write_then_cached:
  assumes "\<not> read_only s" and "idle_wait env" and "path_for s i = Some p" and "cached_write s p off bs = Some fs"
    and "handle env (Write i off bs) s = (r, s')"
  shows "local_fs s' = fs" and "path_for s' i = Some p" and "cache_path s' p = cache_path s p"
proof -
  have q: "local_fs (queue_upload env p off n t) = local_fs t \<and> inodes (queue_upload env p off n t) = inodes t \<and>
      remote_dir (queue_upload env p off n t) = remote_dir t \<and> cache_dir (queue_upload env p off n t) = cache_dir t"
    for n t using assms(2) by (auto simp: queue_upload_def Let_def idle_wait_def)
  have "s' = queue_upload env p off (length bs) ((try_local (os_create_dir_all (butlast (cache_path s p))) s)\<lparr>local_fs := fs\<rparr>)"
    using assms by (simp add: fuse_write_def cached_write_def try_local_def Let_def)
  then show "local_fs s' = fs" "path_for s' i = Some p" "cache_path s' p = cache_path s p"
    using q assms(3) by (simp_all add: path_for_def try_local_def cache_path_def cong: option.case_cong)
qed

lemma window_of_write:
  assumes "k + len \<le> length bs"
  shows "take len (drop (off + k) (write_bytes off bs old)) = take len (drop k bs)"
proof -
  have "min (length old) off + (off - length old) = off" by simp
  then show ?thesis using assms by (cases "bs = []") (auto simp: write_bytes_def)
qed

lemma window_before_write: "at + len \<le> off \<Longrightarrow> bs \<noteq> [] \<Longrightarrow> take len (drop at (write_bytes off bs [])) = replicate len 0"
  by (simp add: write_bytes_def)

lemma read_cached_window:
  assumes "path_for s i = Some p" and "os_node (local_fs s) True (cache_path s p) = Inr (x, NFile m b)"
    and "off + len \<le> length b" and "0 < len"
  shows "handle env (Read i off len) s = (RData (take len (drop off b)), s)"
proof -
  have "b \<noteq> []" "off < length b" "min len (length b - off) = len" using assms(3,4) by auto
  then show ?thesis using assms(1,2) by (simp add: fuse_read_def cached_bytes_def)
qed

text \<open>C25: after a write that reached the cache file, reading any part of what was written returns
  those bytes, without asking the target, whether or not the upload has been sent.\<close>

theorem read_your_writes:
  assumes "\<not> read_only s" and "idle_wait env" and "path_for s i = Some p"
    and "cached_write s p off bs = Some fs" and "os_node fs True (cache_path s p) = Inr (x, NFile m b)"
    and "handle env (Write i off bs) s = (r, s')" and "k + len \<le> length bs" and "0 < len"
  shows "r = RWritten (length bs) \<and> handle env' (Read i (off + k) len) s' = (RData (take len (drop k bs)), s')"
proof -
  note w = write_then_cached [OF assms(1-4,6)]
  obtain old where b: "b = write_bytes off bs old"
    using write_cache_content [OF assms(4) [unfolded cached_write_def] assms(5)] by blast
  have "off + k + len \<le> length b"
    using assms(7,8) unfolding b by (subst length_write_bytes) auto
  moreover have "os_node (local_fs s') True (cache_path s' p) = Inr (x, NFile m b)" using w assms(5) by simp
  ultimately have "handle env' (Read i (off + k) len) s' = (RData (take len (drop (off + k) b)), s')"
    using read_cached_window w(2) assms(8) by blast
  moreover have "r = RWritten (length bs)"
    using assms(1,3,4,6) by (simp add: fuse_write_def cached_write_def try_local_def Let_def)
  ultimately show ?thesis using window_of_write [OF assms(7)] by (simp add: b)
qed

definition cache_write_os :: "nat \<Rightarrow> bytes \<Rightarrow> os" where
  "cache_write_os off bs = empty_os\<lparr>nodes := [([RootDir], NDir sample_meta),
     ([RootDir, Normal ''c''], NDir (new_meta empty_os 511)),
     ([RootDir, Normal ''c'', Normal ''f''], NFile (touch empty_os (new_meta empty_os 438)) (write_bytes off bs []))]\<rparr>"

lemma sample_cached_write:
  assumes "seek_ok off"
  shows "cached_write (known_mount False) [RootDir, Normal ''d'', Normal ''f''] off bs = Some (cache_write_os off bs)"
    and "os_node (cache_write_os off bs) True (cache_path (known_mount False) [RootDir, Normal ''d'', Normal ''f'']) =
      Inr ([RootDir, Normal ''c'', Normal ''f''], NFile (touch empty_os (new_meta empty_os 438)) (write_bytes off bs []))"
    and "os_node (snd (os_create_dir_all (butlast (cache_path (known_mount False) [RootDir, Normal ''d'', Normal ''f'']))
      (local_fs (known_mount False)))) True (cache_path (known_mount False) [RootDir, Normal ''d'', Normal ''f'']) = Inl NotFound"
proof -
  have k: "local_fs (known_mount False) = local_fs (sample_mount False)" "remote_dir (known_mount False) = [RootDir, Normal ''d'']"
    "cache_dir (known_mount False) = [RootDir, Normal ''c'']"
    by (simp_all add: known_mount_def child_path_def ino_path_def new_inodes_def ino_for_path_def split: prod.split)
  have c: "cache_path (known_mount False) [RootDir, Normal ''d'', Normal ''f''] = [RootDir, Normal ''c'', Normal ''f'']"
    by (simp add: cache_path_def k strip_prefix_def path_join_def)
  have d: "snd (os_create_dir_all [RootDir, Normal ''c''] (local_fs (sample_mount False))) = local_fs (sample_mount False)"
    using cache_os_read(1) [of False] unfolding try_local_def by (metis fuse.ext_inject fuse.surjective fuse.update_convs(6))
  have e: "snd (os_create_dir_all (butlast [RootDir, Normal ''c'', Normal ''f'']) (local_fs (sample_mount False))) =
      local_fs (sample_mount False)" using d by simp
  show "os_node (snd (os_create_dir_all (butlast (cache_path (known_mount False) [RootDir, Normal ''d'', Normal ''f'']))
      (local_fs (known_mount False)))) True (cache_path (known_mount False) [RootDir, Normal ''d'', Normal ''f'']) = Inl NotFound"
    unfolding c k e by (simp add: cache_os os_node_def os_path_def node_at_def MAX_LINKS_def empty_os_def)
  show "cached_write (known_mount False) [RootDir, Normal ''d'', Normal ''f''] off bs = Some (cache_write_os off bs)"
    unfolding cached_write_def c k e
    using assms by (simp add: cache_os write_cache_def os_open_write_def os_create_file_def os_node_def
        os_path_def node_at_def put_node_def os_modify_def MAX_LINKS_def empty_os_def cache_write_os_def new_meta_def touch_def)
  show "os_node (cache_write_os off bs) True (cache_path (known_mount False) [RootDir, Normal ''d'', Normal ''f'']) =
      Inr ([RootDir, Normal ''c'', Normal ''f''], NFile (touch empty_os (new_meta empty_os 438)) (write_bytes off bs []))"
    by (simp add: c cache_write_os_def os_node_def os_path_def node_at_def MAX_LINKS_def empty_os_def new_meta_def)
qed

lemma idle_drained_env: "idle_wait (drained_env f)"
  by (simp add: idle_wait_def drained_env_def)

theorem read_your_writes_witness:
  "\<exists>s'. handle (drained_env offline_rpc) (Read 2 4 1) s' = (RData [8], s') \<and>
     snd (handle (drained_env offline_rpc) (Write 2 3 [7, 8]) (known_mount False)) = s'"
proof -
  let ?env = "drained_env offline_rpc :: os fuse_env"
  obtain r s' where h: "handle ?env (Write 2 3 [7, 8]) (known_mount False) = (r, s')" by fastforce
  have o: "seek_ok 3" by (simp add: seek_ok_def)
  have "path_for (known_mount False) 2 = Some [RootDir, Normal ''d'', Normal ''f'']"
    using known_mount_simps(3) [of False] by (simp add: numeral_2_eq_2)
  from read_your_writes [OF _ idle_drained_env this sample_cached_write(1,2) [OF o] h, of 1 1 ?env]
  show ?thesis using h by simp
qed

text \<open>C26: a write past the end of a file that is not yet cached leaves a gap of zeros in the cache
  file, and later reads in the gap return those zeros without asking the target, whatever the
  file holds there. (The read path guards its own fetches against just that.)\<close>

theorem unread_gap_served_as_zeros:
  assumes "\<not> read_only s" and "idle_wait env" and "path_for s i = Some p"
    and "cached_write s p off bs = Some fs" and "os_node fs True (cache_path s p) = Inr (x, NFile m b)"
    and "os_node (snd (os_create_dir_all (butlast (cache_path s p)) (local_fs s))) True (cache_path s p) = Inl NotFound"
    and "handle env (Write i off bs) s = (r, s')" and "bs \<noteq> []" and "at + len \<le> off" and "0 < len"
  shows "handle env' (Read i at len) s' = (RData (replicate len 0), s')"
proof -
  note w = write_then_cached [OF assms(1-4,7)]
  have b: "b = write_bytes off bs []"
    using write_cache_content [OF assms(4) [unfolded cached_write_def] assms(5)] assms(6) by blast
  have "at + len \<le> length b" using assms(8,9) unfolding b by (subst length_write_bytes) auto
  moreover have "os_node (local_fs s') True (cache_path s' p) = Inr (x, NFile m b)" using w assms(5) by simp
  ultimately have "handle env' (Read i at len) s' = (RData (take len (drop at b)), s')"
    using read_cached_window w(2) assms(10) by blast
  then show ?thesis using window_before_write [OF assms(9,8)] by (simp add: b)
qed

theorem unread_gap_served_as_zeros_witness:
  "\<exists>s'. handle (drained_env (agent_rpc sample_env)) (Read 2 0 3) s' = (RData [0, 0, 0], s') \<and>
     snd (handle (drained_env (agent_rpc sample_env)) (Write 2 3 [7]) (known_mount False)) = s'"
proof -
  let ?env = "drained_env (agent_rpc sample_env)"
  obtain r s' where h: "handle ?env (Write 2 3 [7]) (known_mount False) = (r, s')" by fastforce
  have o: "seek_ok 3" by (simp add: seek_ok_def)
  have "path_for (known_mount False) 2 = Some [RootDir, Normal ''d'', Normal ''f'']"
    using known_mount_simps(3) [of False] by (simp add: numeral_2_eq_2)
  from unread_gap_served_as_zeros [OF _ idle_drained_env this sample_cached_write [OF o] h, of 0 3 ?env]
  show ?thesis using h by (simp add: eval_nat_numeral)
qed

section \<open>Error texts\<close>

lemma str_contains_infix: "str_contains (to_lowercase w) x \<Longrightarrow> str_contains (to_lowercase (u @ w @ v)) x"
  by (fastforce simp: str_contains_iff to_lowercase_def intro: exI [of _ "map ascii_lower u @ _"])

definition plain_text :: "string \<Rightarrow> bool" where
  "plain_text m \<longleftrightarrow> list_all (\<lambda>x. \<not> str_contains (to_lowercase m) x) [''no such file'', ''not found'',
     ''permission'', ''denied'', ''exists'', ''not a directory'', ''is a directory'']"

lemma plain_text_retried:
  "plain_text m \<Longrightarrow> errno_for (rpc_error_new AGENT_OFFLINE m) = EIO \<and> \<not> send_fatal (rpc_error_new AGENT_OFFLINE m)"
  by (simp add: plain_text_def errno_for_def send_fatal_def rpc_error_new_def Let_def)

lemma transport_texts_plain:
  "plain_text ''agent is not connected''" "plain_text ''connection to agent lost''"
  "plain_text ''relay connection offline (reconnecting)''"
  by code_simp+

lemma transport_errors_retried:
  "\<forall>m \<in> {''agent is not connected'', ''connection to agent lost'', ''relay connection offline (reconnecting)''}.
     errno_for (rpc_error_new AGENT_OFFLINE m) = EIO \<and> \<not> send_fatal (rpc_error_new AGENT_OFFLINE m)"
  using plain_text_retried transport_texts_plain by blast

text \<open>Error numbers and the decision to drop a queued write are read off the error's text. An
  unreachable target gives \<open>EIO\<close> and a retry. But the agent's texts contain the path: for a
  path with "denied" or "permission" in it every failure to open the file, also a passing one,
  counts as permanent, so the queued bytes are dropped, and the caller sees \<open>ENOENT\<close> or \<open>EACCES\<close>.\<close>

theorem path_text_decides_errors:
  assumes "str_contains (to_lowercase w) ''denied'' \<or> str_contains (to_lowercase w) ''permission''"
    and "io_failed what w e = Failed m"
  shows "(\<forall>t \<in> {''agent is not connected'', ''connection to agent lost'', ''relay connection offline (reconnecting)''}.
       errno_for (rpc_error_new AGENT_OFFLINE t) = EIO \<and> \<not> send_fatal (rpc_error_new AGENT_OFFLINE t)) \<and>
    send_fatal (rpc_error_new INTERNAL_ERROR m) \<and> errno_for (rpc_error_new INTERNAL_ERROR m) \<in> {ENOENT, EACCES}"
proof -
  have m: "m = (what @ '' '') @ w @ ('': '' @ io_text e)" using assms(2) by (simp add: io_failed_def)
  have "str_contains (to_lowercase m) ''denied'' \<or> str_contains (to_lowercase m) ''permission''"
    unfolding m using assms(1) str_contains_infix by blast
  then have "send_fatal (rpc_error_new INTERNAL_ERROR m) \<and> errno_for (rpc_error_new INTERNAL_ERROR m) \<in> {ENOENT, EACCES}"
    by (auto simp: send_fatal_def errno_for_def Let_def rpc_error_new_def)
  then show ?thesis using transport_errors_retried by blast
qed

theorem path_text_decides_errors_witness:
  "send_fatal (rpc_error_new INTERNAL_ERROR (''open /d/denied-list: '' @ io_text IsADirectory))"
proof -
  have "str_contains (to_lowercase ''/d/denied-list'') ''denied''" by code_simp
  moreover have "io_failed ''open'' ''/d/denied-list'' IsADirectory = Failed (''open /d/denied-list: '' @ io_text IsADirectory)"
    by (simp add: io_failed_def)
  ultimately show ?thesis using path_text_decides_errors by blast
qed

end
