(* ===== verification/Cache_Sync.thy ===== *)
theory Cache_Sync
  imports Fuse_Fs
begin

text \<open>
  The background tasks that fill a mount's cache directory (\<open>prefetch_tail\<close>,
  \<open>background_sync_folder\<close> and \<open>download_to_cache\<close> of \<open>crates/bridge/src/fuse_fs.rs\<close>), over the
  same state as the mount. The window of concurrent requests does not show in the model of the
  prefetch, whose results are applied in offset order; a download writes its chunks in the
  order they arrive, which is a parameter.
\<close>

section \<open>Prefetch\<close>

definition PREFETCH_CHUNK :: nat where "PREFETCH_CHUNK = 1024 * 1024"

text \<open>One \<open>READ_FILE\<close>, decoded. \<open>None\<close>: it failed or the target had no bytes.\<close>

definition fetch_chunk :: "'r fuse_env \<Rightarrow> string \<Rightarrow> nat \<Rightarrow> nat \<Rightarrow> 'r fuse \<Rightarrow> bytes option \<times> 'r fuse" where
  "fetch_chunk env rp start limit s =
     (case rpc env (method_name READ_FILE, JObj [(''path'', JStr rp), (''offset'', JInt (int start)),
          (''limit'', JInt (int limit))]) s of
        (Inl _, s1) \<Rightarrow> (None, s1)
      | (Inr v, s1) \<Rightarrow> (case of_read_file_result v of
          None \<Rightarrow> (None, s1)
        | Some r \<Rightarrow> (case fe_dec env (rfr_data r) of
            None \<Rightarrow> (None, s1)
          | Some b \<Rightarrow> (if b = [] then None else Some b, s1))))"

text \<open>The chunk offsets of \<open>[from, n)\<close>.\<close>

definition chunk_offsets :: "nat \<Rightarrow> nat \<Rightarrow> nat \<Rightarrow> nat list" where
  "chunk_offsets step from n = map (\<lambda>i. from + i * step) [0..<(n - from + step - 1) div step]"

fun warm_cache :: "'r fuse_env \<Rightarrow> string \<Rightarrow> path \<Rightarrow> nat \<Rightarrow> nat list \<Rightarrow> 'r fuse \<Rightarrow> 'r fuse" where
  "warm_cache env rp q n [] s = s"
| "warm_cache env rp q n (off # offs) s =
     (case fetch_chunk env rp off (min (n - off) PREFETCH_CHUNK) s of
        (None, s1) \<Rightarrow> s1
      | (Some b, s1) \<Rightarrow> (case write_cache q off b (local_fs s1) of
          None \<Rightarrow> s1
        | Some fs \<Rightarrow> warm_cache env rp q n offs (s1\<lparr>local_fs := fs\<rparr>)))"

definition cached_len :: "path \<Rightarrow> os \<Rightarrow> nat" where
  "cached_len q fs = (case os_node fs True q of Inr (_, n) \<Rightarrow> node_len n | Inl _ \<Rightarrow> 0)"

definition prefetch_tail :: "'r fuse_env \<Rightarrow> string \<Rightarrow> path \<Rightarrow> 'r fuse \<Rightarrow> 'r fuse" where
  "prefetch_tail env rp q s =
     (case rpc env (method_name STAT, JObj [(''path'', JStr rp)]) s of
        (Inl _, s1) \<Rightarrow> s1
      | (Inr v, s1) \<Rightarrow>
          (let n = (case of_stat_result v of Some st \<Rightarrow> unat (st_size st) | None \<Rightarrow> 0);
               from = cached_len q (local_fs s1)
           in if n \<le> from then s1
              else warm_cache env rp q n (chunk_offsets PREFETCH_CHUNK from n) s1))"

text \<open>The task \<open>kick_prefetch\<close> starts, for a path it has put into \<open>prefetching\<close>.\<close>

definition run_prefetch :: "'r fuse_env \<Rightarrow> path \<Rightarrow> 'r fuse \<Rightarrow> 'r fuse" where
  "run_prefetch env p s = (let s1 = prefetch_tail env (path_string p) (cache_path s p) s in
     s1\<lparr>prefetching := prefetching s1 - {p}\<rparr>)"

section \<open>Downloads into the cache\<close>

definition SYNC_CHUNK :: nat where "SYNC_CHUNK = 1024 * 1024"

text \<open>
  The chunk tasks in the order they complete; the first that fails settles the outcome (what
  the others still write is in the temporary file, which goes away).
\<close>

fun fetch_chunks :: "'r fuse_env \<Rightarrow> string \<Rightarrow> path \<Rightarrow> nat \<Rightarrow> nat list \<Rightarrow> 'r fuse \<Rightarrow> bool \<times> 'r fuse" where
  "fetch_chunks env rp temp n [] s = (True, s)"
| "fetch_chunks env rp temp n (off # offs) s =
     (case fetch_chunk env rp off (min (n - off) SYNC_CHUNK) s of
        (None, s1) \<Rightarrow> (False, s1)
      | (Some b, s1) \<Rightarrow> (case write_cache temp off b (local_fs s1) of
          None \<Rightarrow> (False, s1)
        | Some fs \<Rightarrow> fetch_chunks env rp temp n offs (s1\<lparr>local_fs := fs\<rparr>)))"

definition download_to_cache ::
  "'r fuse_env \<Rightarrow> path \<Rightarrow> (nat list \<Rightarrow> nat list) \<Rightarrow> string \<Rightarrow> path \<Rightarrow> nat \<Rightarrow> 'r fuse \<Rightarrow> bool \<times> 'r fuse" where
  "download_to_cache env temp order rp q n s =
     (if n = 0 then (True, try_local (os_create_file 438 q) s)
      else case fetch_chunks env rp temp n (order (chunk_offsets SYNC_CHUNK 0 n))
          (try_local (os_create_file 438 temp) (try_local (os_create_dir_all (butlast q)) s)) of
        (False, s1) \<Rightarrow> (False, try_local (os_remove_file temp) s1)
      | (True, s1) \<Rightarrow> (case os_rename temp q (local_fs s1) of
          (Inl _, fs) \<Rightarrow> (False, s1\<lparr>local_fs := fs\<rparr>)
        | (Inr _, fs) \<Rightarrow> (True, s1\<lparr>local_fs := fs\<rparr>)))"

section \<open>The mount-time mirror\<close>

definition sync_entry ::
  "'r fuse_env \<Rightarrow> (path \<Rightarrow> path) \<Rightarrow> (nat list \<Rightarrow> nat list) \<Rightarrow> string \<Rightarrow> path \<Rightarrow> dir_entry \<Rightarrow>
    (string \<times> path) list \<times> 'r fuse \<Rightarrow> (string \<times> path) list \<times> 'r fuse" where
  "sync_entry env tmp order rem loc e acc =
     (let rp = trim_end_matches (CHR ''/'') rem @ ''/'' @ de_name e; q = path_join loc (path_of (de_name e)) in
      case acc of (stack, s) \<Rightarrow>
        (case de_kind e of
           Dir \<Rightarrow> ((rp, q) # stack, s)
         | RegularFile \<Rightarrow> (stack,
             case os_node (local_fs s) True q of
               Inr (_, n) \<Rightarrow> if node_len n = unat (de_size e) then s
                 else snd (download_to_cache env (tmp q) order rp q (unat (de_size e)) s)
             | Inl _ \<Rightarrow> snd (download_to_cache env (tmp q) order rp q (unat (de_size e)) s))
         | _ \<Rightarrow> (stack, s)))"

text \<open>
  The stack of folders still to visit, last found first; \<open>None\<close> when the fuel, one unit per
  folder, runs out. A failed listing ends the whole task.
\<close>

fun background_sync ::
  "nat \<Rightarrow> 'r fuse_env \<Rightarrow> (path \<Rightarrow> path) \<Rightarrow> (nat list \<Rightarrow> nat list) \<Rightarrow> (string \<times> path) list \<Rightarrow>
    'r fuse \<Rightarrow> 'r fuse option" where
  "background_sync fuel env tmp order [] s = Some s"
| "background_sync 0 env tmp order (x # stack) s = None"
| "background_sync (Suc fuel) env tmp order ((rem, loc) # stack) s =
     (case rpc env (method_name LIST_DIR, JObj [(''path'', JStr rem)])
          (try_local (os_create_dir_all loc) s) of
        (Inl _, s1) \<Rightarrow> Some s1
      | (Inr v, s1) \<Rightarrow> (case of_list_dir_result v of
          None \<Rightarrow> background_sync fuel env tmp order stack s1
        | Some l \<Rightarrow> (case fold (sync_entry env tmp order rem loc) (ldr_entries l) (stack, s1) of
            (stack', s2) \<Rightarrow> background_sync fuel env tmp order stack' s2)))"

end
