(* ===== verification/Cache_Sync_Props.thy ===== *)
theory Cache_Sync_Props
  imports Cache_Sync Fuse_Props
begin

text \<open>The properties of the tasks that fill the cache.\<close>

section \<open>Chunks\<close>

lemma chunk_count: "0 < step \<Longrightarrow> i < (n + step - 1) div step \<longleftrightarrow> i * step < (n :: nat)"
  using less_eq_div_iff_mult_less_eq [of step "Suc i" "n + step - 1"] by (auto simp: Suc_le_eq)

lemma chunk_offsets_below:
  assumes "0 < step" and "off \<in> set (chunk_offsets step from n)"
  shows "off < n"
proof -
  obtain i where i: "i < (n - from + step - 1) div step" and off: "off = from + i * step"
    using assms(2) unfolding chunk_offsets_def by force
  show ?thesis using chunk_count [OF assms(1), of i "n - from"] i off by simp
qed

lemma chunk_offsets_cover:
  assumes "0 < step" and "i < n"
  shows "\<exists>off \<in> set (chunk_offsets step 0 n). off \<le> i \<and> i < off + min (n - off) step"
proof (intro bexI conjI)
  let ?k = "i div step"
  show k: "?k * step \<le> i" by simp
  have "i < ?k * step + step" using dividend_less_div_times [OF assms(1), of i] by (simp add: add.commute)
  then show "i < ?k * step + min (n - ?k * step) step" using assms(2) by auto
  have "?k < (n + step - 1) div step" using chunk_count [OF assms(1), of ?k n] k assms(2) by linarith
  then show "?k * step \<in> set (chunk_offsets step 0 n)" by (auto simp: chunk_offsets_def)
qed

text \<open>What a file written chunk by chunk has so far of the source.\<close>

definition partial_copy :: "bytes \<Rightarrow> nat \<Rightarrow> nat set \<Rightarrow> bytes \<Rightarrow> bool" where
  "partial_copy b step done c \<longleftrightarrow> length c \<le> length b \<and>
     (\<forall>off \<in> done. off + min (length b - off) step \<le> length c \<and>
        (\<forall>i. off \<le> i \<and> i < off + min (length b - off) step \<longrightarrow> c ! i = b ! i))"

lemma partial_copy_chunk:
  assumes "partial_copy b step d c" and "off < length b" and "0 < step"
  shows "partial_copy b step (insert off d) (write_bytes off (take (min (length b - off) step) (drop off b)) c)"
proof -
  define n where "n = min (length b - off) step"
  define new where "new = take n (drop off b)"
  define w where "w = write_bytes off new c"
  have new: "new \<noteq> []" "length new = n" using assms(2,3) by (auto simp: new_def n_def)
  have old: "length c \<le> length b" "\<And>x. x \<in> d \<Longrightarrow> x + min (length b - x) step \<le> length c"
    "\<And>x i. x \<in> d \<Longrightarrow> x \<le> i \<Longrightarrow> i < x + min (length b - x) step \<Longrightarrow> c ! i = b ! i"
    using assms(1) by (auto simp: partial_copy_def)
  have len: "length w = max (length c) (off + n)" using length_write_bytes [OF new(1)] new(2) by (simp add: w_def)
  have fit: "off + n \<le> length b" using assms(2) by (simp add: n_def)
  have fresh: "w ! i = b ! i" if "off \<le> i" "i < off + n" for i
  proof -
    have "new ! (i - off) = b ! i" using that fit by (simp add: new_def)
    then show ?thesis using nth_write_bytes [OF new(1), of i c off] that new(2) by (simp add: w_def)
  qed
  have kept: "w ! i = c ! i" if "i < length c" "\<not> (off \<le> i \<and> i < off + n)" for i
    using nth_write_bytes [OF new(1), of i c off] that new(2) by (auto simp: w_def)
  have "x + min (length b - x) step \<le> length w \<and> (\<forall>i. x \<le> i \<and> i < x + min (length b - x) step \<longrightarrow> w ! i = b ! i)"
    if x: "x \<in> insert off d" for x
  proof (cases "x = off")
    case True
    then show ?thesis using len fresh by (simp add: n_def [symmetric])
  next
    case False
    then have d: "x \<in> d" using x by simp
    have "w ! i = b ! i" if "x \<le> i" "i < x + min (length b - x) step" for i
      using old(2,3) [OF d] that fresh [of i] kept [of i] by (cases "off \<le> i \<and> i < off + n") auto
    then show ?thesis using old(2) [OF d] len by simp
  qed
  then have "partial_copy b step (insert off d) w"
    unfolding partial_copy_def using len fit old(1) by simp
  then show ?thesis by (simp add: w_def new_def n_def)
qed

lemma partial_copy_all:
  assumes "partial_copy b step (set (chunk_offsets step 0 (length b))) c" and "0 < step"
  shows "c = b"
proof -
  have c: "i < length c \<and> c ! i = b ! i" if "i < length b" for i
    using chunk_offsets_cover [OF assms(2) that] assms(1) unfolding partial_copy_def by fastforce
  have "length b \<le> length c" using c by (metis linorder_not_less nless_le)
  then show ?thesis using assms(1) c by (intro nth_equalityI) (auto simp: partial_copy_def)
qed

section \<open>Downloads\<close>

text \<open>A target that, while its state is \<open>R\<close>, answers each read of the file with all the bytes
  asked for. The agent does.\<close>

definition serves :: "'r fuse_env \<Rightarrow> string \<Rightarrow> bytes \<Rightarrow> ('r \<Rightarrow> bool) \<Rightarrow> bool" where
  "serves env rp b R \<longleftrightarrow> (\<forall>off len s. R (remote s) \<longrightarrow> off + len \<le> length b \<longrightarrow> 0 < len \<longrightarrow> len \<le> SYNC_CHUNK \<longrightarrow>
     (\<exists>r. R r \<and> fetch_chunk env rp off len s = (Some (take len (drop off b)), s\<lparr>remote := r\<rparr>)))"

lemma agent_serves:
  assumes "os_open_read (path_of w) fs = Inr q" and "node_at fs q = Some (NFile m b)" and "length b \<le> 2 ^ 63"
  shows "serves (drained_env (agent_rpc sample_env)) w b (\<lambda>r. r = fs)"
  unfolding serves_def
proof (intro allI impI)
  fix off len and s :: "os fuse"
  assume h: "remote s = fs" "off + len \<le> length b" "0 < len" "len \<le> SYNC_CHUNK"
  let ?v = "JObj [(''path'', JStr w), (''offset'', JInt (int off)), (''limit'', JInt (int len))]"
  have n: "off < 2 ^ 64" "len < 2 ^ 64" "seek_ok off" "len \<le> MAX_DIRECT_FILE_BYTES" "min len os_read_cap = len"
    using h assms(3) by (simp_all add: SYNC_CHUNK_def seek_ok_def MAX_DIRECT_FILE_BYTES_def os_read_cap_def)
  have once: "read_once off len b = take len (drop off b)" using n(5) by (simp add: read_once_def)
  have "agent_read_file raw_enc ?v fs = (Inr (read_file_result_json
      \<lparr>rfr_data = raw_enc (take len (drop off b)), rfr_eof = length (take len (drop off b)) < len\<rparr>), fs)"
    using assms(1,2) n once by (simp add: agent_read_file_def read_call os_read_at_def Let_def)
  then have "agent_rpc sample_env (method_name READ_FILE) ?v fs = (Inr (read_file_result_json
      \<lparr>rfr_data = raw_enc (take len (drop off b)), rfr_eof = length (take len (drop off b)) < len\<rparr>), fs)"
    unfolding agent_rpc_def file_method_agent option.case by (simp add: sample_env_def)
  moreover have "take len (drop off b) \<noteq> []" using h(2,3) by auto
  ultimately have "fetch_chunk (drained_env (agent_rpc sample_env)) w off len s =
      (Some (take len (drop off b)), s\<lparr>remote := fs\<rparr>)"
    unfolding fetch_chunk_def rpc_def fst_conv snd_conv h(1) drained_env_simps
    by (simp add: read_file_result_roundtrip raw_law)
  then show "\<exists>r. r = fs \<and> fetch_chunk (drained_env (agent_rpc sample_env)) w off len s =
      (Some (take len (drop off b)), s\<lparr>remote := r\<rparr>)" by blast
qed

lemma local_fetch_chunk: "fetch_chunk env rp off len s = (r, s') \<Longrightarrow> local_fs s' = local_fs s"
  by (auto simp: fetch_chunk_def rpc_def split: prod.splits sum.splits option.splits if_splits)

text \<open>Whatever the target does, the chunks go to the temporary file only.\<close>

lemma write_cache_temp:
  "os_node fs True temp = Inr (t, NFile m c) \<Longrightarrow>
   write_cache temp off bs fs = (if seek_ok off then Some (os_modify (write_bytes off bs) t fs) else None)"
  by (simp add: write_cache_def os_open_write_def)

lemma fetch_chunks_elsewhere:
  assumes "os_node (local_fs s) True temp = Inr (t, NFile m c)" and "fetch_chunks env rp temp n offs s = (ok, s')"
  shows "same_but t (local_fs s) (local_fs s') \<and> (\<exists>m c. node_at (local_fs s') t = Some (NFile m c))"
  using assms
proof (induction offs arbitrary: s m c)
  case Nil
  then show ?case by (auto simp: same_but_def os_node_def split: sum.splits option.splits)
next
  case (Cons off offs)
  obtain r s1 where r: "fetch_chunk env rp off (min (n - off) SYNC_CHUNK) s = (r, s1)" by fastforce
  note l = local_fetch_chunk [OF r]
  have at: "node_at (local_fs s) t = Some (NFile m c)"
    using Cons.prems(1) by (auto simp: os_node_def split: sum.splits option.splits)
  show ?case
  proof (cases "\<exists>b. r = Some b \<and> seek_ok off")
    case True
    then obtain b where b: "r = Some b" "seek_ok off" by blast
    let ?fs = "os_modify (write_bytes off b) t (local_fs s)"
    have w: "write_cache temp off b (local_fs s1) = Some ?fs"
      using write_cache_temp [OF Cons.prems(1)] b(2) l by simp
    have node: "os_node (local_fs (s1\<lparr>local_fs := ?fs\<rparr>)) True temp = Inr (t, NFile (touch (local_fs s) m) (write_bytes off b c))"
      using os_node_modify [OF Cons.prems(1)] by simp
    have "fetch_chunks env rp temp n offs (s1\<lparr>local_fs := ?fs\<rparr>) = (ok, s')"
      using Cons.prems(2) b w by (simp add: r)
    then show ?thesis using Cons.IH [OF node] same_but_write same_but_trans by fastforce
  next
    case False
    then have "s' = s1" using Cons.prems(2) write_cache_temp [OF Cons.prems(1), of off] l
      by (auto simp: r split: option.splits if_splits)
    then show ?thesis using l at by (auto simp: same_but_def)
  qed
qed

lemma fetch_chunks_copy:
  assumes "serves env rp b R" and "length b \<le> 2 ^ 63" and "\<forall>off \<in> set offs. off < length b" and "R (remote s)"
    and "os_node (local_fs s) True temp = Inr (t, NFile m c)" and "partial_copy b SYNC_CHUNK d c"
  shows "\<exists>s' m' c'. fetch_chunks env rp temp (length b) offs s = (True, s') \<and>
    node_at (local_fs s') t = Some (NFile m' c') \<and> partial_copy b SYNC_CHUNK (d \<union> set offs) c'"
  using assms(3-6)
proof (induction offs arbitrary: s m c d)
  case Nil
  then show ?case by (auto simp: os_node_def split: sum.splits option.splits)
next
  case (Cons off offs)
  let ?n = "min (length b - off) SYNC_CHUNK"
  let ?new = "take ?n (drop off b)"
  have off: "off < length b" using Cons.prems(1) by simp
  have pos: "0 < SYNC_CHUNK" by (simp add: SYNC_CHUNK_def)
  have "off + ?n \<le> length b" "0 < ?n" "?n \<le> SYNC_CHUNK" using off pos by auto
  then obtain r where r: "R r" "fetch_chunk env rp off ?n s = (Some ?new, s\<lparr>remote := r\<rparr>)"
    using assms(1) Cons.prems(2) unfolding serves_def by blast
  have "seek_ok off" using off assms(2) by (simp add: seek_ok_def)
  then have w: "write_cache temp off ?new (local_fs s) = Some (os_modify (write_bytes off ?new) t (local_fs s))"
    using write_cache_temp [OF Cons.prems(3)] by simp
  let ?s = "s\<lparr>remote := r, local_fs := os_modify (write_bytes off ?new) t (local_fs s)\<rparr>"
  have node: "os_node (local_fs ?s) True temp = Inr (t, NFile (touch (local_fs s) m) (write_bytes off ?new c))"
    using os_node_modify [OF Cons.prems(3)] by simp
  have "\<forall>o' \<in> set offs. o' < length b" "R (remote ?s)" using Cons.prems(1) r(1) by simp_all
  note IH = Cons.IH [OF this node partial_copy_chunk [OF Cons.prems(4) off pos]]
  have "fetch_chunks env rp temp (length b) (off # offs) s = fetch_chunks env rp temp (length b) offs ?s"
    by (simp add: r(2) w)
  then show ?case using IH by simp
qed

lemma download_from_ready:
  assumes "replace_ready fs0 temp t q x" and "fs0 = snd (os_create_dir_all (butlast q) (local_fs s))" and "0 < n"
    and "s1 = s\<lparr>local_fs := put_node t (NFile (new_meta fs0 438) []) fs0\<rparr>"
    and "fetch_chunks env rp temp n (order (chunk_offsets SYNC_CHUNK 0 n)) s1 = (ok, s')"
  shows "os_node (local_fs s1) True temp = Inr (t, NFile (new_meta fs0 438) [])"
    and "node_at (local_fs s') x = node_at fs0 x"
    and "download_to_cache env temp order rp q n s = (ok, s'\<lparr>local_fs :=
      (if ok then move_tree t x (local_fs s') else del_node t (local_fs s'))\<rparr>)"
proof -
  note c = replace_ready_create(1,2) [OF assms(1), where mode = 438]
  have start: "try_local (os_create_file 438 temp) (try_local (os_create_dir_all (butlast q)) s) = s1"
    using c(1) by (simp add: try_local_def assms(2) [symmetric] assms(4))
  show node: "os_node (local_fs s1) True temp = Inr (t, NFile (new_meta fs0 438) [])"
    using c(2) by (simp add: assms(4))
  from fetch_chunks_elsewhere [OF node assms(5)] obtain m b
    where "same_but t (put_node t (NFile (new_meta fs0 438) []) fs0) (local_fs s')"
      and "node_at (local_fs s') t = Some (NFile m b)" unfolding assms(4) by auto
  note f = replace_ready_finish [OF assms(1) this]
  show "node_at (local_fs s') x = node_at fs0 x" by (rule f(1))
  show "download_to_cache env temp order rp q n s = (ok, s'\<lparr>local_fs :=
      (if ok then move_tree t x (local_fs s') else del_node t (local_fs s'))\<rparr>)"
    using assms(3,5) start f(2,3) by (cases ok) (simp_all add: download_to_cache_def try_local_def)
qed

lemma download_copies:
  assumes "replace_ready fs0 temp t q x" and "fs0 = snd (os_create_dir_all (butlast q) (local_fs s))"
    and "serves env rp b R" and "R (remote s)" and "b \<noteq> []" and "length b \<le> 2 ^ 63"
    and "mset (order (chunk_offsets SYNC_CHUNK 0 (length b))) = mset (chunk_offsets SYNC_CHUNK 0 (length b))"
  shows "\<exists>s' m. download_to_cache env temp order rp q (length b) s = (True, s') \<and> node_at (local_fs s') x = Some (NFile m b)"
proof -
  let ?offs = "order (chunk_offsets SYNC_CHUNK 0 (length b))"
  let ?s = "s\<lparr>local_fs := put_node t (NFile (new_meta fs0 438) []) fs0\<rparr>"
  have pos: "0 < SYNC_CHUNK" by (simp add: SYNC_CHUNK_def)
  have n: "0 < length b" using assms(5) by simp
  have neq: "t \<noteq> x" using assms(1) by (auto simp: replace_ready_def)
  note ready = download_from_ready [OF assms(1,2) n refl, where order = order and rp = rp]
  have set: "set ?offs = set (chunk_offsets SYNC_CHUNK 0 (length b))" by (rule mset_eq_setD [OF assms(7)])
  obtain ok u where "fetch_chunks env rp temp (length b) ?offs ?s = (ok, u)" by fastforce
  note node = ready(1) [OF this]
  have "\<forall>off \<in> set ?offs. off < length b" "R (remote ?s)" using chunk_offsets_below [OF pos] set assms(4) by auto
  from fetch_chunks_copy [OF assms(3,6) this node, of "{}"]
  obtain s' m' c where f: "fetch_chunks env rp temp (length b) ?offs ?s = (True, s')"
    and c: "node_at (local_fs s') t = Some (NFile m' c)" "partial_copy b SYNC_CHUNK (set ?offs) c"
    by (auto simp: partial_copy_def)
  have "c = b" using partial_copy_all [OF _ pos] c(2) set by metis
  then show ?thesis using ready(3) [OF f] c(1) node_at_move_tree_dest [OF neq] by simp
qed

text \<open>C27: a download into the cache is correct in whatever order its chunk requests complete: when
  the target answers every read with the bytes asked for, the cache file is then exactly the
  target's file; and when a chunk fails, the old cache file is still there as it was.\<close>

theorem download_in_any_order:
  assumes "replace_ready fs0 temp t q x" and "fs0 = snd (os_create_dir_all (butlast q) (local_fs s))"
    and "serves env rp b R" and "R (remote s)" and "b \<noteq> []" and "length b \<le> 2 ^ 63"
    and "mset (order (chunk_offsets SYNC_CHUNK 0 (length b))) = mset (chunk_offsets SYNC_CHUNK 0 (length b))"
  shows "(\<exists>s' m. download_to_cache env temp order rp q (length b) s = (True, s') \<and>
      node_at (local_fs s') x = Some (NFile m b)) \<and>
    (\<forall>env' s'. download_to_cache env' temp order rp q (length b) s = (False, s') \<longrightarrow>
      node_at (local_fs s') x = node_at fs0 x)"
proof
  show "\<exists>s' m. download_to_cache env temp order rp q (length b) s = (True, s') \<and> node_at (local_fs s') x = Some (NFile m b)"
    by (rule download_copies [where order = order and R = R, OF assms])
  have n: "0 < length b" using assms(5) by simp
  have neq: "t \<noteq> x" using assms(1) by (auto simp: replace_ready_def)
  note ready = download_from_ready [OF assms(1,2) n refl, where order = order and rp = rp]
  show "\<forall>env' s'. download_to_cache env' temp order rp q (length b) s = (False, s') \<longrightarrow>
      node_at (local_fs s') x = node_at fs0 x"
  proof (intro allI impI)
    fix env' s'
    assume d: "download_to_cache env' temp order rp q (length b) s = (False, s')"
    obtain ok u where f: "fetch_chunks env' rp temp (length b) (order (chunk_offsets SYNC_CHUNK 0 (length b)))
        (s\<lparr>local_fs := put_node t (NFile (new_meta fs0 438) []) fs0\<rparr>) = (ok, u)" by fastforce
    show "node_at (local_fs s') x = node_at fs0 x"
      using ready(2,3) [OF f] d neq by auto
  qed
qed

lemma sample_ready:
  "replace_ready (local_fs (sample_mount False)) [RootDir, Normal ''c'', Normal ''t''] [RootDir, Normal ''c'', Normal ''t'']
     [RootDir, Normal ''c'', Normal ''f''] [RootDir, Normal ''c'', Normal ''f'']"
  by (simp add: replace_ready_def cache_os os_path_def node_at_def MAX_LINKS_def empty_os_def)

theorem download_in_any_order_witness:
  "\<exists>s' m. download_to_cache (drained_env (agent_rpc sample_env)) [RootDir, Normal ''c'', Normal ''t''] rev ''/d/f''
     [RootDir, Normal ''c'', Normal ''f''] 3 (sample_mount False) = (True, s') \<and>
     node_at (local_fs s') [RootDir, Normal ''c'', Normal ''f''] = Some (NFile m [1, 2, 3])"
proof -
  have "os_open_read (path_of ''/d/f'') sample_os = Inr [RootDir, Normal ''d'', Normal ''f'']"
    by (simp add: os_open_read_def sample_node)
  moreover have "node_at sample_os [RootDir, Normal ''d'', Normal ''f''] = Some (NFile sample_meta [1, 2, 3])"
    by (simp add: sample_os_def node_at_def)
  ultimately have s: "serves (drained_env (agent_rpc sample_env)) ''/d/f'' [1, 2, 3] (\<lambda>r. r = sample_os)"
    by (rule agent_serves) simp
  have "local_fs (sample_mount False) = snd (os_create_dir_all (butlast [RootDir, Normal ''c'', Normal ''f''])
      (local_fs (sample_mount False)))"
    using cache_os_read(1) [of False] unfolding try_local_def
    by (metis butlast.simps(2) fuse.select_convs(6) fuse.surjective fuse.update_convs(6) list.distinct(1))
  from download_in_any_order [OF sample_ready this s, of rev] show ?thesis by (simp add: numeral_3_eq_3)
qed

section \<open>What a target can write\<close>

text \<open>C28: the mirror writes where the target says. The name of a listed file is joined to the cache
  directory unchecked, and an absolute name replaces it: a target that lists a file under an
  absolute name and serves bytes for it has the bridge replace that file of the bridge's own
  machine, whatever the mount's directories are.\<close>

theorem mirror_writes_where_the_target_says:
  assumes "rpc env (method_name LIST_DIR, JObj [(''path'', JStr rem)]) (try_local (os_create_dir_all cdir) s) =
      (Inr (list_dir_result_json \<lparr>ldr_entries = [e]\<rparr>), s1)"
    and "de_kind e = RegularFile" and "path_of (de_name e) = RootDir # w" and "unat (de_size e) = length b" and "b \<noteq> []"
    and "\<And>y n. os_node (local_fs s1) True (RootDir # w) = Inr (y, n) \<Longrightarrow> node_len n \<noteq> length b"
    and "replace_ready fs0 (tmp (RootDir # w)) t (RootDir # w) x"
    and "fs0 = snd (os_create_dir_all (butlast (RootDir # w)) (local_fs s1))"
    and "serves env (trim_end_matches (CHR ''/'') rem @ ''/'' @ de_name e) b R" and "R (remote s1)" and "length b \<le> 2 ^ 63"
    and "mset (order (chunk_offsets SYNC_CHUNK 0 (length b))) = mset (chunk_offsets SYNC_CHUNK 0 (length b))"
  shows "\<exists>s' m. background_sync (Suc fuel) env tmp order [(rem, cdir)] s = Some s' \<and>
    node_at (local_fs s') x = Some (NFile m b)"
proof -
  obtain s' m where d: "download_to_cache env (tmp (RootDir # w)) order (trim_end_matches (CHR ''/'') rem @ ''/'' @ de_name e)
      (RootDir # w) (length b) s1 = (True, s')" and x: "node_at (local_fs s') x = Some (NFile m b)"
    using download_copies [where order = order and R = R, OF assms(7-10,5,11,12)] by blast
  have "sync_entry env tmp order rem cdir e ([], s1) = ([], s')"
    using assms(2-4,6) d by (auto simp: sync_entry_def path_join_def Let_def split: sum.split)
  then have "background_sync (Suc fuel) env tmp order [(rem, cdir)] s = Some s'"
    by (simp add: assms(1) [simplified] list_dir_result_roundtrip)
  with x show ?thesis by blast
qed

text \<open>A target that lists \<open>/f\<close> in its directory \<open>/d\<close>, and serves its own \<open>/d/f\<close> honestly.\<close>

definition lying_entry :: dir_entry where
  "lying_entry = \<lparr>de_name = ''/f'', de_kind = RegularFile, de_size = 3, de_modified = 0\<rparr>"

definition lying_rpc :: "os rpc_fun" where
  "lying_rpc m v r = (if m = method_name LIST_DIR then (Inr (list_dir_result_json \<lparr>ldr_entries = [lying_entry]\<rparr>), r)
     else agent_rpc sample_env m v r)"

lemma lying_serves: "serves (drained_env lying_rpc) ''/d//f'' [1, 2, 3] (\<lambda>r. r = sample_os)"
proof -
  have "method_name READ_FILE \<noteq> method_name LIST_DIR" by (simp only: method_name_inj) simp
  then have "rpc (drained_env lying_rpc) (method_name READ_FILE, v) s =
      rpc (drained_env (agent_rpc sample_env)) (method_name READ_FILE, v) s" for v s
    unfolding rpc_def fst_conv snd_conv drained_env_simps lying_rpc_def by (simp only: if_False)
  then have fetch: "fetch_chunk (drained_env lying_rpc) = fetch_chunk (drained_env (agent_rpc sample_env))"
    unfolding fetch_chunk_def drained_env_simps by (simp only:)
  have "path_of ''/d//f'' = path_of ''/d/f''" by (simp add: path_of_def starts_with_def comps_of_def)
  then have "os_open_read (path_of ''/d//f'') sample_os = Inr [RootDir, Normal ''d'', Normal ''f'']"
    by (simp add: os_open_read_def sample_node)
  moreover have "node_at sample_os [RootDir, Normal ''d'', Normal ''f''] = Some (NFile sample_meta [1, 2, 3])"
    by (simp add: sample_os_def node_at_def)
  ultimately have "serves (drained_env (agent_rpc sample_env)) ''/d//f'' [1, 2, 3] (\<lambda>r. r = sample_os)"
    by (rule agent_serves) simp
  then show ?thesis unfolding serves_def fetch .
qed

theorem mirror_writes_where_the_target_says_witness:
  "\<exists>s' m. background_sync 1 (drained_env lying_rpc) (\<lambda>_. [RootDir, Normal ''t'']) rev
       [(''/d'', [RootDir, Normal ''c''])] (sample_mount False) = Some s' \<and>
     node_at (local_fs s') [RootDir, Normal ''f''] = Some (NFile m [1, 2, 3])"
proof -
  let ?s = "sample_mount False"
  have dir: "try_local (os_create_dir_all [RootDir, Normal ''c'']) ?s = ?s" by (rule cache_os_read(1))
  have list: "rpc (drained_env lying_rpc) (method_name LIST_DIR, JObj [(''path'', JStr ''/d'')])
      (try_local (os_create_dir_all [RootDir, Normal ''c'']) ?s) =
      (Inr (list_dir_result_json \<lparr>ldr_entries = [lying_entry]\<rparr>), ?s)"
    unfolding dir rpc_def fst_conv snd_conv drained_env_simps lying_rpc_def by simp
  have name: "path_of (de_name lying_entry) = RootDir # [Normal ''f'']"
    by (simp add: lying_entry_def path_of_def starts_with_def comps_of_def)
  have absent: "node_len n \<noteq> length [1, 2, 3 :: 8 word]"
    if "os_node (local_fs ?s) True (RootDir # [Normal ''f'']) = Inr (y, n)" for y n
    using that by (simp add: cache_os os_node_def os_path_def node_at_def MAX_LINKS_def empty_os_def)
  have ready: "replace_ready (local_fs ?s) [RootDir, Normal ''t''] [RootDir, Normal ''t'']
      (RootDir # [Normal ''f'']) [RootDir, Normal ''f'']"
    by (simp add: replace_ready_def cache_os os_path_def node_at_def MAX_LINKS_def empty_os_def)
  have root: "local_fs ?s = snd (os_create_dir_all (butlast (RootDir # [Normal ''f''])) (local_fs ?s))"
    by (simp add: cache_os os_create_dir_all.simps os_create_dir_def os_path_def node_at_def MAX_LINKS_def
        empty_os_def os_node_def is_dir_def)
  have path: "trim_end_matches (CHR ''/'') ''/d'' @ ''/'' @ de_name lying_entry = ''/d//f''"
    by (simp add: trim_end_matches_def lying_entry_def)
  show ?thesis
    using mirror_writes_where_the_target_says [where fuel = 0 and order = rev and tmp = "\<lambda>_. [RootDir, Normal ''t'']",
        OF list _ name _ _ absent ready root lying_serves [folded path]]
    by (simp add: lying_entry_def)
qed

end
