(* ===== verification/Mcp_Tools.thy ===== *)
theory Mcp_Tools
  imports Fuse_Fs
begin

text \<open>
  The MCP tools of the bridge (\<open>crates/bridge/src/mcp.rs\<close>): each builds the parameters of an
  RPC, makes the call and turns the result into a text or an error message. The environment
  holds the calls (with and without a bound on the wait), base64 and the texts of serde's and
  base64's errors. A JSON text stays the value it prints. The file transfers are here too; the
  mount tools are in \<open>Mounts\<close>.
\<close>

section \<open>Calls and results\<close>

datatype content = Text string | JsonText json

record 'r mcp_env =
  me_call :: "'r rpc_fun"
  me_call_timeout :: "nat \<Rightarrow> 'r rpc_fun"
  me_enc :: "bytes \<Rightarrow> string"
  me_dec :: "string \<Rightarrow> bytes option"
  me_serde :: string
  me_base64 :: string

type_synonym 'r tool = "'r \<Rightarrow> (string + content) \<times> 'r"

text \<open>A call, its error reduced to the message; then the rest of the tool on the result.\<close>

definition call :: "'r rpc_fun \<Rightarrow> rpc_method \<Rightarrow> (string \<times> json) list \<Rightarrow> 'r \<Rightarrow> (string + json) \<times> 'r" where
  "call f m ps r = (case f (method_name m) (JObj ps) r of
     (Inl e, r1) \<Rightarrow> (Inl (err_message e), r1)
   | (Inr v, r1) \<Rightarrow> (Inr v, r1))"

definition with_call ::
  "'r rpc_fun \<Rightarrow> rpc_method \<Rightarrow> (string \<times> json) list \<Rightarrow> (json \<Rightarrow> string + content) \<Rightarrow> 'r tool" where
  "with_call f m ps k r = (case call f m ps r of
     (Inl msg, r1) \<Rightarrow> (Inl msg, r1)
   | (Inr v, r1) \<Rightarrow> (k v, r1))"

text \<open>\<open>serde_json::from_value\<close>, its error as text.\<close>

definition decoded :: "'r mcp_env \<Rightarrow> 'a option \<Rightarrow> ('a \<Rightarrow> string + content) \<Rightarrow> string + content" where
  "decoded env x k = (case x of None \<Rightarrow> Inl (me_serde env) | Some v \<Rightarrow> k v)"

definition newline :: string where "newline = [CHR 0x0A]"

definition show_i32 :: "32 word \<Rightarrow> string" where
  "show_i32 w = (if sint w < 0 then ''-'' @ show_nat (nat (- sint w)) else show_nat (nat (sint w)))"

section \<open>Commands\<close>

record run_command_args =
  ra_command :: string
  ra_cwd :: "string option"
  ra_timeout_secs :: "64 word option"
  ra_request_timeout_secs :: "64 word option"
  ra_wait :: "bool option"
  ra_input :: "string option"
  ra_target :: "string option"

definition run_command_call :: "run_command_args \<Rightarrow> (string \<times> json) list" where
  "run_command_call a =
     [(''command'', JStr (ra_command a)), (''cwd'', opt_json JStr (ra_cwd a)),
      (''timeout_secs'', opt_json unsigned_json (ra_timeout_secs a)), (''input'', opt_json JStr (ra_input a)),
      (''wait'', opt_json JBool (ra_wait a))] @
     (case ra_target a of None \<Rightarrow> [] | Some t \<Rightarrow> [(''target'', JStr t)])"

definition exit_suffix :: "bool \<Rightarrow> 32 word option \<Rightarrow> string" where
  "exit_suffix timed_out code =
     (if timed_out then newline @ ''[command timed out]''
      else case code of
        None \<Rightarrow> []
      | Some c \<Rightarrow> if c \<noteq> 0 then newline @ ''[exit code: '' @ show_i32 c @ '']'' else [])"

definition run_command_text :: "run_command_result \<Rightarrow> content" where
  "run_command_text r = (case rcr_execution_id r of
     Some i \<Rightarrow> JsonText (JObj [(''execution_id'', unsigned_json i), (''status'', JStr ''running'')])
   | None \<Rightarrow> Text (rcr_output r @ exit_suffix (rcr_timed_out r) (rcr_exit_code r)))"

definition mcp_run_command :: "'r mcp_env \<Rightarrow> run_command_args \<Rightarrow> 'r tool" where
  "mcp_run_command env a =
     (let wait_secs = (case ra_request_timeout_secs a of None \<Rightarrow> 300 | Some n \<Rightarrow> unat n) in
      with_call (if 0 < wait_secs then me_call_timeout env wait_secs else me_call env)
        RUN_COMMAND (run_command_call a)
        (\<lambda>v. decoded env (of_run_command_result v) (\<lambda>r. Inr (run_command_text r))))"

record get_command_result_args =
  ga_execution_id :: "64 word"
  ga_head :: "64 word option"
  ga_tail :: "64 word option"

definition command_result_text :: "get_command_result \<Rightarrow> string" where
  "command_result_text r = gcr_output r @
     (if gcr_done r then exit_suffix (case gcr_timed_out r of Some t \<Rightarrow> t | None \<Rightarrow> False) (gcr_exit_code r)
      else newline @ ''[still running]'')"

definition mcp_get_command_result :: "'r mcp_env \<Rightarrow> get_command_result_args \<Rightarrow> 'r tool" where
  "mcp_get_command_result env a = with_call (me_call env) GET_COMMAND_RESULT
     [(''execution_id'', unsigned_json (ga_execution_id a)), (''head'', opt_json unsigned_json (ga_head a)),
      (''tail'', opt_json unsigned_json (ga_tail a))]
     (\<lambda>v. decoded env (of_get_command_result v) (\<lambda>r. Inr (Text (command_result_text r))))"

section \<open>Files and directories\<close>

record read_file_args =
  rfa_path :: string
  rfa_offset :: "64 word option"
  rfa_limit :: "64 word option"

definition mcp_read_file :: "'r mcp_env \<Rightarrow> read_file_args \<Rightarrow> 'r tool" where
  "mcp_read_file env a = with_call (me_call env) READ_FILE
     [(''path'', JStr (rfa_path a)), (''offset'', opt_json unsigned_json (rfa_offset a)),
      (''limit'', opt_json unsigned_json (rfa_limit a))]
     (\<lambda>v. decoded env (of_read_file_result v) (\<lambda>r. Inr (JsonText (JObj
        [(''data'', JStr (rfr_data r)), (''eof'', JBool (rfr_eof r))]))))"

record write_file_args =
  wfa_path :: string
  wfa_content :: string
  wfa_create_dirs :: "bool option"

definition str_bytes :: "string \<Rightarrow> bytes" where
  "str_bytes s = map (\<lambda>c. of_nat (of_char c)) s"

definition mcp_write_file :: "'r mcp_env \<Rightarrow> write_file_args \<Rightarrow> 'r tool" where
  "mcp_write_file env a = with_call (me_call env) WRITE_FILE
     [(''path'', JStr (wfa_path a)), (''data'', JStr (me_enc env (str_bytes (wfa_content a)))),
      (''create_dirs'', opt_json JBool (wfa_create_dirs a))]
     (\<lambda>v. decoded env (of_write_file_result v)
        (\<lambda>r. Inr (Text (''wrote '' @ show_nat (unat (wfr_bytes_written r)) @ '' bytes''))))"

definition pad_left :: "nat \<Rightarrow> string \<Rightarrow> string" where
  "pad_left n s = replicate (n - length s) (CHR '' '') @ s"

fun kind_mark :: "file_kind \<Rightarrow> string" where
  "kind_mark Dir = ''d''"
| "kind_mark RegularFile = ''-''"
| "kind_mark Symlink = ''l''"
| "kind_mark Other = ''?''"

definition entry_line :: "dir_entry \<Rightarrow> string" where
  "entry_line e = kind_mark (de_kind e) @ '' '' @ pad_left 10 (show_nat (unat (de_size e))) @ '' '' @ de_name e"

definition mcp_list_dir :: "'r mcp_env \<Rightarrow> string \<Rightarrow> 'r tool" where
  "mcp_list_dir env p = with_call (me_call env) LIST_DIR [(''path'', JStr p)]
     (\<lambda>v. decoded env (of_list_dir_result v) (\<lambda>l. Inr (Text (join_lines (map entry_line (ldr_entries l))))))"

definition mcp_stat :: "'r mcp_env \<Rightarrow> string \<Rightarrow> 'r tool" where
  "mcp_stat env p = with_call (me_call env) STAT [(''path'', JStr p)] (\<lambda>v. Inr (JsonText v))"

definition answer_ok :: "json \<Rightarrow> string + content" where "answer_ok v = Inr (Text ''ok'')"

definition mcp_mkdir :: "'r mcp_env \<Rightarrow> string \<Rightarrow> 32 word option \<Rightarrow> 'r tool" where
  "mcp_mkdir env p mode = with_call (me_call env) MKDIR
     [(''path'', JStr p), (''mode'', opt_json unsigned_json mode)] answer_ok"

definition mcp_remove :: "'r mcp_env \<Rightarrow> string \<Rightarrow> bool option \<Rightarrow> 'r tool" where
  "mcp_remove env p rec = with_call (me_call env) REMOVE
     [(''path'', JStr p), (''recursive'', opt_json JBool rec)] answer_ok"

definition mcp_rename :: "'r mcp_env \<Rightarrow> string \<Rightarrow> string \<Rightarrow> 'r tool" where
  "mcp_rename env from to = with_call (me_call env) RENAME [(''from'', JStr from), (''to'', JStr to)] answer_ok"

definition mcp_copy :: "'r mcp_env \<Rightarrow> string \<Rightarrow> string \<Rightarrow> bool option \<Rightarrow> 'r tool" where
  "mcp_copy env from to rec = with_call (me_call env) COPY
     [(''from'', JStr from), (''to'', JStr to), (''recursive'', opt_json JBool rec)] answer_ok"

definition mcp_ping :: "'r mcp_env \<Rightarrow> 'r tool" where
  "mcp_ping env = with_call (me_call env) PING [] (\<lambda>v. Inr (JsonText v))"

definition target_line :: "target_info \<Rightarrow> string" where
  "target_line t = ti_id t @ '' (name='' @ ti_name t @ '', session='' @ ti_session t @ '')''"

definition mcp_list_targets :: "'r mcp_env \<Rightarrow> 'r tool" where
  "mcp_list_targets env = with_call (me_call env) LIST_TARGETS []
     (\<lambda>v. decoded env (of_list_targets_result v) (\<lambda>l.
        if ltr_targets l = [] then Inr (Text ''no targets connected'')
        else Inr (Text (join_lines (map target_line (ltr_targets l))))))"

definition mcp_list_devices :: "'r mcp_env \<Rightarrow> 'r tool" where
  "mcp_list_devices env = mcp_list_targets env"

end
