(* ===== verification/Transfers.thy ===== *)
theory Transfers
  imports Mcp_Tools
begin

text \<open>
  The file transfers of the MCP server (\<open>upload_file\<close> and \<open>download_file\<close> of
  \<open>crates/bridge/src/mcp.rs\<close>): chunk by chunk into a temporary file, which replaces the
  destination at the end. The random suffix of the temporary name is a parameter. A read from
  the local source can return less than a chunk; writes to the local destination append.
\<close>

definition TRANSFER_CHUNK_BYTES :: nat where "TRANSFER_CHUNK_BYTES = 1024 * 1024"

section \<open>Upload\<close>

record upload_file_args =
  ua_local_path :: string
  ua_remote_path :: string
  ua_create_dirs :: "bool option"

definition upload_temp :: "nat \<Rightarrow> upload_file_args \<Rightarrow> string" where
  "upload_temp rnd a = ua_remote_path a @ ''.relayfs-upload-'' @ hex_pad 16 rnd"

lemma read_once_progress:
  "read_once off n b \<noteq> [] \<Longrightarrow> length b - (off + length (read_once off n b)) < length b - off"
  by (auto simp: read_once_def)

text \<open>The read loop: the offset after the last byte.\<close>

function upload_chunks ::
  "'r mcp_env \<Rightarrow> string \<Rightarrow> string \<Rightarrow> os \<Rightarrow> path \<Rightarrow> nat \<Rightarrow> 'r \<Rightarrow> (string + nat) \<times> 'r" where
  "upload_chunks env lp temp fs q off r =
     (case os_read_at off TRANSFER_CHUNK_BYTES q fs of
        Inl e \<Rightarrow> (Inl (''read local source '' @ lp @ '': '' @ io_text e), r)
      | Inr bs \<Rightarrow>
          if bs = [] then (Inr off, r)
          else (case call (me_call env) WRITE_AT
                [(''path'', JStr temp), (''offset'', JInt (int off)), (''data'', JStr (me_enc env bs))] r of
              (Inl m, r1) \<Rightarrow> (Inl m, r1)
            | (Inr _, r1) \<Rightarrow> upload_chunks env lp temp fs q (off + length bs) r1))"
  by pat_completeness auto
termination
proof (relation "measure (\<lambda>(env, lp, temp, fs, q, off, r). case node_at fs q of Some (NFile _ b) \<Rightarrow> length b - off | _ \<Rightarrow> 0)")
  fix env :: "'r mcp_env" and lp temp fs q off and r :: 'r and bs x xa y b
  assume "os_read_at off TRANSFER_CHUNK_BYTES q fs = Inr bs" and "bs \<noteq> []"
  then show "((env, lp, temp, fs, q, off + length bs, y), env, lp, temp, fs, q, off, r)
      \<in> measure (\<lambda>(env, lp, temp, fs, q, off, r). case node_at fs q of Some (NFile _ b) \<Rightarrow> length b - off | _ \<Rightarrow> 0)"
    by (auto simp: os_read_at_def intro: read_once_progress split: option.splits node.splits)
qed auto

declare upload_chunks.simps [simp del]

definition upload_transfer ::
  "'r mcp_env \<Rightarrow> upload_file_args \<Rightarrow> string \<Rightarrow> os \<Rightarrow> path \<Rightarrow> 'r \<Rightarrow> (string + nat) \<times> 'r" where
  "upload_transfer env a temp fs q r =
     (case call (me_call env) WRITE_FILE
          [(''path'', JStr temp), (''data'', JStr []), (''create_dirs'', opt_json JBool (ua_create_dirs a))] r of
        (Inl m, r1) \<Rightarrow> (Inl m, r1)
      | (Inr _, r1) \<Rightarrow> (case upload_chunks env (ua_local_path a) temp fs q 0 r1 of
          (Inl m, r2) \<Rightarrow> (Inl m, r2)
        | (Inr off, r2) \<Rightarrow> (case call (me_call env) TRUNCATE [(''path'', JStr temp), (''size'', JInt (int off))] r2 of
            (Inl m, r3) \<Rightarrow> (Inl m, r3)
          | (Inr _, r3) \<Rightarrow> (Inr off, r3))))"

definition remove_temp :: "'r mcp_env \<Rightarrow> string \<Rightarrow> 'r \<Rightarrow> 'r" where
  "remove_temp env temp r = snd (call (me_call env) REMOVE [(''path'', JStr temp), (''recursive'', JBool False)] r)"

definition upload_file :: "'r mcp_env \<Rightarrow> nat \<Rightarrow> upload_file_args \<Rightarrow> os \<Rightarrow> 'r tool" where
  "upload_file env rnd a fs r =
     (let temp = upload_temp rnd a in
      case os_open_read (path_of (ua_local_path a)) fs of
        Inl e \<Rightarrow> (Inl (''open local source '' @ ua_local_path a @ '': '' @ io_text e), r)
      | Inr q \<Rightarrow> (case upload_transfer env a temp fs q r of
          (Inl m, r1) \<Rightarrow> (Inl m, remove_temp env temp r1)
        | (Inr n, r1) \<Rightarrow> (case call (me_call env) RENAME
              [(''from'', JStr temp), (''to'', JStr (ua_remote_path a))] r1 of
            (Inl m, r2) \<Rightarrow> (Inl m, remove_temp env temp r2)
          | (Inr _, r2) \<Rightarrow> (Inr (JsonText (JObj [(''bytes_uploaded'', JInt (int n))])), r2))))"

section \<open>Download\<close>

record download_file_args =
  da_remote_path :: string
  da_local_path :: string
  da_create_dirs :: "bool option"

definition temporary_path :: "path \<Rightarrow> string \<Rightarrow> nat \<Rightarrow> path" where
  "temporary_path p label rnd =
     path_join (case parent p of Some d \<Rightarrow> d | None \<Rightarrow> [CurDir])
       [Normal (''.'' @ (case file_name p of Some w \<Rightarrow> w | None \<Rightarrow> []) @ ''.relayfs-'' @ label @ ''-'' @ hex_pad 16 rnd)]"

text \<open>
  The fetch loop into the open file at \<open>t\<close>; \<open>None\<close> when the fuel, one unit per chunk, runs out
  (a target that never reports the end is read for ever).
\<close>

fun download_chunks ::
  "nat \<Rightarrow> 'r mcp_env \<Rightarrow> string \<Rightarrow> path \<Rightarrow> nat \<Rightarrow> os \<Rightarrow> 'r \<Rightarrow> ((string + nat) \<times> os \<times> 'r) option" where
  "download_chunks 0 env rp t off fs r = None"
| "download_chunks (Suc fuel) env rp t off fs r =
     (case call (me_call env) READ_FILE [(''path'', JStr rp), (''offset'', JInt (int off)),
          (''limit'', JInt (int TRANSFER_CHUNK_BYTES))] r of
        (Inl m, r1) \<Rightarrow> Some (Inl m, fs, r1)
      | (Inr v, r1) \<Rightarrow> (case of_read_file_result v of
          None \<Rightarrow> Some (Inl (me_serde env), fs, r1)
        | Some x \<Rightarrow> (case me_dec env (rfr_data x) of
            None \<Rightarrow> Some (Inl (''invalid base64 returned by target: '' @ me_base64 env), fs, r1)
          | Some b \<Rightarrow>
              if b = [] \<and> \<not> rfr_eof x then Some (Inl ''remote transfer returned an empty non-final chunk'', fs, r1)
              else (let fs1 = os_modify (write_bytes off b) t fs in
                if rfr_eof x then Some (Inr (off + length b), fs1, r1)
                else download_chunks fuel env rp t (off + length b) fs1 r1))))"

definition download_dirs :: "download_file_args \<Rightarrow> os \<Rightarrow> (io_error + unit) \<times> os" where
  "download_dirs a fs = (case parent (path_of (da_local_path a)) of
     Some d \<Rightarrow> if da_create_dirs a = Some True \<and> d \<noteq> [] then os_create_dir_all d fs else (Inr (), fs)
   | None \<Rightarrow> (Inr (), fs))"

definition download_file ::
  "nat \<Rightarrow> 'r mcp_env \<Rightarrow> nat \<Rightarrow> download_file_args \<Rightarrow> os \<Rightarrow> 'r \<Rightarrow> ((string + content) \<times> os \<times> 'r) option" where
  "download_file fuel env rnd a fs r =
     (let lp = path_of (da_local_path a); temp = temporary_path lp ''download'' rnd in
      case download_dirs a fs of
        (Inl e, fs1) \<Rightarrow> Some (Inl (''create local directory '' @ path_string (butlast lp) @ '': '' @ io_text e), fs1, r)
      | (Inr _, fs1) \<Rightarrow>
          map_option (\<lambda>(res, fs2, r2). case res of
              Inl m \<Rightarrow> (Inl m, snd (os_remove_file temp fs2), r2)
            | Inr n \<Rightarrow> (case os_rename temp lp fs2 of
                (Inl e, fs3) \<Rightarrow> (Inl (''replace local destination '' @ path_string lp @ '': '' @ io_text e), fs3, r2)
              | (Inr _, fs3) \<Rightarrow> (Inr (JsonText (JObj [(''bytes_downloaded'', JInt (int n))])), fs3, r2)))
            (case os_create_file 438 temp fs1 of
               (Inl e, fs2) \<Rightarrow> Some (Inl (''create local destination '' @ path_string temp @ '': '' @ io_text e), fs2, r)
             | (Inr t, fs2) \<Rightarrow> download_chunks fuel env (da_remote_path a) t 0 fs2 r))"

end
