(* ===== verification/Transfers_Props.thy ===== *)
theory Transfers_Props
  imports Transfers Fuse_Props
begin

text \<open>
  The properties of the file transfers: exact over the agent's own handlers, and atomic over
  any target.
\<close>

section \<open>The agent as the target\<close>

definition agent_mcp :: "agent_env \<Rightarrow> os mcp_env" where
  "agent_mcp a = \<lparr>me_call = agent_rpc a, me_call_timeout = (\<lambda>_. agent_rpc a), me_enc = env_enc a, me_dec = env_dec a,
     me_serde = ''bad result'', me_base64 = ''bad data''\<rparr>"

lemma agent_mcp_simps [simp]:
  "me_call (agent_mcp a) = agent_rpc a" "me_enc (agent_mcp a) = env_enc a" "me_dec (agent_mcp a) = env_dec a"
  by (simp_all add: agent_mcp_def)

text \<open>What both ends rely on of the base64 crate: decoding undoes encoding, and \<open>n\<close> bytes take at most
  four characters for every started three.\<close>

definition base64_env :: "agent_env \<Rightarrow> bool" where
  "base64_env a \<longleftrightarrow> (\<forall>b. env_dec a (env_enc a b) = Some b \<and> length (env_enc a b) \<le> (length b + 2) div 3 * 4)"

lemma base64_sample_env: "base64_env sample_env"
proof -
  have "n \<le> (n + 2) div 3 * 4" for n :: nat by presburger
  then show ?thesis by (simp add: base64_env_def sample_env_def raw_law raw_length)
qed

lemma base64_decode [simp]: "base64_env a \<Longrightarrow> env_dec a (env_enc a b) = Some b"
  by (simp add: base64_env_def)

lemma base64_decode_data:
  assumes "base64_env a" and "length b \<le> MAX_DIRECT_FILE_BYTES"
  shows "decode_data (env_dec a) (env_enc a b) = Inr b"
proof -
  have "(length b + 2) div 3 * 4 \<le> MAX_DIRECT_FILE_BASE64_BYTES"
    unfolding MAX_DIRECT_FILE_BASE64_BYTES_def using assms(2) by (intro mult_le_mono1 div_le_mono add_le_mono1)
  moreover have "length (env_enc a b) \<le> (length b + 2) div 3 * 4" using assms(1) by (simp add: base64_env_def)
  ultimately show ?thesis using assms by (simp add: decode_data_def)
qed

lemma base64_empty:
  assumes "base64_env a"
  shows "decode_data (env_dec a) [] = Inr []"
proof -
  have "length (env_enc a []) \<le> (length ([] :: bytes) + 2) div 3 * 4" using assms unfolding base64_env_def by blast
  then have "env_enc a [] = []" by simp
  then show ?thesis using base64_decode_data [OF assms, of "[]"] by simp
qed

lemma call_agent:
  assumes "file_method a (method_name m) = Some h" and "h (JObj ps) R = (Inr v, R')"
  shows "call (agent_rpc a) m ps R = (Inr v, R')"
  using assms by (simp add: call_def agent_rpc_def)

lemma file_methods [simp]:
  "file_method a (method_name WRITE_FILE) = Some (agent_write_file (env_dec a))"
  "file_method a (method_name WRITE_AT) = Some (agent_write_at (env_dec a))"
  "file_method a (method_name RENAME) = Some agent_rename"
  by (simp_all add: file_method_def)

lemma write_file_call:
  "of_write_file_params (JObj [(''path'', JStr w), (''data'', JStr d), (''create_dirs'', opt_json JBool c)]) =
     Some \<lparr>wf_path = w, wf_data = d, wf_create_dirs = c\<rparr>"
  using write_file_params_roundtrip [of "\<lparr>wf_path = w, wf_data = d, wf_create_dirs = c\<rparr>"]
  by (simp add: write_file_params_json_def obj_fields.simps)

lemma write_at_call: "off < 2 ^ 64 \<Longrightarrow>
  of_write_at_params (JObj [(''path'', JStr w), (''offset'', JInt (int off)), (''data'', JStr d)]) =
     Some \<lparr>wa_path = w, wa_offset = of_nat off, wa_data = d\<rparr>"
  using write_at_params_roundtrip [of "\<lparr>wa_path = w, wa_offset = of_nat off, wa_data = d\<rparr>"]
  by (simp add: write_at_params_json_def obj_fields.simps unsigned_json_def uint_nat)

lemma rename_call: "of_rename_params (JObj [(''from'', JStr v), (''to'', JStr w)]) = Some \<lparr>mv_from = v, mv_to = w\<rparr>"
  using rename_params_roundtrip [of "\<lparr>mv_from = v, mv_to = w\<rparr>"] by (simp add: rename_params_json_def obj_fields.simps)

section \<open>Upload\<close>

lemma write_next_chunk: "off \<le> length b \<Longrightarrow> c = take n (drop off b) \<Longrightarrow> c \<noteq> [] \<Longrightarrow>
    write_bytes off c (take off b) = take (off + length c) b"
  by (simp add: write_bytes_def min_def take_add)

lemma upload_chunks_copy:
  assumes "base64_env a" and "node_at fs q = Some (NFile ml b)" and "length b \<le> 2 ^ 63"
    and "\<And>R'. same_but t R R' \<Longrightarrow> (\<exists>m c. node_at R' t = Some (NFile m c)) \<Longrightarrow> os_open_write (path_of temp) R' = Inr t"
    and "node_at R t = Some (NFile m (take off b))" and "off \<le> length b"
  shows "\<exists>R' m'. upload_chunks (agent_mcp a) lp temp fs q off R = (Inr (length b), R') \<and>
    same_but t R R' \<and> node_at R' t = Some (NFile m' b)"
  using assms(4-6)
proof (induction "length b - off" arbitrary: off R m rule: less_induct)
  case less
  have TC: "0 < TRANSFER_CHUNK_BYTES" "TRANSFER_CHUNK_BYTES \<le> os_read_cap" "TRANSFER_CHUNK_BYTES \<le> MAX_DIRECT_FILE_BYTES"
    "TRANSFER_CHUNK_BYTES \<le> MAX_DIRECT_FILE_BASE64_BYTES"
    by (simp_all add: TRANSFER_CHUNK_BYTES_def os_read_cap_def MAX_DIRECT_FILE_BYTES_def MAX_DIRECT_FILE_BASE64_BYTES_def)
  let ?c = "take TRANSFER_CHUNK_BYTES (drop off b)"
  have rd: "os_read_at off TRANSFER_CHUNK_BYTES q fs = Inr ?c"
    using assms(2) TC(2) by (simp add: os_read_at_def read_once_def min_absorb1)
  show ?case
  proof (cases "off = length b")
    case True
    then show ?thesis using rd less.prems(2) by (subst upload_chunks.simps) auto
  next
    case False
    then have c: "?c \<noteq> []" "off < length b" "off < 2 ^ 64" "seek_ok off"
      using less.prems(3) TC(1) assms(3) by (auto simp: seek_ok_def)
    have dec: "decode_data (env_dec a) (env_enc a ?c) = Inr ?c"
      by (rule base64_decode_data [OF assms(1)]) (use TC(3) in simp)
    let ?R = "os_modify (write_bytes off ?c) t R"
    have op: "os_open_write (path_of temp) R = Inr t" using less.prems(1,2) by auto
    have "agent_write_at (env_dec a) (JObj [(''path'', JStr temp), (''offset'', JInt (int off)), (''data'', JStr (env_enc a ?c))]) R =
        (Inr (JObj [(''bytes_written'', JInt (int (length ?c)))]), ?R)"
      unfolding agent_write_at_def write_at_call [OF c(3)] using dec op c(3,4) by simp
    note call = call_agent [OF file_methods(2) this]
    have node: "node_at ?R t = Some (NFile (touch R m) (take (off + length ?c) b))"
      using less.prems(2) write_next_chunk [OF less.prems(3) refl c(1)] by (simp add: node_at_modify)
    have sm: "same_but t R ?R" by (rule same_but_write)
    have open_next: "os_open_write (path_of temp) R' = Inr t"
      if "same_but t ?R R'" "\<exists>m c. node_at R' t = Some (NFile m c)" for R'
      using less.prems(1) same_but_trans [OF sm that(1)] that(2) by blast
    have "length b - (off + length ?c) < length b - off" "off + length ?c \<le> length b" using c(1,2) by auto
    from less.hyps [OF this(1) open_next node this(2)]
    obtain R' m' where "upload_chunks (agent_mcp a) lp temp fs q (off + length ?c) ?R = (Inr (length b), R')"
      "same_but t ?R R'" "node_at R' t = Some (NFile m' b)" by blast
    then show ?thesis
      using rd c(1) call same_but_trans [OF sm] by (subst upload_chunks.simps) auto
  qed
qed

definition made_dirs :: "bool option \<Rightarrow> path \<Rightarrow> os \<Rightarrow> (io_error + unit) \<times> os" where
  "made_dirs c p s = (case parent p of
     Some d \<Rightarrow> if opt_or False c then os_create_dir_all d s else (Inr (), s) | None \<Rightarrow> (Inr (), s))"

text \<open>C32: an upload to the agent that finds its way free is exact: the destination on the target
  becomes the local file, byte for byte, whatever its length, and the answer is that length.\<close>

theorem upload_is_exact:
  assumes "base64_env a" and "os_open_read (path_of (ua_local_path u)) fs = Inr q"
    and "node_at fs q = Some (NFile ml b)" and "length b < 2 ^ 63"
    and "made_dirs (ua_create_dirs u) (path_of (upload_temp rnd u)) R = (Inr (), R1)"
    and "replace_ready R1 (path_of (upload_temp rnd u)) t (path_of (ua_remote_path u)) x"
  shows "\<exists>R' m. upload_file (agent_mcp a) rnd u fs R =
      (Inr (JsonText (JObj [(''bytes_uploaded'', JInt (int (length b)))])), R') \<and> node_at R' x = Some (NFile m b)"
proof -
  let ?temp = "upload_temp rnd u"
  let ?m = "new_meta R1 438"
  let ?R2 = "put_node t (NFile ?m []) R1"
  note c = replace_ready_create(1,2) [OF assms(6), where mode = 438]
  note dec = base64_empty [OF assms(1)]
  let ?R3 = "os_modify (write_bytes 0 []) t ?R2"
  have "agent_write_file (env_dec a) (JObj [(''path'', JStr ?temp), (''data'', JStr []),
      (''create_dirs'', opt_json JBool (ua_create_dirs u))]) R = (Inr (write_file_result_json \<lparr>wfr_bytes_written = u64 0\<rparr>), ?R3)"
    using assms(5) c(1) dec unfolding agent_write_file_def write_file_call made_dirs_def
    by (cases "parent (path_of ?temp)") (simp_all add: Let_def)
  note w = call_agent [OF file_methods(1) this]
  have sm3: "same_but t ?R2 ?R3" by (rule same_but_write)
  have n3: "node_at ?R3 t = Some (NFile (touch ?R2 ?m) (take 0 b))" by (simp add: node_at_modify write_bytes_def)
  have op: "os_open_write (path_of ?temp) R' = Inr t"
    if "same_but t ?R3 R'" "\<exists>m c. node_at R' t = Some (NFile m c)" for R'
    using replace_ready_finish(4) [OF assms(6) same_but_trans [OF sm3 that(1)]] that(2) by blast
  obtain R4 m4 where u: "upload_chunks (agent_mcp a) (ua_local_path u) ?temp fs q 0 ?R3 = (Inr (length b), R4)"
    and sm4: "same_but t ?R3 R4" and n4: "node_at R4 t = Some (NFile m4 b)"
    using upload_chunks_copy [OF assms(1,3) _ op n3, of "ua_local_path u"] assms(4) by fastforce
  let ?R5 = "os_modify (set_length (length b)) t R4"
  have len: "length b < 2 ^ 64" "seek_ok (length b)" using assms(4) by (simp_all add: seek_ok_def)
  have "agent_truncate (JObj [(''path'', JStr ?temp), (''size'', JInt (int (length b)))]) R4 = (Inr JNull, ?R5)"
    unfolding agent_truncate_def truncate_call [OF len(1)] using op [OF sm4] n4 len by simp
  note tr = call_agent [OF file_method_agent(1) this]
  have sm5: "same_but t ?R2 ?R5" using same_but_trans sm3 sm4 same_but_write by blast
  have n5: "node_at ?R5 t = Some (NFile (touch R4 m4) b)" using n4 by (simp add: node_at_modify set_length_def)
  note f = replace_ready_finish [OF assms(6) sm5 n5]
  have "agent_rename (JObj [(''from'', JStr ?temp), (''to'', JStr (ua_remote_path u))]) ?R5 = (Inr JNull, move_tree t x ?R5)"
    unfolding agent_rename_def rename_call using f(2) by (simp add: answer_def)
  note mv = call_agent [OF file_methods(3) this]
  have "upload_file (agent_mcp a) rnd u fs R =
      (Inr (JsonText (JObj [(''bytes_uploaded'', JInt (int (length b)))])), move_tree t x ?R5)"
    using w u tr mv assms(2) by (simp add: upload_file_def upload_transfer_def Let_def)
  then show ?thesis using f(5) by blast
qed

definition sample_upload :: upload_file_args where
  "sample_upload = \<lparr>ua_local_path = ''/d/f'', ua_remote_path = ''/g'', ua_create_dirs = None\<rparr>"

lemma sample_upload_temp: "path_of (upload_temp 0 sample_upload) = [RootDir, Normal ''g.relayfs-upload-0000000000000000'']"
  by code_simp

lemma sample_source:
  "os_open_read (path_of ''/d/f'') sample_os = Inr [RootDir, Normal ''d'', Normal ''f'']"
  "node_at sample_os [RootDir, Normal ''d'', Normal ''f''] = Some (NFile sample_meta [1, 2, 3])"
  by (simp_all add: os_open_read_def sample_node) (simp add: sample_os_def node_at_def)

theorem upload_is_exact_witness:
  "\<exists>R' m. upload_file (agent_mcp sample_env) 0 sample_upload sample_os empty_os =
     (Inr (JsonText (JObj [(''bytes_uploaded'', JInt 3)])), R') \<and> node_at R' [RootDir, Normal ''g''] = Some (NFile m [1, 2, 3])"
proof -
  have m: "made_dirs (ua_create_dirs sample_upload) (path_of (upload_temp 0 sample_upload)) empty_os = (Inr (), empty_os)"
    by (simp add: made_dirs_def sample_upload_def opt_or_def split: option.split)
  have g: "path_of (ua_remote_path sample_upload) = [RootDir, Normal ''g'']"
    by (simp add: sample_upload_def path_of_def starts_with_def comps_of_def)
  have "replace_ready empty_os (path_of (upload_temp 0 sample_upload)) [RootDir, Normal ''g.relayfs-upload-0000000000000000'']
      (path_of (ua_remote_path sample_upload)) [RootDir, Normal ''g'']"
    unfolding sample_upload_temp g
    by (simp add: replace_ready_def empty_os_def os_path_def node_at_def)
  from upload_is_exact [OF base64_sample_env _ sample_source(2) _ m this] sample_source(1)
  show ?thesis by (simp add: sample_upload_def)
qed

text \<open>What an observer of the destination sees: \<open>dest\<close> is unchanged by every call that names the
  temporary file, and by a \<open>rename\<close> that fails.\<close>

definition shields :: "'r rpc_fun \<Rightarrow> string \<Rightarrow> ('r \<Rightarrow> 'd) \<Rightarrow> bool" where
  "shields f temp dest \<longleftrightarrow> (\<forall>m ps r. map_of ps ''path'' = Some (JStr temp) \<longrightarrow> dest (snd (f m (JObj ps) r)) = dest r) \<and>
     (\<forall>v r e r'. f (method_name RENAME) v r = (Inl e, r') \<longrightarrow> dest r' = dest r)"

lemma call_shielded:
  assumes "shields f temp dest" and "call f m ps r = (x, r')" and "map_of ps ''path'' = Some (JStr temp)"
  shows "dest r' = dest r"
proof -
  obtain y r1 where y: "f (method_name m) (JObj ps) r = (y, r1)" by fastforce
  then have "r' = r1" using assms(2) by (auto simp: call_def split: sum.splits)
  then show ?thesis using assms(1,3) y unfolding shields_def by (metis snd_conv)
qed

lemma upload_chunks_shielded:
  "shields (me_call env) temp dest \<Longrightarrow> upload_chunks env lp temp fs q off r = (x, r') \<Longrightarrow> dest r' = dest r"
proof (induction env lp temp fs q off r arbitrary: x r' rule: upload_chunks.induct)
  case (1 env lp temp fs q off r)
  show ?case
  proof (cases "os_read_at off TRANSFER_CHUNK_BYTES q fs")
    case (Inl e)
    then show ?thesis using 1(3) by (subst (asm) upload_chunks.simps) simp
  next
    case (Inr bs)
    show ?thesis
    proof (cases "bs = []")
      case True
      then show ?thesis using Inr 1(3) by (subst (asm) upload_chunks.simps) simp
    next
      case False
      obtain y r1 where y: "call (me_call env) WRITE_AT
          [(''path'', JStr temp), (''offset'', JInt (int off)), (''data'', JStr (me_enc env bs))] r = (y, r1)" by fastforce
      have d: "dest r1 = dest r" by (rule call_shielded [OF 1(2) y]) simp
      show ?thesis
      proof (cases y)
        case (Inl m)
        then show ?thesis using Inr False y d 1(3) by (subst (asm) upload_chunks.simps) simp
      next
        case (Inr v)
        then have "upload_chunks env lp temp fs q (off + length bs) r1 = (x, r')"
          using \<open>os_read_at off TRANSFER_CHUNK_BYTES q fs = Inr bs\<close> False y 1(3) by (subst (asm) upload_chunks.simps) simp
        then show ?thesis
          using 1(1) [OF \<open>os_read_at off TRANSFER_CHUNK_BYTES q fs = Inr bs\<close> False y [symmetric] Inr 1(2)] d by simp
      qed
    qed
  qed
qed

lemma upload_transfer_shielded:
  assumes "shields (me_call env) temp dest" and "upload_transfer env a temp fs q r = (x, r')"
  shows "dest r' = dest r"
proof -
  obtain y1 r1 where c1: "call (me_call env) WRITE_FILE
      [(''path'', JStr temp), (''data'', JStr []), (''create_dirs'', opt_json JBool (ua_create_dirs a))] r = (y1, r1)"
    by fastforce
  have d1: "dest r1 = dest r" by (rule call_shielded [OF assms(1) c1]) simp
  obtain y2 r2 where c2: "upload_chunks env (ua_local_path a) temp fs q 0 r1 = (y2, r2)" by fastforce
  have d2: "dest r2 = dest r1" by (rule upload_chunks_shielded [OF assms(1) c2])
  have d3: "dest r3 = dest r2" if "call (me_call env) TRUNCATE [(''path'', JStr temp), (''size'', JInt (int n))] r2 = (y, r3)"
    for n y r3 by (rule call_shielded [OF assms(1) that]) simp
  show ?thesis
    using assms(2) c1 c2 d1 d2 d3 by (auto simp: upload_transfer_def split: sum.splits prod.splits)
qed


definition offline_mcp :: "'r mcp_env" where
  "offline_mcp = \<lparr>me_call = offline_rpc, me_call_timeout = (\<lambda>_. offline_rpc), me_enc = raw_enc, me_dec = raw_dec,
     me_serde = ''bad result'', me_base64 = ''bad data''\<rparr>"


section \<open>Download\<close>

lemma agent_read_chunk:
  assumes "base64_env a" and "os_open_read (path_of w) R = Inr q" and "node_at R q = Some (NFile m b)"
    and "off < 2 ^ 63"
  shows "call (agent_rpc a) READ_FILE [(''path'', JStr w), (''offset'', JInt (int off)),
      (''limit'', JInt (int TRANSFER_CHUNK_BYTES))] R =
    (Inr (read_file_result_json \<lparr>rfr_data = env_enc a (take TRANSFER_CHUNK_BYTES (drop off b)),
       rfr_eof = length b < off + TRANSFER_CHUNK_BYTES\<rparr>), R)"
proof (rule call_agent [OF file_method_agent(3)])
  have n: "off < 2 ^ 64" "TRANSFER_CHUNK_BYTES < 2 ^ 64" "seek_ok off" "TRANSFER_CHUNK_BYTES \<le> MAX_DIRECT_FILE_BYTES"
    using assms(4) by (simp_all add: TRANSFER_CHUNK_BYTES_def seek_ok_def MAX_DIRECT_FILE_BYTES_def)
  have once: "read_once off TRANSFER_CHUNK_BYTES b = take TRANSFER_CHUNK_BYTES (drop off b)"
    by (simp add: read_once_def TRANSFER_CHUNK_BYTES_def os_read_cap_def)
  have e: "min (length b - off) TRANSFER_CHUNK_BYTES < TRANSFER_CHUNK_BYTES \<longleftrightarrow> length b < off + TRANSFER_CHUNK_BYTES"
    by (auto simp: TRANSFER_CHUNK_BYTES_def)
  show "agent_read_file (env_enc a) (JObj [(''path'', JStr w), (''offset'', JInt (int off)),
      (''limit'', JInt (int TRANSFER_CHUNK_BYTES))]) R =
    (Inr (read_file_result_json \<lparr>rfr_data = env_enc a (take TRANSFER_CHUNK_BYTES (drop off b)),
       rfr_eof = length b < off + TRANSFER_CHUNK_BYTES\<rparr>), R)"
    unfolding agent_read_file_def read_call [OF n(1,2)]
    using assms(1-3) n by (simp add: os_read_at_def Let_def once e)
qed

lemma download_chunks_copy:
  assumes "base64_env a" and "os_open_read (path_of w) R = Inr q" and "node_at R q = Some (NFile mr b)" and "length b < 2 ^ 63"
    and "node_at fs t = Some (NFile m (take off b))" and "off \<le> length b" and "(length b - off) div TRANSFER_CHUNK_BYTES < fuel"
  shows "\<exists>fs' m'. download_chunks fuel (agent_mcp a) w t off fs R = Some (Inr (length b), fs', R) \<and>
    same_but t fs fs' \<and> node_at fs' t = Some (NFile m' b)"
  using assms(5-7)
proof (induction fuel arbitrary: off fs m)
  case (Suc fuel)
  let ?C = TRANSFER_CHUNK_BYTES
  let ?c = "take ?C (drop off b)"
  let ?fs = "os_modify (write_bytes off ?c) t fs"
  have C: "0 < ?C" by (simp add: TRANSFER_CHUNK_BYTES_def)
  have "off < 2 ^ 63" using Suc.prems(2) assms(4) by simp
  note rd = agent_read_chunk [OF assms(1-3) this]
  have node: "node_at ?fs t = Some (NFile (touch fs m) (take (off + length ?c) b))"
    using Suc.prems(1) write_next_chunk [OF Suc.prems(2) refl, of ?C]
    by (cases "?c = []") (auto simp: node_at_modify write_bytes_def)
  show ?case
  proof (cases "length b < off + ?C")
    case True
    then have "off + length ?c = length b" using Suc.prems(2) by simp
    then show ?thesis using rd True node same_but_write
      by (auto simp: read_file_result_roundtrip assms(1) Let_def)
  next
    case False
    then have c: "length ?c = ?C" "?c \<noteq> []" using C by auto
    have "(length b - off) div ?C = Suc ((length b - (off + ?C)) div ?C)"
      using False C by (simp add: le_div_geq)
    then have "(length b - (off + ?C)) div ?C < fuel" using Suc.prems(3) by simp
    from Suc.IH [OF node [unfolded c(1)] _ this] False
    obtain fs' m' where "download_chunks fuel (agent_mcp a) w t (off + ?C) ?fs R = Some (Inr (length b), fs', R)"
      "same_but t ?fs fs'" "node_at fs' t = Some (NFile m' b)" by auto
    then show ?thesis using rd False c same_but_trans [OF same_but_write]
      by (auto simp: read_file_result_roundtrip assms(1) Let_def)
  qed
qed simp

lemma download_chunks_elsewhere:
  assumes "download_chunks fuel env w t off fs r = Some (res, fs', r')" and "node_at fs t = Some (NFile m c)"
  shows "same_but t fs fs' \<and> (\<exists>m c. node_at fs' t = Some (NFile m c))"
  using assms
proof (induction fuel arbitrary: off fs r m c)
  case (Suc fuel)
  obtain y r1 where y: "call (me_call env) READ_FILE [(''path'', JStr w), (''offset'', JInt (int off)),
      (''limit'', JInt (int TRANSFER_CHUNK_BYTES))] r = (y, r1)" by fastforce
  show ?case
  proof (cases "fs' = fs")
    case True
    then show ?thesis using Suc.prems(2) by auto
  next
    case False
    then obtain b where "fs' = os_modify (write_bytes off b) t fs \<or>
        download_chunks fuel env w t (off + length b) (os_modify (write_bytes off b) t fs) r1 = Some (res, fs', r')"
      using Suc.prems(1) y by (auto simp: Let_def split: sum.splits option.splits if_splits)
    moreover have "node_at (os_modify (write_bytes off b) t fs) t = Some (NFile (touch fs m) (write_bytes off b c))"
      using Suc.prems(2) by (simp add: node_at_modify)
    ultimately show ?thesis using Suc.IH same_but_write same_but_trans by metis
  qed
qed simp

text \<open>C34: a download from the agent is exact and atomic: with enough fuel for the file's chunks it
  returns, the local destination is then the target's file and the answer its length; and
  whatever a target answers, a download that fails leaves the destination as it was.\<close>

theorem download_is_exact_and_atomic:
  assumes "base64_env a" and "os_open_read (path_of (da_remote_path d)) R = Inr q" and "node_at R q = Some (NFile mr b)"
    and "length b < 2 ^ 63" and "download_dirs d fs = (Inr (), fs1)"
    and "replace_ready fs1 (temporary_path (path_of (da_local_path d)) ''download'' rnd) t (path_of (da_local_path d)) x"
    and "length b div TRANSFER_CHUNK_BYTES < fuel"
  shows "(\<exists>fs' m. download_file fuel (agent_mcp a) rnd d fs R =
      Some (Inr (JsonText (JObj [(''bytes_downloaded'', JInt (int (length b)))])), fs', R) \<and>
      node_at fs' x = Some (NFile m b)) \<and>
    (\<forall>n env r msg fs' r'. download_file n env rnd d fs r = Some (Inl msg, fs', r') \<longrightarrow> node_at fs' x = node_at fs1 x)"
proof
  let ?temp = "temporary_path (path_of (da_local_path d)) ''download'' rnd"
  let ?m = "new_meta fs1 438"
  let ?fs2 = "put_node t (NFile ?m []) fs1"
  note c = replace_ready_create(1) [OF assms(6), where mode = 438]
  have n2: "node_at ?fs2 t = Some (NFile ?m (take 0 b))" "node_at ?fs2 t = Some (NFile ?m [])" by simp_all
  obtain fs3 m3 where ch: "download_chunks fuel (agent_mcp a) (da_remote_path d) t 0 ?fs2 R = Some (Inr (length b), fs3, R)"
    and "same_but t ?fs2 fs3" "node_at fs3 t = Some (NFile m3 b)"
    using download_chunks_copy [OF assms(1-4) n2(1), of fuel] assms(7) by auto
  then show "\<exists>fs' m. download_file fuel (agent_mcp a) rnd d fs R =
      Some (Inr (JsonText (JObj [(''bytes_downloaded'', JInt (int (length b)))])), fs', R) \<and>
      node_at fs' x = Some (NFile m b)"
    using assms(5) c replace_ready_finish(2,5) [OF assms(6)]
    by (simp add: download_file_def Let_def)
  show "\<forall>n env r msg fs' r'. download_file n env rnd d fs r = Some (Inl msg, fs', r') \<longrightarrow> node_at fs' x = node_at fs1 x"
  proof (intro allI impI)
    fix n and env :: "'b mcp_env" and r msg fs' r'
    assume f: "download_file n env rnd d fs r = Some (Inl msg, fs', r')"
    then obtain res fs3 r3 where ch: "download_chunks n env (da_remote_path d) t 0 ?fs2 r = Some (res, fs3, r3)"
      using assms(5) c by (auto simp: download_file_def Let_def)
    from download_chunks_elsewhere [OF this n2(2)]
    obtain m c' where "same_but t ?fs2 fs3" "node_at fs3 t = Some (NFile m c')" by blast
    note fin = replace_ready_finish [OF assms(6) this]
    have "fs' = del_node t fs3"
      using f assms(5) c ch fin(2,3) by (auto simp: download_file_def Let_def split: sum.splits)
    moreover have "x \<noteq> t" using assms(6) by (simp add: replace_ready_def)
    ultimately show "node_at fs' x = node_at fs1 x" using fin(1) by simp
  qed
qed

definition sample_download :: download_file_args where
  "sample_download = \<lparr>da_remote_path = ''/d/f'', da_local_path = ''/g'', da_create_dirs = None\<rparr>"

theorem download_is_exact_and_atomic_witness:
  "\<exists>fs' m. download_file 1 (agent_mcp sample_env) 0 sample_download empty_os sample_os =
     Some (Inr (JsonText (JObj [(''bytes_downloaded'', JInt 3)])), fs', sample_os) \<and>
     node_at fs' [RootDir, Normal ''g''] = Some (NFile m [1, 2, 3])"
proof -
  have g: "path_of (da_local_path sample_download) = [RootDir, Normal ''g'']"
    by (simp add: sample_download_def path_of_def starts_with_def comps_of_def)
  have t: "temporary_path [RootDir, Normal ''g''] ''download'' 0 = [RootDir, Normal ''.g.relayfs-download-0000000000000000'']"
    by code_simp
  have m: "download_dirs sample_download empty_os = (Inr (), empty_os)"
    by (simp add: download_dirs_def sample_download_def split: option.split)
  have "replace_ready empty_os (temporary_path (path_of (da_local_path sample_download)) ''download'' 0)
      [RootDir, Normal ''.g.relayfs-download-0000000000000000''] (path_of (da_local_path sample_download)) [RootDir, Normal ''g'']"
    unfolding g t by (simp add: replace_ready_def empty_os_def os_path_def node_at_def)
  from download_is_exact_and_atomic [OF base64_sample_env _ sample_source(2) _ m this, of 1, THEN conjunct1] sample_source(1)
  show ?thesis by (simp add: sample_download_def TRANSFER_CHUNK_BYTES_def)
qed

end
