(* ===== verification/Percent.thy ===== *)
theory Percent
  imports Prelude
begin

text \<open>
  \<open>decode_percent\<close> of \<open>crates/bridge/src/http.rs\<close>, with the functions of the standard library it
  uses: \<open>u8::from_str_radix\<close> on two bytes and \<open>String::from_utf8_lossy\<close>.
\<close>

section \<open>UTF-8\<close>

abbreviation code_of :: "char \<Rightarrow> nat" where "code_of c \<equiv> of_char c"

text \<open>The length of the sequence a first byte starts, 0 for a byte that starts none.\<close>

definition utf8_len :: "char \<Rightarrow> nat" where
  "utf8_len c = (let n = code_of c in
     if n < 128 then 1 else if 194 \<le> n \<and> n \<le> 223 then 2 else if 224 \<le> n \<and> n \<le> 239 then 3
     else if 240 \<le> n \<and> n \<le> 244 then 4 else 0)"

definition utf8_cont :: "char \<Rightarrow> bool" where
  "utf8_cont c \<longleftrightarrow> 128 \<le> code_of c \<and> code_of c < 192"

definition utf8_second :: "char \<Rightarrow> char \<Rightarrow> bool" where
  "utf8_second a b \<longleftrightarrow> utf8_cont b \<and> (code_of a = 224 \<longrightarrow> 160 \<le> code_of b) \<and> (code_of a = 237 \<longrightarrow> code_of b < 160) \<and>
     (code_of a = 240 \<longrightarrow> 144 \<le> code_of b) \<and> (code_of a = 244 \<longrightarrow> code_of b < 144)"

text \<open>How many of the bytes after the first fit, and the text with each maximal ill-formed part
  replaced by U+FFFD.\<close>

definition utf8_follow :: "char \<Rightarrow> string \<Rightarrow> nat" where
  "utf8_follow a s = (if utf8_len a < 2 then 0 else case s of
     [] \<Rightarrow> 0
   | b # r \<Rightarrow> if utf8_second a b then 1 + length (takeWhile utf8_cont (take (utf8_len a - 2) r)) else 0)"

definition replacement :: string where "replacement = [CHR 0xEF, CHR 0xBF, CHR 0xBD]"

function utf8_lossy :: "string \<Rightarrow> string" where
  "utf8_lossy [] = []"
| "utf8_lossy (a # s) =
     (if utf8_len a \<noteq> 0 \<and> utf8_follow a s = utf8_len a - 1
      then a # take (utf8_follow a s) s @ utf8_lossy (drop (utf8_follow a s) s)
      else replacement @ utf8_lossy (drop (utf8_follow a s) s))"
  by pat_completeness auto
termination by (relation "measure length") auto

lemma utf8_lossy_ascii: "list_all (\<lambda>c. code_of c < 128) s \<Longrightarrow> utf8_lossy s = s"
  by (induction s) (auto simp: utf8_len_def utf8_follow_def)

section \<open>Percent escapes\<close>

definition hex_value :: "char \<Rightarrow> nat option" where
  "hex_value c = (let n = code_of c in
     if 48 \<le> n \<and> n \<le> 57 then Some (n - 48) else if 97 \<le> n \<and> n \<le> 102 then Some (n - 87)
     else if 65 \<le> n \<and> n \<le> 70 then Some (n - 55) else None)"

text \<open>\<open>u8::from_str_radix(_, 16)\<close> on two characters; it takes a leading plus sign.\<close>

definition from_hex2 :: "char \<Rightarrow> char \<Rightarrow> char option" where
  "from_hex2 a b = (case hex_value b of
     None \<Rightarrow> None
   | Some l \<Rightarrow> if a = CHR ''+'' then Some (char_of l)
              else (case hex_value a of None \<Rightarrow> None | Some h \<Rightarrow> Some (char_of (16 * h + l))))"

fun decode_bytes :: "string \<Rightarrow> string" where
  "decode_bytes [] = []"
| "decode_bytes (c # s) =
     (if c = CHR ''%'' then
        (case s of
           a # b # r \<Rightarrow> (case from_hex2 a b of Some x \<Rightarrow> x # decode_bytes r | None \<Rightarrow> decode_bytes r)
         | _ \<Rightarrow> [])
      else if c = CHR ''+'' then CHR '' '' # decode_bytes s
      else c # decode_bytes s)"

definition decode_percent :: "string \<Rightarrow> string" where
  "decode_percent s = utf8_lossy (decode_bytes s)"

text \<open>The reference encoding: every byte that is not an ASCII letter or digit as an escape.\<close>

definition unreserved :: "char \<Rightarrow> bool" where
  "unreserved c \<longleftrightarrow> (let n = code_of c in 48 \<le> n \<and> n \<le> 57 \<or> 65 \<le> n \<and> n \<le> 90 \<or> 97 \<le> n \<and> n \<le> 122)"

fun encode_percent :: "string \<Rightarrow> string" where
  "encode_percent [] = []"
| "encode_percent (c # s) =
     (if unreserved c then c # encode_percent s
      else CHR ''%'' # hex_digit (code_of c div 16) # hex_digit (code_of c mod 16) # encode_percent s)"

lemma hex_value_digit: "d < 16 \<Longrightarrow> hex_value (hex_digit d) = Some d"
  by (auto simp: hex_value_def hex_digit_def Let_def)

lemma hex_digit_not_plus: "d < 16 \<Longrightarrow> hex_digit d \<noteq> CHR ''+''"
  using hex_value_digit [of d] by (auto simp: hex_value_def)

lemma from_hex2_digits: "from_hex2 (hex_digit (code_of c div 16)) (hex_digit (code_of c mod 16)) = Some c"
proof -
  have "code_of c < 256" using of_char_mod_256 [of c, where 'a = nat] by (metis mod_less_divisor zero_less_numeral)
  then have "code_of c div 16 < 16" by (intro less_mult_imp_div_less) simp
  then show ?thesis using hex_digit_not_plus by (simp add: from_hex2_def hex_value_digit)
qed

lemma decode_encode_bytes: "decode_bytes (encode_percent s) = s"
proof (induction s)
  case (Cons c s)
  have "unreserved c \<Longrightarrow> c \<noteq> CHR ''%'' \<and> c \<noteq> CHR ''+''" by (auto simp: unreserved_def)
  then show ?case using Cons by (simp add: from_hex2_digits)
qed simp

text \<open>Percent-decoding undoes percent-encoding on ASCII text, so a token given in a query is the
  token compared. An escape that is malformed vanishes with its two characters, and a plus
  sign counts as a hexadecimal digit in front: "a%zzb" reads "ab", "%+f" the byte 15.\<close>

theorem decode_percent_inverts_encoding:
  assumes "list_all (\<lambda>c. code_of c < 128) s"
  shows "decode_percent (encode_percent s) = s \<and> decode_percent ''a%zzb'' = ''ab'' \<and> decode_percent ''%+f'' = [CHR 0x0F]"
proof -
  have "decode_percent ''a%zzb'' = ''ab''" "decode_percent ''%+f'' = [CHR 0x0F]" by code_simp+
  then show ?thesis using assms by (simp add: decode_percent_def decode_encode_bytes utf8_lossy_ascii)
qed

theorem decode_percent_inverts_encoding_witness:
  "decode_percent (encode_percent ''s3cret/+%'') = ''s3cret/+%''"
  using decode_percent_inverts_encoding [of "''s3cret/+%''"] by simp

end
