(* ===== verification/Http_Auth.thy ===== *)
theory Http_Auth
  imports Percent Protocol
begin

text \<open>
  The HTTP server of the bridge (\<open>crates/bridge/src/http.rs\<close>): the token check in front of the
  MCP endpoint, the login page, the OAuth authorization and token endpoints and the legacy SSE
  endpoint, over the table of authorization codes. Header values are given as the text
  \<open>to_str\<close> reads from them, queries and forms as axum parses them; the MCP service itself is a
  library. Responses keep what depends on the request or the state; \<open>Http_Server\<close> makes the replies of
  them, with their headers and constant bodies.
\<close>

section \<open>State and requests\<close>

record auth_code_entry =
  ace_token :: string
  expires_at :: instant
  ace_redirect_uri :: "string option"

record http_state =
  http_token :: string
  auth_codes :: "string \<rightharpoonup> auth_code_entry"

definition new_http_state :: "string \<Rightarrow> http_state" where
  "new_http_state tok = \<lparr>http_token = tok, auth_codes = Map.empty\<rparr>"

record credentials =
  authorization :: "string option"
  query_string :: "string option"
  cookie_header :: "string option"

record authorize_query =
  aq_client_id :: "string option"
  aq_redirect_uri :: "string option"
  aq_response_type :: "string option"
  aq_state :: "string option"
  aq_error :: "string option"

record authorize_form =
  af_token :: string
  af_redirect_uri :: "string option"
  af_state :: "string option"

datatype http_response =
    Preflight
  | ServedByMcp
  | Unauthorized
  | AuthorizedPage string \<comment> \<open>the token shown\<close>
  | LoginForm string string string string string \<comment> \<open>error, redirect URI, state, type, client\<close>
  | RedirectTo string
  | LoginSuccess string string \<comment> \<open>the token shown, the cookie\<close>
  | TokenResponse string
  | InvalidGrant
  | EndpointEvent string

section \<open>Finding the token\<close>

definition bearer :: "string \<Rightarrow> string option" where
  "bearer a = map_option trim (strip_prefix_str ''Bearer '' a)"

text \<open>The first nonempty value of the pairs that name the token.\<close>

fun first_token :: "(string \<Rightarrow> (string \<times> string) option) \<Rightarrow> string list \<Rightarrow> string option" where
  "first_token f [] = None"
| "first_token f (w # ws) = (case f w of
     Some (k, v) \<Rightarrow> if k \<in> {''token'', ''access_token''} \<and> v \<noteq> [] then Some v else first_token f ws
   | None \<Rightarrow> first_token f ws)"

definition query_pair :: "string \<Rightarrow> (string \<times> string) option" where
  "query_pair w = map_option (\<lambda>(k, v). (k, decode_percent v)) (split_once (CHR ''='') w)"

definition cookie_pair :: "string \<Rightarrow> (string \<times> string) option" where
  "cookie_pair w = map_option (\<lambda>(k, v). (k, trim v)) (split_once (CHR ''='') (trim w))"

definition extract_token :: "credentials \<Rightarrow> string option" where
  "extract_token c =
     (case Option.bind (authorization c) bearer of
        Some (x # t) \<Rightarrow> Some (x # t)
      | _ \<Rightarrow>
        (case Option.bind (query_string c) (\<lambda>q. first_token query_pair (split_on (CHR ''&'') q)) of
           Some t \<Rightarrow> Some t
         | None \<Rightarrow> Option.bind (cookie_header c) (\<lambda>h. first_token cookie_pair (split_on (CHR '';'') h))))"

definition authed :: "http_state \<Rightarrow> credentials \<Rightarrow> bool" where
  "authed s c \<longleftrightarrow> http_token s = [] \<or> extract_token c = Some (http_token s)"

section \<open>Handlers\<close>

definition auth_middleware :: "http_state \<Rightarrow> bool \<Rightarrow> credentials \<Rightarrow> http_response" where
  "auth_middleware s options c =
     (if options then Preflight else if authed s c then ServedByMcp else Unauthorized)"

definition or_empty :: "string option \<Rightarrow> string" where
  "or_empty x = (case x of None \<Rightarrow> [] | Some v \<Rightarrow> v)"

definition login_page :: "http_state \<Rightarrow> authorize_query \<Rightarrow> credentials \<Rightarrow> http_response" where
  "login_page s q c =
     (if authed s c then AuthorizedPage (if http_token s = [] then ''(none required)'' else http_token s)
      else LoginForm (or_empty (aq_error q)) (or_empty (aq_redirect_uri q)) (or_empty (aq_state q))
        (case aq_response_type q of None \<Rightarrow> ''code'' | Some v \<Rightarrow> v) (or_empty (aq_client_id q)))"

definition CODE_LIFETIME :: nat where "CODE_LIFETIME = 600 * 1000"

text \<open>\<open>HeaderValue::from_str\<close> takes visible characters and tabs.\<close>

definition header_value :: "string \<Rightarrow> string option" where
  "header_value s = (if list_all (\<lambda>c. let n = of_char c :: nat in 32 \<le> n \<and> n \<noteq> 127 \<or> n = 9) s then Some s else None)"

definition authorize_submit ::
  "instant \<Rightarrow> nat \<Rightarrow> nat \<Rightarrow> authorize_form \<Rightarrow> http_state \<Rightarrow> http_response \<times> http_state" where
  "authorize_submit now r1 r2 f s =
     (if http_token s \<noteq> [] \<and> af_token f \<noteq> http_token s then
        (RedirectTo (''/oauth/authorize?error=Invalid%20pairing%20token&redirect_uri='' @ or_empty (af_redirect_uri f) @
           ''&state='' @ or_empty (af_state f)), s)
      else (case af_redirect_uri f of
          Some (x # uri) \<Rightarrow>
            (let u = x # uri; code = hex_pad 16 r1 @ hex_pad 16 r2 in
             (RedirectTo (u @ (if str_contains u ''?'' then ''&'' else ''?'') @ ''code='' @ code @
                (case af_state f of None \<Rightarrow> [] | Some st \<Rightarrow> ''&state='' @ st)),
              s\<lparr>auth_codes := (auth_codes s)(code \<mapsto> \<lparr>ace_token = af_token f, expires_at = now + CODE_LIFETIME,
                ace_redirect_uri = Some u\<rparr>)\<rparr>))
        | _ \<Rightarrow> (LoginSuccess (af_token f)
            (or_empty (header_value (''access_token='' @ af_token f @ ''; Path=/; HttpOnly; SameSite=Lax; Max-Age=86400''))), s)))"

record token_request =
  tr_grant_type :: "string option"
  tr_code :: "string option"
  tr_client_id :: "string option"
  tr_client_secret :: "string option"
  tr_password :: "string option"
  tr_token :: "string option"

definition no_token_request :: token_request where
  "no_token_request = \<lparr>tr_grant_type = None, tr_code = None, tr_client_id = None, tr_client_secret = None,
     tr_password = None, tr_token = None\<rparr>"

definition of_token_request :: "json \<Rightarrow> token_request option" where
  "of_token_request j = do {
     f \<leftarrow> struct_src [''grant_type'', ''code'', ''client_id'', ''client_secret'', ''password'', ''token''] j;
     g \<leftarrow> opt_field f ''grant_type'' of_str;
     c \<leftarrow> opt_field f ''code'' of_str;
     i \<leftarrow> opt_field f ''client_id'' of_str;
     k \<leftarrow> opt_field f ''client_secret'' of_str;
     p \<leftarrow> opt_field f ''password'' of_str;
     t \<leftarrow> opt_field f ''token'' of_str;
     Some \<lparr>tr_grant_type = g, tr_code = c, tr_client_id = i, tr_client_secret = k, tr_password = p, tr_token = t\<rparr> }"

definition set_token_field :: "string \<Rightarrow> string \<Rightarrow> token_request \<Rightarrow> token_request" where
  "set_token_field k v q =
     (if k = ''grant_type'' then q\<lparr>tr_grant_type := Some v\<rparr>
      else if k = ''code'' then q\<lparr>tr_code := Some v\<rparr>
      else if k = ''client_id'' then q\<lparr>tr_client_id := Some v\<rparr>
      else if k = ''client_secret'' then q\<lparr>tr_client_secret := Some v\<rparr>
      else if k = ''password'' then q\<lparr>tr_password := Some v\<rparr>
      else if k = ''token'' then q\<lparr>tr_token := Some v\<rparr>
      else q)"

definition form_token_request :: "string \<Rightarrow> token_request" where
  "form_token_request text = fold (\<lambda>w q. case split_once (CHR ''='') w of
     None \<Rightarrow> q | Some (k, v) \<Rightarrow> set_token_field k (decode_percent v) q) (split_on (CHR ''&'') text) no_token_request"

text \<open>The body as the JSON it may be (\<open>None\<close> if it is not) and as text (empty if not UTF-8).\<close>

definition token_request_of :: "json option \<Rightarrow> string \<Rightarrow> token_request" where
  "token_request_of j text = (case Option.bind j of_token_request of
     Some q \<Rightarrow> q | None \<Rightarrow> form_token_request text)"

fun first_some :: "'a option list \<Rightarrow> 'a option" where
  "first_some [] = None"
| "first_some (Some x # xs) = Some x"
| "first_some (None # xs) = first_some xs"

definition offered_secret :: "token_request \<Rightarrow> string option \<Rightarrow> string option" where
  "offered_secret q auth = first_some [tr_client_secret q, tr_password q, tr_token q, Option.bind auth bearer]"

definition token_endpoint ::
  "instant \<Rightarrow> token_request \<Rightarrow> string option \<Rightarrow> http_state \<Rightarrow> http_response \<times> http_state" where
  "token_endpoint now q auth s =
     (let grant = (case tr_grant_type q of None \<Rightarrow> ''client_credentials'' | Some g \<Rightarrow> g);
          (valid, s1) =
            (if grant = ''authorization_code'' then
               (case tr_code q of
                  None \<Rightarrow> (False, s)
                | Some c \<Rightarrow> (case auth_codes s c of
                    None \<Rightarrow> (False, s)
                  | Some e \<Rightarrow> (now < expires_at e, s\<lparr>auth_codes := (auth_codes s)(c := None)\<rparr>)))
             else (http_token s = [] \<or> offered_secret q auth = Some (http_token s), s))
      in (if valid then TokenResponse (http_token s) else InvalidGrant, s1))"

definition legacy_sse_handler :: "http_state \<Rightarrow> credentials \<Rightarrow> http_response" where
  "legacy_sse_handler s c =
     (if \<not> authed s c then Unauthorized
      else EndpointEvent (''event: endpoint'' @ [CHR 0x0A] @ ''data: /mcp'' @
        (if http_token s = [] then [] else ''?token='' @ http_token s) @ [CHR 0x0A, CHR 0x0A]))"

text \<open>The minutely task.\<close>

definition drop_expired :: "instant \<Rightarrow> http_state \<Rightarrow> http_state" where
  "drop_expired now s = s\<lparr>auth_codes := (\<lambda>c. case auth_codes s c of
     Some e \<Rightarrow> if now < expires_at e then Some e else None | None \<Rightarrow> None)\<rparr>"

section \<open>Events\<close>

text \<open>The router's routes, and the cleanup; a login's two random numbers come with its event.\<close>

datatype http_event =
    McpRequest bool credentials
  | LoginPage authorize_query credentials
  | Authorize nat nat authorize_form
  | TokenPost token_request "string option"
  | SseGet credentials
  | Cleanup

fun http_step :: "instant \<Rightarrow> http_event \<Rightarrow> http_state \<Rightarrow> http_response option \<times> http_state" where
  "http_step now (McpRequest options c) s = (Some (auth_middleware s options c), s)"
| "http_step now (LoginPage q c) s = (Some (login_page s q c), s)"
| "http_step now (Authorize r1 r2 f) s = (case authorize_submit now r1 r2 f s of (r, s1) \<Rightarrow> (Some r, s1))"
| "http_step now (TokenPost q a) s = (case token_endpoint now q a s of (r, s1) \<Rightarrow> (Some r, s1))"
| "http_step now (SseGet c) s = (Some (legacy_sse_handler s c), s)"
| "http_step now Cleanup s = (None, drop_expired now s)"

definition http_run :: "(instant \<times> http_event) list \<Rightarrow> http_state \<Rightarrow> http_state" where
  "http_run es s = fold (\<lambda>(now, e) s. snd (http_step now e s)) es s"

end
