(* ===== verification/Http_Auth_Props.thy ===== *)
theory Http_Auth_Props
  imports Http_Auth
begin

text \<open>Who gets at the token and the tools: the properties of the HTTP server's authentication.\<close>

fun gives_access :: "string \<Rightarrow> http_response \<Rightarrow> bool" where
  "gives_access tok ServedByMcp = True"
| "gives_access tok (AuthorizedPage t) = (t = tok)"
| "gives_access tok (LoginSuccess t _) = (t = tok)"
| "gives_access tok (TokenResponse t) = (t = tok)"
| "gives_access tok (EndpointEvent t) = str_contains t tok"
| "gives_access tok _ = False"

fun presents :: "string \<Rightarrow> http_event \<Rightarrow> bool" where
  "presents tok (McpRequest _ c) = (extract_token c = Some tok)"
| "presents tok (LoginPage _ c) = (extract_token c = Some tok)"
| "presents tok (Authorize _ _ f) = (af_token f = tok)"
| "presents tok (TokenPost q a) = (offered_secret q a = Some tok)"
| "presents tok (SseGet c) = (extract_token c = Some tok)"
| "presents tok Cleanup = False"

fun redeems :: "string \<Rightarrow> http_event \<Rightarrow> bool" where
  "redeems c (TokenPost q _) = (tr_grant_type q = Some ''authorization_code'' \<and> tr_code q = Some c)"
| "redeems c _ = False"

definition code_text :: "nat \<Rightarrow> nat \<Rightarrow> string" where
  "code_text r1 r2 = hex_pad 16 r1 @ hex_pad 16 r2"

text \<open>A code that a holder of the token was given at \<open>t0\<close> and nobody has used since.\<close>

definition issued :: "string \<Rightarrow> string \<Rightarrow> instant \<Rightarrow> (instant \<times> http_event) list \<Rightarrow> bool" where
  "issued tok c t0 es \<longleftrightarrow> (\<exists>es1 r1 r2 f es2. es = es1 @ (t0, Authorize r1 r2 f) # es2 \<and> af_token f = tok \<and>
     c = code_text r1 r2 \<and> (\<forall>(_, e) \<in> set es2. \<not> redeems c e))"

lemma issued_later: "issued tok c t0 es \<Longrightarrow> \<not> redeems c e \<Longrightarrow> issued tok c t0 (es @ [(t, e)])"
  unfolding issued_def by (elim exE conjE, rule_tac x = es1 in exI) fastforce

lemma issued_now: "af_token f = tok \<Longrightarrow> issued tok (code_text r1 r2) t (es @ [(t, Authorize r1 r2 f)])"
  unfolding issued_def by fastforce

lemma http_token_step [simp]: "http_token (snd (http_step now e s)) = http_token s"
  by (cases e) (auto simp: authorize_submit_def token_endpoint_def drop_expired_def Let_def
      split: prod.splits option.splits list.splits if_splits)

lemma http_run_snoc: "http_run (es @ [(now, e)]) s = snd (http_step now e (http_run es s))"
  by (simp add: http_run_def)

lemma http_token_run [simp]: "http_token (http_run es s) = http_token s"
  by (induction es rule: rev_induct) (auto simp: http_run_snoc, simp add: http_run_def)

lemma new_codes:
  assumes "auth_codes (snd (http_step now e s)) c = Some x" and "http_token s = tok" and "tok \<noteq> []"
  shows "auth_codes s c = Some x \<and> \<not> redeems c e \<or>
    (\<exists>r1 r2 f. e = Authorize r1 r2 f \<and> af_token f = tok \<and> c = code_text r1 r2 \<and> expires_at x = now + CODE_LIFETIME)"
proof (cases e)
  case (Authorize r1 r2 f)
  then show ?thesis using assms
    by (auto simp: authorize_submit_def Let_def code_text_def split: option.splits list.splits if_splits)
next
  case (TokenPost q a)
  then show ?thesis using assms
    by (auto simp: token_endpoint_def Let_def split: option.splits if_splits)
next
  case Cleanup
  then show ?thesis using assms by (auto simp: drop_expired_def split: option.splits if_splits)
qed (use assms in auto)

lemma codes_issued:
  assumes "tok \<noteq> []" and "auth_codes (http_run es (new_http_state tok)) c = Some x"
  shows "\<exists>t0. issued tok c t0 es \<and> expires_at x = t0 + CODE_LIFETIME"
  using assms(2)
proof (induction es arbitrary: x rule: rev_induct)
  case Nil
  then show ?case by (simp add: http_run_def new_http_state_def)
next
  case (snoc y es)
  obtain now e where y: "y = (now, e)" by (cases y)
  let ?s = "http_run es (new_http_state tok)"
  have "auth_codes (snd (http_step now e ?s)) c = Some x" using snoc.prems by (simp add: y http_run_snoc)
  from new_codes [OF this _ assms(1)] show ?case
  proof
    show "http_token ?s = tok" by (simp add: new_http_state_def)
  next
    assume "auth_codes ?s c = Some x \<and> \<not> redeems c e"
    then show ?thesis using snoc.IH issued_later unfolding y by blast
  next
    assume "\<exists>r1 r2 f. e = Authorize r1 r2 f \<and> af_token f = tok \<and> c = code_text r1 r2 \<and> expires_at x = now + CODE_LIFETIME"
    then show ?thesis using issued_now unfolding y by blast
  qed
qed

lemma sse_needs_token: "gives_access tok (legacy_sse_handler s c) \<Longrightarrow> http_token s = tok \<Longrightarrow> tok \<noteq> [] \<Longrightarrow> extract_token c = Some tok"
  by (auto simp: legacy_sse_handler_def authed_def Let_def split: if_splits)

text \<open>C35: with a nonempty server token, nobody reaches the tools or is told the token without having
  it: every response that serves MCP, shows the token or hands it out answers a request that
  presents the token itself, or redeems an authorization code that a login with the token was
  given less than ten minutes before and that nobody has redeemed since.\<close>

theorem access_needs_the_token:
  assumes "tok \<noteq> []" and "s = http_run es (new_http_state tok)" and "http_step now e s = (Some r, s')"
    and "gives_access tok r"
  shows "presents tok e \<or> (\<exists>c t0. redeems c e \<and> issued tok c t0 es \<and> now < t0 + CODE_LIFETIME)"
proof -
  have tok: "http_token s = tok" by (simp add: assms(2) new_http_state_def)
  show ?thesis
  proof (cases e)
    case (McpRequest options c)
    then show ?thesis using assms(1,3,4) tok by (auto simp: auth_middleware_def authed_def split: if_splits)
  next
    case (LoginPage q c)
    then show ?thesis using assms(1,3,4) tok by (auto simp: login_page_def authed_def split: if_splits)
  next
    case (Authorize r1 r2 f)
    then show ?thesis using assms(1,3,4) tok
      by (auto simp: authorize_submit_def Let_def split: if_splits option.splits list.splits)
  next
    case (SseGet c)
    then show ?thesis using assms(1,3,4) tok sse_needs_token by auto
  next
    case (TokenPost q a)
    have "offered_secret q a = Some tok \<or> (\<exists>c x. tr_grant_type q = Some ''authorization_code'' \<and> tr_code q = Some c \<and>
        auth_codes s c = Some x \<and> now < expires_at x)"
      using assms(1,3,4) tok unfolding TokenPost
      by (auto simp: token_endpoint_def Let_def split: if_splits option.splits)
    then show ?thesis
    proof (elim disjE exE conjE)
      fix c x
      assume c: "tr_grant_type q = Some ''authorization_code''" "tr_code q = Some c" "auth_codes s c = Some x" "now < expires_at x"
      then obtain t0 where "issued tok c t0 es" "expires_at x = t0 + CODE_LIFETIME"
        using codes_issued [OF assms(1), of es c x] assms(2) by blast
      then have "redeems c e \<and> issued tok c t0 es \<and> now < t0 + CODE_LIFETIME" using c TokenPost by simp
      then show ?thesis by blast
    qed (simp add: TokenPost)
  qed (use assms(3) in simp)
qed

definition login_form :: authorize_form where
  "login_form = \<lparr>af_token = ''secret'', af_redirect_uri = Some ''http://c/cb'', af_state = None\<rparr>"

definition redeem_form :: token_request where
  "redeem_form = no_token_request\<lparr>tr_grant_type := Some ''authorization_code'', tr_code := Some (code_text 1 2)\<rparr>"

theorem access_needs_the_token_witness:
  "\<exists>c t0. redeems c (TokenPost redeem_form None) \<and> issued ''secret'' c t0 [(5, Authorize 1 2 login_form)] \<and> 9 < t0 + CODE_LIFETIME"
proof -
  let ?es = "[(5 :: nat, Authorize 1 2 login_form)]"
  let ?s = "http_run ?es (new_http_state ''secret'')"
  have c: "auth_codes ?s (code_text 1 2) = Some \<lparr>ace_token = ''secret'', expires_at = 5 + CODE_LIFETIME, ace_redirect_uri = Some ''http://c/cb''\<rparr>"
    "http_token ?s = ''secret''"
    by (simp_all add: http_run_def new_http_state_def authorize_submit_def login_form_def Let_def code_text_def)
  obtain r s' where st: "http_step 9 (TokenPost redeem_form None) ?s = (Some r, s')"
    by (cases "token_endpoint 9 redeem_form None ?s") auto
  have "gives_access ''secret'' r"
    using st c by (auto simp: token_endpoint_def redeem_form_def Let_def CODE_LIFETIME_def)
  moreover have "\<not> presents ''secret'' (TokenPost redeem_form None)"
    by (simp add: offered_secret_def redeem_form_def no_token_request_def)
  ultimately show ?thesis using access_needs_the_token [OF _ refl st] by blast
qed

end
