(* ===== verification/Http_Server.thy ===== *)
theory Http_Server
  imports Http_Auth_Props
begin

text \<open>
  The HTTP server as its clients see it (\<open>crates/bridge/src/http.rs\<close>): the router's paths and
  methods, the status, headers and body of every reply, around the handlers of \<open>Http_Auth\<close>. The
  environment holds what the libraries answer: the MCP service, the rejections of unknown paths,
  wrong methods and unreadable queries and forms, a redirection whose address is no header value.
\<close>

section \<open>Requests and replies\<close>

datatype http_method = GET | HEAD | POST | OPTIONS | OtherMethod

record http_request =
  rq_method :: http_method
  rq_path :: string
  rq_credentials :: credentials
  rq_query :: "authorize_query option" \<comment> \<open>the query as the login page reads it\<close>
  rq_form :: "authorize_form option"
  rq_json :: "json option"
  rq_text :: string

datatype http_body = NoBody | PlainText string | JsonBody json | HtmlPage http_response | EventStream string | OtherBody nat

record http_reply =
  status :: nat
  headers :: "(string \<times> string) list"
  body :: http_body

record http_env =
  mcp_service :: "http_request \<Rightarrow> http_reply"
  not_found :: http_reply
  not_allowed :: http_reply
  rejected :: http_reply
  bad_location :: "string \<Rightarrow> http_reply"

text \<open>\<open>HeaderMap::insert\<close>; names are in lower case.\<close>

definition set_header :: "string \<Rightarrow> string \<Rightarrow> (string \<times> string) list \<Rightarrow> (string \<times> string) list" where
  "set_header k v hs = filter (\<lambda>x. fst x \<noteq> k) hs @ [(k, v)]"

definition add_cors_headers :: "http_reply \<Rightarrow> http_reply" where
  "add_cors_headers r = r\<lparr>headers :=
     set_header ''access-control-expose-headers'' ''Mcp-Session-Id, Mcp-Protocol-Version''
       (set_header ''access-control-allow-headers''
          ''Authorization, Content-Type, Mcp-Session-Id, Mcp-Protocol-Version, Last-Event-Id, X-Requested-With''
          (set_header ''access-control-allow-methods'' ''GET, POST, DELETE, OPTIONS''
             (set_header ''access-control-allow-origin'' ''*'' (headers r))))\<rparr>"

definition has_cors :: "http_reply \<Rightarrow> bool" where
  "has_cors r \<longleftrightarrow> (''access-control-allow-origin'', ''*'') \<in> set (headers r)"

section \<open>The replies\<close>

definition json_reply :: "nat \<Rightarrow> json \<Rightarrow> http_reply" where
  "json_reply n j = \<lparr>status = n, headers = [(''content-type'', ''application/json'')], body = JsonBody j\<rparr>"

definition html_reply :: "http_response \<Rightarrow> http_reply" where
  "html_reply r = \<lparr>status = 200, headers = [(''content-type'', ''text/html; charset=utf-8'')], body = HtmlPage r\<rparr>"

definition cors_preflight_response :: http_reply where
  "cors_preflight_response = add_cors_headers \<lparr>status = 204, headers = [], body = NoBody\<rparr>"

definition unauthorized_response :: http_reply where
  "unauthorized_response = add_cors_headers
     \<lparr>status = 401, headers =
        [(''www-authenticate'', ''Bearer realm=\"relayfs\", error=\"invalid_token\", resource_metadata=\"/.well-known/oauth-protected-resource\"''),
         (''link'', ''</.well-known/oauth-protected-resource>; rel=\"describedby\"''),
         (''content-type'', ''application/json'')],
      body = JsonBody (JObj [(''error'', JStr ''unauthorized''),
        (''message'', JStr (''Valid token required. Pass '' @ [CHR 0x27] @ ''Authorization: Bearer <token>'' @ [CHR 0x27] @
           '', query '' @ [CHR 0x27] @ ''?token=<token>'' @ [CHR 0x27] @ '', or visit /login to authenticate.'')),
        (''login_url'', JStr ''/login'')])\<rparr>"

definition oauth_protected_resource :: http_reply where
  "oauth_protected_resource = add_cors_headers (json_reply 200 (JObj
     [(''resource'', JStr ''/mcp''), (''authorization_servers'', JArr [JStr ''/'']),
      (''scopes_supported'', JArr [JStr ''mcp:tools''])]))"

definition oauth_authorization_server :: http_reply where
  "oauth_authorization_server = add_cors_headers (json_reply 200 (JObj
     [(''issuer'', JStr ''/''), (''authorization_endpoint'', JStr ''/oauth/authorize''),
      (''token_endpoint'', JStr ''/oauth/token''),
      (''response_types_supported'', JArr [JStr ''code'', JStr ''token'']),
      (''grant_types_supported'', JArr [JStr ''authorization_code'', JStr ''client_credentials'', JStr ''password'']),
      (''token_endpoint_auth_methods_supported'',
        JArr [JStr ''client_secret_post'', JStr ''client_secret_basic'', JStr ''none''])]))"

text \<open>The first event of the stream; the comments that keep it alive are left out.\<close>

definition event_stream_reply :: "string \<Rightarrow> http_reply" where
  "event_stream_reply t = add_cors_headers
     \<lparr>status = 200, headers = [(''content-type'', ''text/event-stream''), (''cache-control'', ''no-cache''), (''connection'', ''keep-alive'')],
      body = EventStream t\<rparr>"

definition login_success_reply :: "string \<Rightarrow> string \<Rightarrow> http_reply" where
  "login_success_reply t cookie = (let r = html_reply (LoginSuccess t cookie) in
     r\<lparr>headers := set_header ''set-cookie'' cookie (headers r)\<rparr>)"

text \<open>What goes out for an outcome of a handler; \<open>served\<close> is the MCP service's reply. The cookie of
  a login is set after the page is made.\<close>

fun render :: "http_env \<Rightarrow> http_reply \<Rightarrow> http_response \<Rightarrow> http_reply" where
  "render env served Preflight = cors_preflight_response"
| "render env served ServedByMcp = add_cors_headers served"
| "render env served Unauthorized = unauthorized_response"
| "render env served (RedirectTo u) = (case header_value u of
     None \<Rightarrow> bad_location env u
   | Some l \<Rightarrow> \<lparr>status = 303, headers = [(''location'', l)], body = NoBody\<rparr>)"
| "render env served (LoginSuccess t cookie) = login_success_reply t cookie"
| "render env served (TokenResponse t) = add_cors_headers (json_reply 200 (JObj
     [(''access_token'', JStr t), (''token_type'', JStr ''Bearer''), (''expires_in'', JInt 86400)]))"
| "render env served InvalidGrant = add_cors_headers (json_reply 400 (JObj
     [(''error'', JStr ''invalid_grant''), (''error_description'', JStr ''Invalid credentials or authorization code'')]))"
| "render env served (EndpointEvent t) = event_stream_reply t"
| "render env served r = html_reply r"

section \<open>The router\<close>

datatype endpoint = McpEndpoint | Healthz | ProtectedResource | AuthorizationServer | LoginEndpoint | TokenEndpoint | SseEndpoint

definition endpoint_of :: "string \<Rightarrow> endpoint option" where
  "endpoint_of p =
     (if p = ''/mcp'' \<or> starts_with p ''/mcp/'' then Some McpEndpoint
      else if p = ''/healthz'' then Some Healthz
      else if p = ''/.well-known/oauth-protected-resource'' then Some ProtectedResource
      else if p \<in> {''/.well-known/oauth-authorization-server'', ''/.well-known/openid-configuration''} then Some AuthorizationServer
      else if p \<in> {''/oauth/authorize'', ''/login''} then Some LoginEndpoint
      else if p = ''/oauth/token'' then Some TokenEndpoint
      else if p = ''/sse'' then Some SseEndpoint
      else None)"

text \<open>\<open>get(...)\<close> also answers \<open>HEAD\<close>, without the body.\<close>

definition on_get :: "http_env \<Rightarrow> http_method \<Rightarrow> http_reply \<Rightarrow> http_reply" where
  "on_get env m r = (if m = GET then r else if m = HEAD then r\<lparr>body := NoBody\<rparr> else not_allowed env)"

text \<open>The event of \<open>Http_Auth\<close> a request is, if it reaches one of its handlers.\<close>

definition event_of :: "nat \<Rightarrow> nat \<Rightarrow> http_request \<Rightarrow> http_event option" where
  "event_of r1 r2 q =
     (case endpoint_of (rq_path q) of
        Some McpEndpoint \<Rightarrow> Some (McpRequest (rq_method q = OPTIONS) (rq_credentials q))
      | Some LoginEndpoint \<Rightarrow>
          if rq_method q \<in> {GET, HEAD} then map_option (\<lambda>a. LoginPage a (rq_credentials q)) (rq_query q)
          else if rq_method q = POST then map_option (Authorize r1 r2) (rq_form q)
          else None
      | Some TokenEndpoint \<Rightarrow>
          if rq_method q = POST
          then Some (TokenPost (token_request_of (rq_json q) (rq_text q)) (authorization (rq_credentials q))) else None
      | Some SseEndpoint \<Rightarrow> if rq_method q \<in> {GET, HEAD} then Some (SseGet (rq_credentials q)) else None
      | _ \<Rightarrow> None)"

definition make_router :: "http_env \<Rightarrow> instant \<Rightarrow> nat \<Rightarrow> nat \<Rightarrow> http_request \<Rightarrow> http_state \<Rightarrow> http_reply \<times> http_state" where
  "make_router env now r1 r2 q s =
     (case event_of r1 r2 q of
        Some e \<Rightarrow> (case http_step now e s of
            (Some r, s1) \<Rightarrow>
              (let w = render env (mcp_service env q) r in
               (if rq_method q = HEAD \<and> endpoint_of (rq_path q) \<noteq> Some McpEndpoint then w\<lparr>body := NoBody\<rparr> else w, s1))
          | (None, s1) \<Rightarrow> (not_found env, s1))
      | None \<Rightarrow> (case endpoint_of (rq_path q) of
            Some Healthz \<Rightarrow> on_get env (rq_method q)
              \<lparr>status = 200, headers = [(''content-type'', ''text/plain; charset=utf-8'')], body = PlainText ''ok''\<rparr>
          | Some ProtectedResource \<Rightarrow> on_get env (rq_method q) oauth_protected_resource
          | Some AuthorizationServer \<Rightarrow> on_get env (rq_method q) oauth_authorization_server
          | Some LoginEndpoint \<Rightarrow> if rq_method q \<in> {GET, HEAD, POST} then rejected env else not_allowed env
          | Some _ \<Rightarrow> not_allowed env
          | None \<Rightarrow> not_found env, s))"

section \<open>Properties\<close>

lemma add_cors_has_cors [simp]: "has_cors (add_cors_headers r)"
  by (simp add: has_cors_def add_cors_headers_def set_header_def)

lemma step_without_token:
  assumes "http_token s \<noteq> []" and "extract_token (rq_credentials q) \<noteq> Some (http_token s)" and "event_of r1 r2 q = Some e"
    and "http_step now e s = (Some r, s')"
  shows "r \<noteq> ServedByMcp" and "endpoint_of (rq_path q) = Some McpEndpoint \<Longrightarrow>
    r = (if rq_method q = OPTIONS then Preflight else Unauthorized) \<and> s' = s"
  using assms
  by (auto simp: event_of_def auth_middleware_def authed_def login_page_def authorize_submit_def token_endpoint_def
      legacy_sse_handler_def Let_def split: option.splits endpoint.splits if_splits list.splits prod.splits)

lemma render_ignores_service: "r \<noteq> ServedByMcp \<Longrightarrow> render (env\<lparr>mcp_service := f\<rparr>) x r = render env y r"
  by (cases r) (simp_all split: option.split)

text \<open>C36: the MCP service is out of reach without the token, on every path and with every method. The
  reply to a request that does not present the token does not depend on the service at all; below
  \<open>/mcp\<close> it is the 401 answer, or the preflight answer to \<open>OPTIONS\<close>, and nothing changes.\<close>

theorem mcp_out_of_reach_without_token:
  assumes "http_token s \<noteq> []" and "extract_token (rq_credentials q) \<noteq> Some (http_token s)"
  shows "make_router (env\<lparr>mcp_service := f\<rparr>) now r1 r2 q s = make_router env now r1 r2 q s \<and>
    (endpoint_of (rq_path q) = Some McpEndpoint \<longrightarrow>
      make_router env now r1 r2 q s = (if rq_method q = OPTIONS then cors_preflight_response else unauthorized_response, s))"
proof (cases "event_of r1 r2 q")
  case None
  then have "endpoint_of (rq_path q) \<noteq> Some McpEndpoint" by (auto simp: event_of_def)
  then show ?thesis by (simp add: make_router_def None on_get_def split: option.split endpoint.split)
next
  case (Some e)
  obtain ro s' where st: "http_step now e s = (ro, s')" by fastforce
  show ?thesis
  proof (cases ro)
    case None
    have "endpoint_of (rq_path q) \<noteq> Some McpEndpoint" using Some st None by (auto simp: event_of_def)
    then show ?thesis by (simp add: make_router_def Some st None)
  next
    case (Some r)
    note w = step_without_token [OF assms \<open>event_of r1 r2 q = Some e\<close> st [unfolded Some]]
    have "render (env\<lparr>mcp_service := f\<rparr>) x r = render env y r" for x y by (rule render_ignores_service [OF w(1)])
    then have "make_router (env\<lparr>mcp_service := f\<rparr>) now r1 r2 q s = make_router env now r1 r2 q s"
      unfolding make_router_def \<open>event_of r1 r2 q = Some e\<close> option.case st Some prod.case by metis
    moreover have "make_router env now r1 r2 q s =
        (if rq_method q = OPTIONS then cors_preflight_response else unauthorized_response, s)"
      if "endpoint_of (rq_path q) = Some McpEndpoint"
      using w(2) [OF that] that by (simp add: make_router_def \<open>event_of r1 r2 q = Some e\<close> st Some)
    ultimately show ?thesis by blast
  qed
qed

text \<open>A request without credentials, and a service that would answer it.\<close>

definition plain_request :: "http_method \<Rightarrow> string \<Rightarrow> http_request" where
  "plain_request m p = \<lparr>rq_method = m, rq_path = p,
     rq_credentials = \<lparr>authorization = None, query_string = None, cookie_header = None\<rparr>,
     rq_query = None, rq_form = None, rq_json = None, rq_text = []\<rparr>"

definition sample_http :: http_env where
  "sample_http = \<lparr>mcp_service = (\<lambda>_. \<lparr>status = 200, headers = [], body = PlainText ''tools''\<rparr>),
     not_found = \<lparr>status = 404, headers = [], body = NoBody\<rparr>, not_allowed = \<lparr>status = 405, headers = [], body = NoBody\<rparr>,
     rejected = \<lparr>status = 400, headers = [], body = NoBody\<rparr>, bad_location = (\<lambda>_. \<lparr>status = 500, headers = [], body = NoBody\<rparr>)\<rparr>"

lemma sample_paths:
  "endpoint_of ''/mcp/x'' = Some McpEndpoint" "endpoint_of ''/oauth/token'' = Some TokenEndpoint"
  by (simp_all add: endpoint_of_def starts_with_def)

theorem mcp_out_of_reach_without_token_witness:
  "status (fst (make_router sample_http 0 0 0 (plain_request POST ''/mcp/x'') (new_http_state ''secret''))) = 401"
proof -
  let ?s = "new_http_state ''secret''" and ?q = "plain_request POST ''/mcp/x''"
  have "http_token ?s \<noteq> []" by (simp add: new_http_state_def)
  moreover have "extract_token (rq_credentials ?q) \<noteq> Some (http_token ?s)" by (simp add: plain_request_def extract_token_def)
  moreover have "endpoint_of (rq_path ?q) = Some McpEndpoint" by (simp add: plain_request_def sample_paths)
  ultimately have "make_router sample_http 0 0 0 ?q ?s = (unauthorized_response, ?s)"
    using mcp_out_of_reach_without_token [of ?s ?q] by (simp add: plain_request_def)
  then show ?thesis by (simp add: unauthorized_response_def add_cors_headers_def)
qed

text \<open>Which replies let a page of another origin read them: all of the MCP endpoint, whatever the
  service set, and those of the token endpoint. But only the MCP endpoint answers the \<open>OPTIONS\<close>
  request a browser sends first; at \<open>/oauth/token\<close> it meets the router's own refusal.\<close>

theorem cors_answers:
  assumes "endpoint_of (rq_path q) = Some McpEndpoint" and "endpoint_of (rq_path q') = Some TokenEndpoint"
  shows "has_cors (fst (make_router env now r1 r2 q s)) \<and>
    (rq_method q' = POST \<longrightarrow> has_cors (fst (make_router env now r1 r2 q' s))) \<and>
    (rq_method q' = OPTIONS \<longrightarrow> make_router env now r1 r2 q' s = (not_allowed env, s))"
proof (intro conjI impI)
  show "has_cors (fst (make_router env now r1 r2 q s))"
    using assms(1) by (simp add: make_router_def event_of_def auth_middleware_def cors_preflight_response_def unauthorized_response_def)
next
  assume m: "rq_method q' = POST"
  obtain r s1 where t: "token_endpoint now (token_request_of (rq_json q') (rq_text q')) (authorization (rq_credentials q')) s = (r, s1)"
    by fastforce
  then have "r = InvalidGrant \<or> (\<exists>t. r = TokenResponse t)" by (auto simp: token_endpoint_def Let_def split: if_splits prod.splits)
  then show "has_cors (fst (make_router env now r1 r2 q' s))" using assms(2) m t
    by (auto simp: make_router_def event_of_def)
next
  assume "rq_method q' = OPTIONS"
  then show "make_router env now r1 r2 q' s = (not_allowed env, s)" using assms(2) by (simp add: make_router_def event_of_def)
qed

theorem cors_answers_witness:
  "make_router sample_http 0 0 0 (plain_request OPTIONS ''/oauth/token'') (new_http_state []) = (not_allowed sample_http, new_http_state [])"
proof -
  have e: "endpoint_of (rq_path (plain_request POST ''/mcp/x'')) = Some McpEndpoint"
    "endpoint_of (rq_path (plain_request OPTIONS ''/oauth/token'')) = Some TokenEndpoint"
    by (simp_all add: plain_request_def sample_paths)
  show ?thesis using cors_answers [OF e] by (simp add: plain_request_def)
qed

end
