(* ===== verification/Mounts.thy ===== *)
theory Mounts
  imports Mcp_Tools
begin

text \<open>
  The mount manager of the bridge (\<open>MountManager\<close> of \<open>crates/bridge/src/fuse_fs.rs\<close>) and the MCP
  tools on it. \<open>kernel\<close> is the set of points the operating system has mounted for this process;
  the environment decides whether a session's unmount and \<open>fusermount3 -u -z\<close> work, what
  spawning a session answers, and the hash of the cache directory's name.
\<close>

record mount_session =
  ms_remote_dir :: path
  ms_cache_dir :: path
  ms_read_only :: bool

record 'r mount_state =
  sessions :: "string \<rightharpoonup> mount_session"
  active_paths :: "string set"
  kernel :: "string set"
  mount_fs :: os
  mount_remote :: 'r

record 'r mount_env =
  mt_mcp :: "'r mcp_env"
  umount_works :: bool
  umount_error :: string
  fusermount_works :: bool
  spawn_error :: "string option"
  dir_hash :: "string \<Rightarrow> string \<Rightarrow> nat"
  cache_var :: "string option" \<comment> \<open>\<open>RELAYFS_CACHE_DIR\<close>\<close>
  home_var :: "string option"
  temp_dir :: path
  json_text :: "json \<Rightarrow> string"

definition new_mounts :: "os \<Rightarrow> 'r \<Rightarrow> 'r mount_state" where
  "new_mounts fs r = \<lparr>sessions = Map.empty, active_paths = {}, kernel = {}, mount_fs = fs, mount_remote = r\<rparr>"

definition get_cache_dir :: "'r mount_env \<Rightarrow> string \<Rightarrow> string \<Rightarrow> path" where
  "get_cache_dir env rd mp =
     (let base = (case cache_var env of
          Some v \<Rightarrow> path_of v
        | None \<Rightarrow> (case home_var env of
            Some h \<Rightarrow> path_join (path_of h) [Normal ''.cache'', Normal ''relayfs'', Normal ''mounts'']
          | None \<Rightarrow> path_join (temp_dir env) [Normal ''relayfs-mounts'']))
      in path_join base [Normal (hex_pad 16 (dir_hash env rd mp))])"

definition fusermount :: "'r mount_env \<Rightarrow> string \<Rightarrow> 'r mount_state \<Rightarrow> 'r mount_state" where
  "fusermount env mp s = (if fusermount_works env then s\<lparr>kernel := kernel s - {mp}\<rparr> else s)"

definition umount_and_join :: "'r mount_env \<Rightarrow> string \<Rightarrow> 'r mount_state \<Rightarrow> (string + unit) \<times> 'r mount_state" where
  "umount_and_join env mp s =
     (if umount_works env then (Inr (), s\<lparr>kernel := kernel s - {mp}\<rparr>) else (Inl (umount_error env), s))"

text \<open>An earlier session of the point is retired before anything is checked.\<close>

definition retire :: "'r mount_env \<Rightarrow> string \<Rightarrow> 'r mount_state \<Rightarrow> 'r mount_state" where
  "retire env mp s = fusermount env mp
     (case sessions s mp of None \<Rightarrow> s
      | Some _ \<Rightarrow> snd (umount_and_join env mp (s\<lparr>sessions := (sessions s)(mp := None)\<rparr>)))"

definition check_remote_dir :: "'r mount_env \<Rightarrow> string \<Rightarrow> 'r mount_state \<Rightarrow> (string + unit) \<times> 'r mount_state" where
  "check_remote_dir env rd s =
     (case call (me_call (mt_mcp env)) STAT [(''path'', JStr rd)] (mount_remote s) of
        (Inl m, r) \<Rightarrow> (Inl m, s\<lparr>mount_remote := r\<rparr>)
      | (Inr v, r) \<Rightarrow> (case of_stat_result v of
          None \<Rightarrow> (Inl (''bad stat result '' @ me_serde (mt_mcp env) @ '': '' @ json_text env v), s\<lparr>mount_remote := r\<rparr>)
        | Some st \<Rightarrow> (if st_kind st = Dir then Inr () else Inl (rd @ '' is not a directory''), s\<lparr>mount_remote := r\<rparr>)))"

definition mount :: "'r mount_env \<Rightarrow> string \<Rightarrow> string \<Rightarrow> bool \<Rightarrow> 'r mount_state \<Rightarrow> (string + unit) \<times> 'r mount_state" where
  "mount env rd mp ro s =
     (case check_remote_dir env rd (retire env mp s) of
        (Inl m, s1) \<Rightarrow> (Inl m, s1)
      | (Inr _, s1) \<Rightarrow>
          (case os_create_dir_all (path_of mp) (mount_fs s1) of
             (Inl e, fs) \<Rightarrow> (Inl (''create mount point '' @ mp @ '': '' @ io_text e), s1\<lparr>mount_fs := fs\<rparr>)
           | (Inr _, fs) \<Rightarrow>
               (let cdir = get_cache_dir env rd mp; s2 = s1\<lparr>mount_fs := snd (os_create_dir_all cdir fs)\<rparr> in
                case spawn_error env of
                  Some e \<Rightarrow> (Inl (''mount failed: '' @ e), s2)
                | None \<Rightarrow> (Inr (), s2\<lparr>kernel := insert mp (kernel s2),
                    sessions := (sessions s2)(mp \<mapsto> \<lparr>ms_remote_dir = path_of rd, ms_cache_dir = cdir, ms_read_only = ro\<rparr>),
                    active_paths := insert mp (active_paths s2)\<rparr>))))"

definition unmount :: "'r mount_env \<Rightarrow> string \<Rightarrow> 'r mount_state \<Rightarrow> (string + unit) \<times> 'r mount_state" where
  "unmount env mp s = (case sessions s mp of
     None \<Rightarrow> (Inl (''no mount at '' @ mp), s)
   | Some _ \<Rightarrow>
       (case umount_and_join env mp (s\<lparr>sessions := (sessions s)(mp := None), active_paths := active_paths s - {mp}\<rparr>) of
          (Inl e, s1) \<Rightarrow> (Inl (''unmount failed: '' @ e), s1)
        | (Inr _, s1) \<Rightarrow> (Inr (), fusermount env mp s1)))"

definition list_mounts :: "'r mount_state \<Rightarrow> string set" where
  "list_mounts s = dom (sessions s)"

definition drop_mounts :: "'r mount_env \<Rightarrow> 'r mount_state \<Rightarrow> 'r mount_state" where
  "drop_mounts env s = (if fusermount_works env then s\<lparr>kernel := kernel s - active_paths s\<rparr> else s)"

section \<open>Tools\<close>

definition tool_result :: "string \<Rightarrow> (string + unit) \<times> 'r mount_state \<Rightarrow> (string + content) \<times> 'r mount_state" where
  "tool_result msg r = (case r of (Inl m, s) \<Rightarrow> (Inl m, s) | (Inr _, s) \<Rightarrow> (Inr (Text msg), s))"

definition mcp_mount_remote ::
  "'r mount_env \<Rightarrow> string \<Rightarrow> string \<Rightarrow> bool option \<Rightarrow> 'r mount_state \<Rightarrow> (string + content) \<times> 'r mount_state" where
  "mcp_mount_remote env rd mp ro s =
     tool_result (''mounted '' @ rd @ '' at '' @ mp) (mount env rd mp (ro = Some True) s)"

definition mcp_unmount_remote :: "'r mount_env \<Rightarrow> string \<Rightarrow> 'r mount_state \<Rightarrow> (string + content) \<times> 'r mount_state" where
  "mcp_unmount_remote env mp s = tool_result ''unmounted'' (unmount env mp s)"

text \<open>The keys come in the table's own order.\<close>

definition mcp_list_mounts :: "(string set \<Rightarrow> string list) \<Rightarrow> 'r mount_state \<Rightarrow> content" where
  "mcp_list_mounts order s =
     (if list_mounts s = {} then Text ''no mounts'' else Text (join_lines (order (list_mounts s))))"

section \<open>What stays mounted\<close>

datatype mount_op = MountOp string string bool | UnmountOp string

fun mount_step :: "'r mount_env \<times> mount_op \<Rightarrow> 'r mount_state \<Rightarrow> (string + unit) \<times> 'r mount_state" where
  "mount_step (env, MountOp rd mp ro) s = mount env rd mp ro s"
| "mount_step (env, UnmountOp mp) s = unmount env mp s"

definition mount_run :: "('r mount_env \<times> mount_op) list \<Rightarrow> 'r mount_state \<Rightarrow> 'r mount_state" where
  "mount_run ops s = fold (\<lambda>x s. snd (mount_step x s)) ops s"

text \<open>The points whose unmount was asked for and failed.\<close>

definition failed_unmounts :: "('r mount_env \<times> mount_op) list \<Rightarrow> string set" where
  "failed_unmounts ops = {mp. \<exists>env. (env, UnmountOp mp) \<in> set ops \<and> \<not> umount_works env}"

lemma retire_simps [simp]:
  "sessions (retire env mp s) = (sessions s)(mp := None)" "active_paths (retire env mp s) = active_paths s"
  by (auto simp: retire_def fusermount_def umount_and_join_def split: option.split)

lemma kernel_retire: "kernel (retire env mp s) \<subseteq> kernel s"
  by (auto simp: retire_def fusermount_def umount_and_join_def split: option.split)

lemma check_remote_dir_simps:
  assumes "check_remote_dir env rd s = (r, s')"
  shows "sessions s' = sessions s" and "active_paths s' = active_paths s" and "kernel s' = kernel s"
  using assms by (auto simp: check_remote_dir_def split: prod.splits sum.splits option.splits)

lemma mount_effect:
  assumes "mount env rd mp ro s = (r, s')"
  shows "case r of
      Inl m \<Rightarrow> sessions s' = (sessions s)(mp := None) \<and> active_paths s' = active_paths s \<and> kernel s' \<subseteq> kernel s
    | Inr _ \<Rightarrow> (\<exists>x. sessions s' = (sessions s)(mp \<mapsto> x) \<and> ms_read_only x = ro) \<and>
        active_paths s' = insert mp (active_paths s) \<and> kernel s' \<subseteq> insert mp (kernel s) \<and> mp \<in> kernel s'"
proof -
  obtain y s1 where c: "check_remote_dir env rd (retire env mp s) = (y, s1)" by fastforce
  note s1 = check_remote_dir_simps [OF c]
  have k: "kernel s1 \<subseteq> kernel s" using kernel_retire [of env mp s] by (simp add: s1)
  show ?thesis using assms c s1 k
    by (auto simp: mount_def Let_def split: sum.splits option.splits prod.splits)
qed

lemma unmount_effect:
  assumes "unmount env mp s = (r, s')"
  shows "sessions s' = (sessions s)(mp := None) \<and>
    active_paths s' = (if sessions s mp = None then active_paths s else active_paths s - {mp}) \<and>
    kernel s' \<subseteq> kernel s \<and> (umount_works env \<and> sessions s mp \<noteq> None \<longrightarrow> mp \<notin> kernel s')"
  using assms by (auto simp: unmount_def umount_and_join_def fusermount_def split: option.splits if_splits)

definition mounts_inv :: "string set \<Rightarrow> 'r mount_state \<Rightarrow> bool" where
  "mounts_inv failed s \<longleftrightarrow> dom (sessions s) \<subseteq> active_paths s \<and> kernel s \<subseteq> active_paths s \<union> failed"

lemma mounts_inv_step:
  assumes "mounts_inv failed s" and "mount_step (env, op) s = (r, s')"
  shows "mounts_inv (failed \<union> failed_unmounts [(env, op)]) s'"
proof (cases op)
  case (MountOp rd mp ro)
  then show ?thesis using assms mount_effect [of env rd mp ro s r s']
    by (cases r) (auto simp: mounts_inv_def dom_def subset_iff split: if_splits)
next
  case (UnmountOp mp)
  then have u: "unmount env mp s = (r, s')" using assms(2) by simp
  have f: "\<not> umount_works env \<Longrightarrow> mp \<in> failed_unmounts [(env, op)]" by (auto simp: failed_unmounts_def UnmountOp)
  show ?thesis using assms(1) unmount_effect [OF u] f
    by (cases "umount_works env"; cases "sessions s mp") (auto simp: mounts_inv_def split: if_splits)
qed

lemma mounts_inv_run: "mounts_inv (failed_unmounts ops) (mount_run ops (new_mounts fs r))"
proof (induction ops rule: rev_induct)
  case Nil
  then show ?case by (simp add: mounts_inv_def mount_run_def new_mounts_def)
next
  case (snoc x ops)
  obtain env op where x: "x = (env, op)" by (cases x)
  have "failed_unmounts (ops @ [x]) = failed_unmounts ops \<union> failed_unmounts [(env, op)]"
    by (auto simp: failed_unmounts_def x)
  then show ?case
    using mounts_inv_step [OF snoc, of env op] by (cases "mount_step (env, op) (mount_run ops (new_mounts fs r))")
      (simp add: mount_run_def x)
qed


definition sample_dir :: stat_result where
  "sample_dir = \<lparr>st_kind = Dir, st_size = 0, st_modified = 0, st_mode = 493, st_uid = 0, st_gid = 0, st_link_target = None\<rparr>"

definition root_meta :: metadata where
  "root_meta = \<lparr>m_mode = 493, m_uid = 0, m_gid = 0, m_mtime = 5\<rparr>"

definition sample_disk :: os where
  "sample_disk = \<lparr>nodes = [([RootDir], NDir root_meta), ([RootDir, Normal ''m''], NDir root_meta)],
     denied = {}, cwd = [RootDir], now_secs = 9, umask = 18, own_uid = 0, own_gid = 0\<rparr>"

definition sample_mounts :: "unit mount_env" where
  "sample_mounts = \<lparr>mt_mcp = \<lparr>me_call = (\<lambda>_ _ r. (Inr (stat_result_json sample_dir), r)),
      me_call_timeout = (\<lambda>_ _ _ r. (Inr (stat_result_json sample_dir), r)), me_enc = (\<lambda>_. []), me_dec = (\<lambda>_. Some []),
      me_serde = [], me_base64 = []\<rparr>,
     umount_works = False, umount_error = ''busy'', fusermount_works = True, spawn_error = None,
     dir_hash = (\<lambda>_ _. 0), cache_var = None, home_var = None, temp_dir = [RootDir], json_text = (\<lambda>_. [])\<rparr>"

lemma mount_sample: "fst (mount sample_mounts ''/d'' ''/m'' False (new_mounts sample_disk ())) = Inr ()"
proof -
  have p: "path_of ''/m'' = [RootDir, Normal ''m'']"
    by (simp add: path_of_def starts_with_def comps_of_def)
  have "fst (os_create_dir_all [RootDir, Normal ''m''] sample_disk) = Inr ()"
    by (subst os_create_dir_all.simps) (simp add: os_create_dir_def sample_disk_def os_path_def MAX_LINKS_def is_dir_def os_node_def node_at_def)
  then show ?thesis
    by (auto simp: mount_def check_remote_dir_def call_def sample_mounts_def stat_result_roundtrip retire_def
        fusermount_def new_mounts_def sample_dir_def p Let_def split: prod.splits)
qed


end
