(* ===== verification/Cli.thy ===== *)
theory Cli
  imports Http_Auth Relay
begin

text \<open>
  The binary's entry (\<open>crates/relayfs/src/main.rs\<close>): \<open>--mode\<close> is taken out of the arguments by
  hand, the rest goes to the mode's own parser, and the parsed arguments decide which services
  start with which token. The clap parsers are parameters: \<open>None\<close> stands for a parser that
  printed its message and ended the process. A service is the call that starts it; sockets, the
  logger and the 150 ms delay are left out.
\<close>

section \<open>The mode\<close>

datatype mode = Server | TargetMode | Mcp | Http

definition mode_of :: "string \<Rightarrow> mode option" where
  "mode_of v = (if v = ''server'' then Some Server else if v = ''target'' then Some TargetMode
     else if v = ''mcp'' then Some Mcp else if v = ''http'' then Some Http else None)"

text \<open>The loop over the arguments after the program's name, with the mode and the rest so far.\<close>

function scan_args :: "mode option \<Rightarrow> string list \<Rightarrow> string list \<Rightarrow> mode option \<times> string list" where
  "scan_args m rest [] = (m, rest)"
| "scan_args m rest (a # xs) =
     (if a = ''--mode'' \<and> xs \<noteq> [] then scan_args (mode_of (hd xs)) rest (tl xs)
      else case (if a = ''--mode'' then None else strip_prefix_str ''--mode='' a) of
          Some v \<Rightarrow> scan_args (mode_of v) rest xs
        | None \<Rightarrow> scan_args m (rest @ [a]) xs)"
  by pat_completeness auto
termination by (relation "measure (\<lambda>(m, rest, xs). length xs)") auto

text \<open>An empty argument vector panics at \<open>argv[0]\<close>.\<close>

definition split_argv :: "string list \<Rightarrow> (mode option \<times> string list) option" where
  "split_argv argv = (case argv of [] \<Rightarrow> None | a0 # xs \<Rightarrow> Some (scan_args None [a0] xs))"

section \<open>What is started\<close>

record server_args =
  sa_listen :: string
  sa_token :: "string option"
  sa_http_listen :: "string option"

record target_args =
  ta_base_url :: string
  ta_token :: string
  ta_id :: string
  ta_name :: string
  ta_reconnect_secs :: "64 word"

record mcp_args =
  ma_base_url :: string
  ma_token :: string
  ma_id :: string
  ma_name :: string
  ma_listen :: "string option"

record http_args =
  ha_listen :: string
  ha_base_url :: string
  ha_token :: string
  ha_id :: string
  ha_name :: string

text \<open>The services: the relay, the agent, the bridge over stdio or HTTP (address, relay, token, id,
  name), and the merged server (address, the relay's and the HTTP side's token).\<close>

datatype service =
    RelayRun string "string option"
  | AgentRun string string string string "64 word"
  | BridgeRun string string string string
  | BridgeHttp string string string string string
  | UnifiedServer string "string option" string

datatype launch = Services "service list" | SkillDocument | Usage

text \<open>\<open>str::rsplit_once\<close>: what follows the last colon.\<close>

definition after_last :: "char \<Rightarrow> string \<Rightarrow> string option" where
  "after_last c s = (if c \<in> set s then Some (rev (takeWhile (\<lambda>x. x \<noteq> c) (rev s))) else None)"

definition unified_token :: "string option \<Rightarrow> string" where
  "unified_token tok = (case tok of None \<Rightarrow> ''default'' | Some t \<Rightarrow> if t = [] then ''default'' else t)"

definition run_unified_server :: "string \<Rightarrow> string option \<Rightarrow> service" where
  "run_unified_server listen tok = UnifiedServer listen tok (unified_token tok)"

definition run_server :: "server_args \<Rightarrow> service list" where
  "run_server a = (case sa_http_listen a of
       Some addr \<Rightarrow>
         if addr \<noteq> sa_listen a then
           (let port = (case after_last (CHR '':'') (sa_listen a) of Some p \<Rightarrow> p | None \<Rightarrow> ''8787'') in
            [RelayRun (sa_listen a) (sa_token a),
             BridgeHttp addr (''ws://127.0.0.1:'' @ port) (case sa_token a of Some t \<Rightarrow> t | None \<Rightarrow> [])
               ''server-http-mcp'' ''server-http''])
         else [run_unified_server (sa_listen a) (sa_token a)]
     | None \<Rightarrow> [run_unified_server (sa_listen a) (sa_token a)])"

record cli_parsers =
  parse_server :: "string list \<Rightarrow> server_args option"
  parse_target :: "string list \<Rightarrow> target_args option"
  parse_mcp :: "string list \<Rightarrow> mcp_args option"
  parse_http :: "string list \<Rightarrow> http_args option"
  parse_cli :: "string list \<Rightarrow> bool option" \<comment> \<open>whether the subcommand \<open>skill\<close> is given\<close>

definition main_launch :: "cli_parsers \<Rightarrow> string list \<Rightarrow> launch option" where
  "main_launch p argv = (case split_argv argv of
     None \<Rightarrow> None
   | Some (Some Server, rest) \<Rightarrow> map_option (\<lambda>a. Services (run_server a)) (parse_server p rest)
   | Some (Some TargetMode, rest) \<Rightarrow> map_option (\<lambda>a. Services
       [AgentRun (ta_base_url a) (ta_token a) (ta_id a) (ta_name a) (ta_reconnect_secs a)]) (parse_target p rest)
   | Some (Some Mcp, rest) \<Rightarrow> map_option (\<lambda>a. Services [case ma_listen a of
         Some l \<Rightarrow> BridgeHttp l (ma_base_url a) (ma_token a) (ma_id a) (ma_name a)
       | None \<Rightarrow> BridgeRun (ma_base_url a) (ma_token a) (ma_id a) (ma_name a)]) (parse_mcp p rest)
   | Some (Some Http, rest) \<Rightarrow> map_option (\<lambda>a. Services
       [BridgeHttp (ha_listen a) (ha_base_url a) (ha_token a) (ha_id a) (ha_name a)]) (parse_http p rest)
   | Some (None, _) \<Rightarrow> map_option (\<lambda>k. if k then SkillDocument else Usage) (parse_cli p argv))"

text \<open>The state in front of a service's HTTP endpoints with the token its bridge presents to the
  relay, and the state of the relay a service runs.\<close>

fun http_side :: "service \<Rightarrow> (http_state \<times> string) option" where
  "http_side (BridgeHttp addr url tok i n) = Some (new_http_state tok, tok)"
| "http_side (UnifiedServer addr required tok) = Some (new_http_state tok, tok)"
| "http_side _ = None"

fun relay_side :: "service \<Rightarrow> app_state option" where
  "relay_side (RelayRun addr required) = Some (new_app required)"
| "relay_side (UnifiedServer addr required tok) = Some (new_app required)"
| "relay_side _ = None"

section \<open>Properties\<close>

definition mode_free :: "string list \<Rightarrow> bool" where
  "mode_free xs \<longleftrightarrow> list_all (\<lambda>a. a \<noteq> ''--mode'' \<and> strip_prefix_str ''--mode='' a = None) xs"

lemma mode_free_simps [simp]:
  "mode_free []" "mode_free (a # xs) \<longleftrightarrow> a \<noteq> ''--mode'' \<and> strip_prefix_str ''--mode='' a = None \<and> mode_free xs"
  by (auto simp: mode_free_def)

lemma scan_free: "mode_free xs \<Longrightarrow> scan_args m rest (xs @ ys) = scan_args m (rest @ xs) ys"
  by (induction xs arbitrary: rest) simp_all

lemma scan_mode: "scan_args m rest (''--mode'' # v # ys) = scan_args (mode_of v) rest ys"
  by simp

lemma scan_mode_eq: "scan_args m rest ((''--mode='' @ v) # ys) = scan_args (mode_of v) rest ys"
  by (simp add: strip_prefix_str_def starts_with_def)

declare scan_args.simps(2) [simp del]

text \<open>Both spellings of the mode option select the mode wherever they stand, and the mode's own
  parser gets the other arguments in their order, the program's name first. The last one
  decides: a later option with an unknown value unsets the mode.\<close>

theorem mode_option_is_extracted:
  assumes "mode_free xs" and "mode_free ys" and "mode_free zs" and "o1 = [''--mode'', v] \<or> o1 = [''--mode='' @ v]"
    and "o2 = [''--mode'', w] \<or> o2 = [''--mode='' @ w]"
  shows "split_argv (a0 # xs @ o1 @ ys) = Some (mode_of v, a0 # xs @ ys) \<and>
    split_argv (a0 # xs @ o1 @ ys @ o2 @ zs) = Some (mode_of w, a0 # xs @ ys @ zs)"
proof -
  have o: "scan_args m rest (o1 @ us) = scan_args (mode_of v) rest us"
    "scan_args m rest (o2 @ us) = scan_args (mode_of w) rest us" for m rest us
    using assms(4,5) scan_mode scan_mode_eq by auto
  have "scan_args m rest us = (m, rest @ us)" if "mode_free us" for m rest us
    using scan_free [OF that, of m rest "[]"] by simp
  then show ?thesis by (simp add: split_argv_def scan_free assms(1-3) o)
qed

theorem mode_option_is_extracted_witness:
  "split_argv [''relayfs'', ''--mode'', ''mcp'', ''--id'', ''b''] = Some (Some Mcp, [''relayfs'', ''--id'', ''b'']) \<and>
   split_argv [''relayfs'', ''--mode'', ''mcp'', ''--id'', ''b'', ''--mode=x''] = Some (None, [''relayfs'', ''--id'', ''b''])"
  using mode_option_is_extracted [of "[]" "[''--id'', ''b'']" "[]" "[''--mode'', ''mcp'']" "''mcp''" "[''--mode=x'']" "''x''" "''relayfs''"]
  by (simp add: strip_prefix_str_def starts_with_def mode_of_def)

definition no_credentials :: credentials where
  "no_credentials = \<lparr>authorization = None, query_string = None, cookie_header = None\<rparr>"

definition open_http :: "http_state \<Rightarrow> bool" where
  "open_http h \<longleftrightarrow> auth_middleware h False no_credentials = ServedByMcp"

definition admits :: "app_state \<Rightarrow> string \<Rightarrow> bool" where
  "admits r t \<longleftrightarrow> (\<forall>h. hello_token h = Some t \<longrightarrow> accept_hello (required_token r) (hello_json h) = Some (h, t))"

definition separate_http :: "server_args \<Rightarrow> bool" where
  "separate_http a \<longleftrightarrow> sa_http_listen a \<noteq> None \<and> sa_http_listen a \<noteq> Some (sa_listen a)"

lemma open_http_iff: "open_http (new_http_state t) \<longleftrightarrow> t = []"
  by (simp add: open_http_def auth_middleware_def authed_def new_http_state_def extract_token_def no_credentials_def)

lemma accept_own_hello:
  "hello_token h = Some t \<Longrightarrow>
     accept_hello required (hello_json h) = Some (h, t) \<longleftrightarrow> t \<noteq> [] \<and> (required = None \<or> required = Some t)"
  by (auto simp: accept_hello_def hello_roundtrip split: option.splits)

lemma admits_iff: "admits (new_app required) t \<longleftrightarrow> t \<noteq> [] \<and> (required = None \<or> required = Some t)"
proof -
  have "\<exists>h :: hello. hello_token h = Some t"
    by (rule exI [of _ "\<lparr>hello_kind = Bridge, hello_id = [], hello_name = [], hello_token = Some t\<rparr>"]) simp
  then show ?thesis by (auto simp: admits_def accept_own_hello new_app_def)
qed

lemma run_server_sides:
  assumes "svc \<in> set (run_server a)" and "http_side svc = Some (h, t)"
    and "relay \<in> set (run_server a)" and "relay_side relay = Some r"
  shows "h = new_http_state t" and "r = new_app (sa_token a)"
    and "t = (if separate_http a then (case sa_token a of Some t \<Rightarrow> t | None \<Rightarrow> []) else unified_token (sa_token a))"
  using assms by (auto simp: run_server_def run_unified_server_def separate_http_def Let_def
      split: option.splits if_splits)

text \<open>What \<open>--mode server\<close> protects. Its HTTP endpoint serves MCP requests without credentials
  exactly when it has an address of its own and no token, or an empty one, was configured; the
  relay then refuses the endpoint's own bridge, so no such request reaches a target. The
  bridge of a merged server is refused only under the empty token.\<close>

theorem server_mode_protection:
  assumes "svc \<in> set (run_server a)" and "http_side svc = Some (h, t)"
    and "relay \<in> set (run_server a)" and "relay_side relay = Some r"
  shows "(open_http h \<longleftrightarrow> separate_http a \<and> sa_token a \<in> {None, Some []}) \<and>
    (admits r t \<longleftrightarrow> sa_token a \<noteq> Some [] \<and> \<not> (separate_http a \<and> sa_token a = None))"
  unfolding run_server_sides(1,2) [OF assms] open_http_iff admits_iff run_server_sides(3) [OF assms]
  by (auto simp: unified_token_def split: option.splits)

theorem server_mode_protection_witness:
  "open_http (new_http_state []) \<and> \<not> admits (new_app None) []"
  using server_mode_protection [of "BridgeHttp ''b:2'' ''ws://127.0.0.1:1'' [] ''server-http-mcp'' ''server-http''"
      "\<lparr>sa_listen = ''a:1'', sa_token = None, sa_http_listen = Some ''b:2''\<rparr>" "new_http_state []" "[]"
      "RelayRun ''a:1'' None" "new_app None"]
  by (simp add: run_server_def after_last_def separate_http_def)

end
