(* ===== verification/Reply_Types.thy ===== *)
theory Reply_Types
  imports Agent_Conn Client
begin

text \<open>
  The two ends of the protocol agree on types: what the agent and the relay answer to a method
  is read by the bridge as the result type it decodes for that method.
\<close>

definition void_method :: "rpc_method \<Rightarrow> bool" where
  "void_method m \<longleftrightarrow> m \<in> {MKDIR, REMOVE, RENAME, TRUNCATE, SYMLINK, CHMOD, COPY, STREAM_FILE}"

text \<open>The type the bridge decodes the result of a method with.\<close>

definition result_typed :: "rpc_method \<Rightarrow> json \<Rightarrow> bool" where
  "result_typed m v =
     (if m = RUN_COMMAND then of_run_command_result v \<noteq> None
      else if m = GET_COMMAND_RESULT then of_get_command_result v \<noteq> None
      else if m = READ_FILE then of_read_file_result v \<noteq> None
      else if m \<in> {WRITE_FILE, WRITE_AT} then of_write_file_result v \<noteq> None
      else if m = LIST_DIR then of_list_dir_result v \<noteq> None
      else if m = STAT then of_stat_result v \<noteq> None
      else if m = PING then of_ping_result v \<noteq> None
      else if m = LIST_TARGETS then of_list_targets_result v \<noteq> None
      else void_method m \<longrightarrow> v = JNull)"

section \<open>The handlers\<close>

lemma answer_typed: "answer err r = (Inr v, s) \<Longrightarrow> v = JNull"
  by (auto simp: answer_def split: prod.splits sum.splits)

lemma read_typed: "agent_read_file enc ps fs = (Inr v, fs') \<Longrightarrow> of_read_file_result v \<noteq> None"
  by (auto simp: agent_read_file_def Let_def read_file_result_roundtrip split: option.splits sum.splits if_splits)

lemma write_typed: "agent_write_file dec ps fs = (Inr v, fs') \<Longrightarrow> of_write_file_result v \<noteq> None"
  by (auto simp: agent_write_file_def Let_def write_file_result_roundtrip split: option.splits sum.splits prod.splits)

lemma decoded_length: "decode_data dec d = Inr b \<Longrightarrow> length b < 2 ^ 64"
  by (auto simp: decode_data_def MAX_DIRECT_FILE_BYTES_def split: option.splits if_splits)

lemma bytes_written_typed:
  assumes "n < 2 ^ 64" shows "of_write_file_result (JObj [(''bytes_written'', JInt (int n))]) \<noteq> None"
proof -
  have "JObj [(''bytes_written'', JInt (int n))] = write_file_result_json \<lparr>wfr_bytes_written = u64 n\<rparr>"
    using assms by (simp add: write_file_result_json_def unsigned_json_def u64_def obj_fields.simps unsigned_of_nat take_bit_nat_eq_self)
  then show ?thesis by (simp add: write_file_result_roundtrip)
qed

lemma write_at_typed: "agent_write_at dec ps fs = (Inr v, fs') \<Longrightarrow> of_write_file_result v \<noteq> None"
  using bytes_written_typed decoded_length
  by (fastforce simp: agent_write_at_def split: option.splits sum.splits if_splits)

lemma list_typed: "agent_list_dir ps fs = (Inr v, fs') \<Longrightarrow> of_list_dir_result v \<noteq> None"
  by (auto simp: agent_list_dir_def list_dir_result_roundtrip split: option.splits sum.splits)

lemma stat_typed: "agent_stat ps fs = (Inr v, fs') \<Longrightarrow> of_stat_result v \<noteq> None"
  by (auto simp: agent_stat_def stat_result_roundtrip split: option.splits sum.splits)

lemma void_typed:
  "agent_mkdir ps fs = (Inr v, fs') \<Longrightarrow> v = JNull"
  "agent_remove ps fs = (Inr v, fs') \<Longrightarrow> v = JNull"
  "agent_rename ps fs = (Inr v, fs') \<Longrightarrow> v = JNull"
  "agent_symlink ps fs = (Inr v, fs') \<Longrightarrow> v = JNull"
  "agent_chmod ps fs = (Inr v, fs') \<Longrightarrow> v = JNull"
  "agent_truncate ps fs = (Inr v, fs') \<Longrightarrow> v = JNull"
  "agent_copy fuel ps fs = Some (Inr v, fs') \<Longrightarrow> v = JNull"
  "agent_stream_file enc i ps fs = (ns, Inr v) \<Longrightarrow> v = JNull"
  by (auto simp: agent_mkdir_def agent_remove_def agent_rename_def agent_symlink_def agent_chmod_def
      agent_truncate_def agent_copy_def agent_stream_file_def Let_def dest: answer_typed
      split: option.splits sum.splits prod.splits node.splits if_splits)

lemma fetch_typed: "fetch_command_result ps st = Inr v \<Longrightarrow> of_get_command_result v \<noteq> None"
  by (auto simp: fetch_command_result_def get_command_result_roundtrip split: option.splits)

lemma start_typed: "start_command tid pid i p st = (st', Some v) \<Longrightarrow> of_run_command_result v \<noteq> None"
  by (auto simp: start_command_def Let_def run_command_result_roundtrip split: if_splits)

section \<open>Dispatch and decoding\<close>

definition failed_code :: "64 word" where "failed_code = word_of_int (code_value INTERNAL_ERROR)"

definition unknown_code :: "64 word" where "unknown_code = word_of_int (code_value METHOD_NOT_FOUND)"

lemmas handler_types = read_typed write_typed write_at_typed list_typed stat_typed void_typed fetch_typed start_typed

lemma file_method_typed:
  assumes "file_method env (method_name m) = Some h" and "h ps fs = (Inr v, fs')"
  shows "result_typed m v"
  using assms
  by (cases m; simp add: file_method_def method_name_inj result_typed_def void_method_def del: method_name.simps)
    (auto dest: handler_types)

lemma response_in_stream:
  "agent_stream_file enc i ps fs = (ns, r) \<Longrightarrow> w \<in> set ns \<Longrightarrow> \<not> is_response w"
  using stream_notifications [of enc i ps fs ns r] by (auto simp: filter_empty_conv)

lemma dispatch_method_typed:
  assumes "dispatch_method env i (method_name m) ps fs st = (out, ongoing, fs', st')"
    and "w \<in> set out" and "is_response w"
  shows "(\<exists>r. w = reply env i r \<and> (\<forall>v. r = Inr v \<longrightarrow> result_typed m v)) \<or>
    (\<exists>t. w = response_value i None (Some (rpc_error_new METHOD_NOT_FOUND t)))"
proof -
  consider "m = RUN_COMMAND" | "m = GET_COMMAND_RESULT" | "m = COPY" | "m = STREAM_FILE" | "m = PING"
    | (other) "m \<notin> {RUN_COMMAND, GET_COMMAND_RESULT, COPY, STREAM_FILE, PING}" by blast
  then show ?thesis
  proof cases
    case 4
    obtain ns r where sf: "agent_stream_file (env_enc env) i ps fs = (ns, r)" by fastforce
    then have "w = reply env i r"
      using 4 assms response_in_stream [OF sf]
      by (auto simp: dispatch_method_def method_name_inj simp del: method_name.simps)
    moreover have "\<forall>v. r = Inr v \<longrightarrow> result_typed m v"
      using sf 4 by (auto simp: result_typed_def void_method_def dest: void_typed(8))
    ultimately show ?thesis by blast
  next
    case other
    then have d: "(case file_method env (method_name m) of
        Some h \<Rightarrow> (case h ps fs of (r, fs') \<Rightarrow> ([reply env i r], False, fs', st))
      | None \<Rightarrow> ([response_value i None (Some (rpc_error_new METHOD_NOT_FOUND (''unknown method: '' @ method_name m)))],
          False, fs, st)) = (out, ongoing, fs', st')"
      using assms(1) by (simp add: dispatch_method_def method_name_inj del: method_name.simps)
    show ?thesis
    proof (cases "file_method env (method_name m)")
      case None
      then show ?thesis using d assms(2) by auto
    next
      case (Some h)
      obtain r f where h: "h ps fs = (r, f)" by fastforce
      then have "w = reply env i r" using d Some assms(2) by auto
      moreover have "\<forall>v. r = Inr v \<longrightarrow> result_typed m v" using file_method_typed [OF Some] h by blast
      ultimately show ?thesis by blast
    qed
  qed (use assms in \<open>auto simp: dispatch_method_def method_name_inj result_typed_def void_method_def
        ping_result_roundtrip simp del: method_name.simps dest: handler_types response_in_stream
        split: sum.splits option.splits prod.splits\<close>)
qed

lemma reply_read:
  "response_result (reply env i (Inr v)) = Inr v"
  "response_result (reply env i (Inl e)) = Inl (rpc_error_new INTERNAL_ERROR (error_text env e))"
  by (simp_all add: response_result_def reply_def rpc_error_readback rpc_error_new_def null_absent_def)

lemma error_read: "response_result (response_value i None (Some (rpc_error_new c t))) = Inl (rpc_error_new c t)"
  by (simp add: response_result_def rpc_error_readback rpc_error_new_def null_absent_def)

text \<open>C38: the two ends agree on types. Whatever the agent dispatches for a method, a response of it is
  read by the bridge's client as an error with code \<open>INTERNAL_ERROR\<close> or \<open>METHOD_NOT_FOUND\<close> or as a
  result that the type the bridge decodes for the method accepts; so is the first response of a
  waited command, and the relay's list of targets.\<close>

theorem replies_are_well_typed:
  assumes "dispatch env (request_value i (method_name m) ps) fs st = (out, ongoing, fs', st')"
    and "w \<in> set out" and "is_response w" and "i < 2 ^ 64"
  shows "(case response_result w of
      Inl e \<Rightarrow> err_code e \<in> {failed_code, unknown_code}
    | Inr v \<Rightarrow> result_typed m v) \<and>
    (\<forall>tid t code timed_out s. \<not> t_background t \<longrightarrow>
      (case response_result (hd (filter is_response (snd (finish_command tid t code timed_out s)))) of
        Inl e \<Rightarrow> False | Inr v \<Rightarrow> result_typed RUN_COMMAND v)) \<and>
    result_typed LIST_TARGETS (list_targets keys hub)"
proof -
  have "dispatch_method env i (method_name m) ps fs st = (out, ongoing, fs', st')"
    using assms(1,4) by (simp add: dispatch_def del: method_name.simps)
  from dispatch_method_typed [OF this assms(2,3)]
  have "case response_result w of Inl e \<Rightarrow> err_code e \<in> {failed_code, unknown_code} | Inr v \<Rightarrow> result_typed m v"
  proof (elim disjE exE conjE)
    fix r assume "w = reply env i r" and "\<forall>v. r = Inr v \<longrightarrow> result_typed m v"
    then show ?thesis by (cases r) (simp_all add: reply_read rpc_error_new_def failed_code_def)
  next
    fix t assume "w = response_value i None (Some (rpc_error_new METHOD_NOT_FOUND t))"
    then have "response_result w = Inl (rpc_error_new METHOD_NOT_FOUND t)" by (simp only: error_read)
    then show ?thesis by (simp add: rpc_error_new_def unknown_code_def)
  qed
  then show ?thesis
    by (simp add: finish_command_def Let_def response_result_def result_typed_def run_command_result_roundtrip
        list_targets_def list_targets_result_roundtrip)
qed

theorem replies_are_well_typed_witness:
  "\<exists>w. w \<in> set (fst (dispatch sample_env (request_value 1 (method_name PING) JNull) sample_os new_agent_state)) \<and>
     (case response_result w of Inl e \<Rightarrow> err_code e \<in> {failed_code, unknown_code} | Inr v \<Rightarrow> result_typed PING v)"
proof -
  let ?d = "dispatch sample_env (request_value 1 (method_name PING) JNull) sample_os new_agent_state"
  obtain out b fs' st' where d: "?d = (out, b, fs', st')" by (metis prod.collapse)
  then have "\<exists>r. out = [reply sample_env 1 r]"
    by (auto simp: dispatch_def dispatch_method_def as_u64_JInt [of 1, simplified])
  then obtain w where w: "w \<in> set out" "is_response w" by auto
  from replies_are_well_typed [OF d w, of "[]" "new_app None", THEN conjunct1] w(1) show ?thesis
    unfolding d fst_conv by auto
qed

end
