(* ===== verification/Rpc_System.thy ===== *)
theory Rpc_System
  imports Reply_Types Relay_Props Fuse_Props
begin

text \<open>
  The whole path of a call: the client's tasks, a hub that has paired one bridge and one agent under
  a token, and the agent's dispatcher, composed from their own operations. Frames under way are
  lists without an order, since every request has a task of its own at each end; frames get lost
  when a connection breaks. \<open>executed\<close> is a ghost: the calls the agent has executed, in that order,
  with their results. Only the file methods are called here; their handlers run one at a time.
\<close>

section \<open>The composed system\<close>

record rpc_net =
  nc :: client
  requests :: "nat \<rightharpoonup> string \<times> json"
  down :: "json list"
  up :: "json list"
  files :: os
  executed :: "(nat \<times> call_result) list"

definition new_net :: "os \<Rightarrow> rpc_net" where
  "new_net fs = \<lparr>nc = new_client, requests = Map.empty, down = [], up = [], files = fs, executed = []\<rparr>"

definition frames_to :: "relay_peer \<Rightarrow> outs \<Rightarrow> json list" where
  "frames_to p out = map snd (filter (\<lambda>x. fst x = rp_conn p) out)"

definition paired :: "app_state \<Rightarrow> relay_peer \<Rightarrow> relay_peer \<Rightarrow> string \<Rightarrow> bool" where
  "paired h a b token \<longleftrightarrow> get_vec (agents h) token = [a] \<and> get_vec (bridges h) token = [b] \<and>
     peer_kind_of a = Agent \<and> peer_kind_of b = Bridge \<and> rp_conn a \<noteq> rp_conn b"

definition net_start :: "string \<Rightarrow> json \<Rightarrow> rpc_net \<Rightarrow> rpc_net" where
  "net_start m ps s = (case start_call (nc s) of (i, c) \<Rightarrow> s\<lparr>nc := c, requests := (requests s)(i \<mapsto> (m, ps))\<rparr>)"

text \<open>The bridge's frame and what the relay makes of it.\<close>

definition net_send ::
  "app_state \<Rightarrow> relay_peer \<Rightarrow> relay_peer \<Rightarrow> string \<Rightarrow> (nat \<Rightarrow> bool) \<Rightarrow> bool \<Rightarrow> nat \<Rightarrow> string \<Rightarrow> json \<Rightarrow> rpc_net \<Rightarrow> rpc_net" where
  "net_send h a b token accepts ok i m ps s =
     (let out = (if ok \<and> sink (nc s) \<noteq> None then handle_frame accepts [] h b token (request_value i m ps) else [])
      in s\<lparr>nc := send_call ok i (nc s), down := down s @ frames_to a out, up := up s @ frames_to b out\<rparr>)"

definition net_execute ::
  "agent_env \<Rightarrow> app_state \<Rightarrow> relay_peer \<Rightarrow> relay_peer \<Rightarrow> string \<Rightarrow> (nat \<Rightarrow> bool) \<Rightarrow> agent_state \<Rightarrow>
   nat \<Rightarrow> json \<Rightarrow> rpc_net \<Rightarrow> rpc_net" where
  "net_execute env h a b token accepts st i v s = (case dispatch env v (files s) st of
     (out, _, fs, _) \<Rightarrow> s\<lparr>down := remove1 v (down s), files := fs,
       up := up s @ concat (map (\<lambda>w. frames_to b (handle_frame accepts [] h a token w)) out),
       executed := executed s @ map (\<lambda>w. (i, response_result w)) out\<rparr>)"

inductive net_step :: "agent_env \<Rightarrow> app_state \<Rightarrow> relay_peer \<Rightarrow> relay_peer \<Rightarrow> string \<Rightarrow> rpc_net \<Rightarrow> rpc_net \<Rightarrow> bool"
  for env h a b token where
  nt_start: "next_id (nc s) + 1 < 2 ^ 64 \<Longrightarrow> file_method env m \<noteq> None \<Longrightarrow> net_step env h a b token s (net_start m ps s)"
| nt_send: "calls (nc s) i = Some Inserted \<Longrightarrow> requests s i = Some (m, ps) \<Longrightarrow>
     net_step env h a b token s (net_send h a b token accepts ok i m ps s)"
| nt_execute: "v \<in> set (down s) \<Longrightarrow> Option.bind (get v ''id'') as_u64 = Some i \<Longrightarrow>
     net_step env h a b token s (net_execute env h a b token accepts st i v s)"
| nt_receive: "w \<in> set (up s) \<Longrightarrow> reading (nc s) \<Longrightarrow>
     net_step env h a b token s (s\<lparr>nc := receive_frame w (nc s), up := remove1 w (up s)\<rparr>)"
| nt_finish: "calls (nc s) i = Some Waiting \<Longrightarrow> slot (nc s) i \<noteq> None \<Longrightarrow>
     net_step env h a b token s (s\<lparr>nc := finish_call i (nc s)\<rparr>)"
| nt_expire: "calls (nc s) i = Some Waiting \<Longrightarrow> slot (nc s) i = None \<Longrightarrow>
     net_step env h a b token s (s\<lparr>nc := expire_call i (nc s)\<rparr>)"
| nt_read_end: "reading (nc s) \<Longrightarrow> net_step env h a b token s (s\<lparr>nc := fail_pending (nc s)\<rparr>)"
| nt_install: "sink (nc s) = None \<Longrightarrow> net_step env h a b token s (s\<lparr>nc := install_connection x (nc s)\<rparr>)"
| nt_clear: "sink (nc s) \<noteq> None \<Longrightarrow> \<not> reading (nc s) \<Longrightarrow>
     net_step env h a b token s (s\<lparr>nc := clear_connection (nc s)\<rparr>)"
| nt_lose: "net_step env h a b token s (s\<lparr>down := remove1 v (down s), up := remove1 w (up s)\<rparr>)"

section \<open>The specification\<close>

text \<open>Calls executed one after the other.\<close>

fun run_calls :: "agent_env \<Rightarrow> (string \<times> json) list \<Rightarrow> os \<Rightarrow> call_result list \<times> os" where
  "run_calls env [] fs = ([], fs)"
| "run_calls env ((m, ps) # qs) fs = (case agent_rpc env m ps fs of
     (r, fs1) \<Rightarrow> (case run_calls env qs fs1 of (rs, fs2) \<Rightarrow> (r # rs, fs2)))"

lemma run_calls_snoc:
  "run_calls env (qs @ [(m, ps)]) fs = (case run_calls env qs fs of
     (rs, fs1) \<Rightarrow> (case agent_rpc env m ps fs1 of (r, fs2) \<Rightarrow> (rs @ [r], fs2)))"
  by (induction qs arbitrary: fs) (auto split: prod.splits)

section \<open>One frame\<close>

lemma dispatch_of_file_method:
  assumes "file_method env m = Some hdl"
  shows "dispatch_method env i m ps fs st = (case hdl ps fs of (r, fs') \<Rightarrow> ([reply env i r], False, fs', st))"
proof -
  have "m \<noteq> method_name n" if "n \<in> {RUN_COMMAND, GET_COMMAND_RESULT, COPY, STREAM_FILE, PING}" for n
  proof
    assume "m = method_name n"
    then show False
      using assms that by (auto simp: file_method_def method_name_inj simp del: method_name.simps)
  qed
  then show ?thesis by (simp add: dispatch_method_def assms del: method_name.simps)
qed

lemma dispatch_file_method:
  assumes "file_method env m \<noteq> None" and "i < 2 ^ 64" and "agent_rpc env m ps fs = (r, fs')"
  shows "\<exists>w. dispatch env (request_value i m ps) fs st = ([w], False, fs', st) \<and>
    get w ''id'' = Some (JInt (int i)) \<and> is_response w \<and> response_result w = r"
proof -
  obtain hdl where hdl: "file_method env m = Some hdl" using assms(1) by blast
  obtain x fs1 where x: "hdl ps fs = (x, fs1)" by fastforce
  have "dispatch env (request_value i m ps) fs st = ([reply env i x], False, fs1, st)"
    using assms(2) by (simp add: dispatch_def dispatch_of_file_method [OF hdl] x)
  moreover have "fs1 = fs'" "response_result (reply env i x) = r"
    using assms(3) by (auto simp: agent_rpc_def hdl x reply_read split: sum.splits)
  ultimately show ?thesis by (intro exI [of _ "reply env i x"]) simp
qed

text \<open>What the relay makes of a request of the bridge and of a response of the agent.\<close>

lemma relay_request:
  assumes "paired h a b token" and "file_method env m \<noteq> None" and "i < 2 ^ 64"
    and "out = handle_frame accepts [] h b token (request_value i m ps)"
  shows "(frames_to a out = [request_value i m ps] \<and> frames_to b out = []) \<or>
    (frames_to a out = [] \<and> (\<forall>w \<in> set (frames_to b out). get w ''id'' = Some (JInt (int i)) \<and>
      (\<exists>e. response_result w = Inl e)))"
proof -
  have "m \<noteq> method_name LIST_TARGETS"
    using assms(2) by (auto simp: file_method_def method_name_inj simp del: method_name.simps)
  then have "out = route_request accepts h b token (request_value i m ps)"
    using assms(1,4) by (simp add: paired_def handle_frame_def peer_kind_of_def del: method_name.simps)
  moreover have pick: "pick_agent (request_value i m ps) [a] = None \<or> pick_agent (request_value i m ps) [a] = Some a"
    by (auto simp: pick_agent_def split: option.split)
  moreover have "get_vec (agents h) token = [a]" using assms(1) by (simp add: paired_def)
  ultimately have "out = relay_send accepts a (request_value i m ps) \<or>
      (\<exists>c t. out = relay_respond accepts b i None (Some (rpc_error_new c t)))"
    using assms(3) by (elim disjE) (auto simp: route_request_def frame_id_def relay_send_def)
  moreover have "rp_conn a \<noteq> rp_conn b" using assms(1) by (simp add: paired_def)
  ultimately show ?thesis
    by (auto simp: frames_to_def relay_respond_def relay_send_def error_read split: if_splits)
qed

lemma relay_response:
  assumes "paired h a b token" and "is_response w"
  shows "set (frames_to b (handle_frame accepts [] h a token w)) \<subseteq> {w}"
  using assms by (auto simp: paired_def frames_to_def handle_frame_def peer_kind_of_def forward_to_bridges_def relay_send_def
      split: if_splits)

section \<open>The invariant\<close>

definition past_insert :: "nat \<Rightarrow> rpc_net \<Rightarrow> bool" where
  "past_insert i s \<longleftrightarrow> i < next_id (nc s) \<and> calls (nc s) i \<notin> {None, Some Inserted}"

definition done_with :: "nat \<Rightarrow> rpc_net \<Rightarrow> call_result \<Rightarrow> bool" where
  "done_with i s r \<longleftrightarrow> (\<forall>v. r = Inr v \<longrightarrow> (i, r) \<in> set (executed s))"

definition down_ok :: "agent_env \<Rightarrow> rpc_net \<Rightarrow> json \<Rightarrow> bool" where
  "down_ok env s v \<longleftrightarrow> (\<exists>i m ps. v = request_value i m ps \<and> i < 2 ^ 64 \<and> requests s i = Some (m, ps) \<and>
     past_insert i s \<and> i \<notin> fst ` set (executed s))"

definition up_ok :: "rpc_net \<Rightarrow> json \<Rightarrow> bool" where
  "up_ok s w \<longleftrightarrow> (\<exists>i. get w ''id'' = Some (JInt (int i)) \<and> i < 2 ^ 64 \<and> done_with i s (response_result w))"

definition net_inv :: "agent_env \<Rightarrow> os \<Rightarrow> rpc_net \<Rightarrow> bool" where
  "net_inv env fs0 s \<longleftrightarrow> client_inv (nc s) \<and> next_id (nc s) < 2 ^ 64 \<and>
     (\<forall>i. requests s i \<noteq> None \<longleftrightarrow> calls (nc s) i \<noteq> None) \<and>
     (\<forall>i m ps. requests s i = Some (m, ps) \<longrightarrow> file_method env m \<noteq> None) \<and>
     list_all (down_ok env s) (down s) \<and> distinct (map frame_id (down s)) \<and> list_all (up_ok s) (up s) \<and>
     (\<forall>i r. slot (nc s) i = Some r \<longrightarrow> done_with i s r) \<and>
     (\<forall>i r. calls (nc s) i = Some (Returned r) \<longrightarrow> done_with i s r) \<and>
     distinct (map fst (executed s)) \<and> (\<forall>i \<in> fst ` set (executed s). past_insert i s) \<and>
     run_calls env (map (\<lambda>(i, _). the (requests s i)) (executed s)) fs0 = (map snd (executed s), files s)"

lemma net_inv_new: "net_inv env fs (new_net fs)"
  by (simp add: net_inv_def new_net_def client_inv_new) (simp add: new_client_def)

lemma net_invD:
  assumes "net_inv env fs0 s"
  shows "client_inv (nc s)" and "next_id (nc s) < 2 ^ 64" and "requests s i \<noteq> None \<longleftrightarrow> calls (nc s) i \<noteq> None"
    and "requests s i = Some (m, ps) \<Longrightarrow> file_method env m \<noteq> None" and "v \<in> set (down s) \<Longrightarrow> down_ok env s v"
    and "distinct (map frame_id (down s))" and "w \<in> set (up s) \<Longrightarrow> up_ok s w"
    and "slot (nc s) i = Some r \<Longrightarrow> done_with i s r" and "calls (nc s) i = Some (Returned r) \<Longrightarrow> done_with i s r"
    and "distinct (map fst (executed s))" and "i \<in> fst ` set (executed s) \<Longrightarrow> past_insert i s"
    and "run_calls env (map (\<lambda>(i, _). the (requests s i)) (executed s)) fs0 = (map snd (executed s), files s)"
proof -
  note c = assms [unfolded net_inv_def list_all_iff]
  show "client_inv (nc s)" and "next_id (nc s) < 2 ^ 64" using c by simp_all
  show "requests s i \<noteq> None \<longleftrightarrow> calls (nc s) i \<noteq> None" using c [THEN conjunct2, THEN conjunct2, THEN conjunct1] by blast
  show "requests s i = Some (m, ps) \<Longrightarrow> file_method env m \<noteq> None" using c [THEN conjunct2, THEN conjunct2, THEN conjunct2, THEN conjunct1] by blast
  show "v \<in> set (down s) \<Longrightarrow> down_ok env s v" using c [THEN conjunct2, THEN conjunct2, THEN conjunct2, THEN conjunct2, THEN conjunct1] by blast
  show "distinct (map frame_id (down s))" by (rule c [THEN conjunct2, THEN conjunct2, THEN conjunct2, THEN conjunct2, THEN conjunct2, THEN conjunct1])
  show "w \<in> set (up s) \<Longrightarrow> up_ok s w" using c [THEN conjunct2, THEN conjunct2, THEN conjunct2, THEN conjunct2, THEN conjunct2, THEN conjunct2, THEN conjunct1] by blast
  show "slot (nc s) i = Some r \<Longrightarrow> done_with i s r" using c [THEN conjunct2, THEN conjunct2, THEN conjunct2, THEN conjunct2, THEN conjunct2, THEN conjunct2, THEN conjunct2, THEN conjunct1] by blast
  show "calls (nc s) i = Some (Returned r) \<Longrightarrow> done_with i s r" using c [THEN conjunct2, THEN conjunct2, THEN conjunct2, THEN conjunct2, THEN conjunct2, THEN conjunct2, THEN conjunct2, THEN conjunct2, THEN conjunct1] by blast
  show "distinct (map fst (executed s))" by (rule c [THEN conjunct2, THEN conjunct2, THEN conjunct2, THEN conjunct2, THEN conjunct2, THEN conjunct2, THEN conjunct2, THEN conjunct2, THEN conjunct2, THEN conjunct1])
  show "i \<in> fst ` set (executed s) \<Longrightarrow> past_insert i s" using c [THEN conjunct2, THEN conjunct2, THEN conjunct2, THEN conjunct2, THEN conjunct2, THEN conjunct2, THEN conjunct2, THEN conjunct2, THEN conjunct2, THEN conjunct2, THEN conjunct1] by blast
  show "run_calls env (map (\<lambda>(i, _). the (requests s i)) (executed s)) fs0 = (map snd (executed s), files s)"
    by (rule c [THEN conjunct2, THEN conjunct2, THEN conjunct2, THEN conjunct2, THEN conjunct2, THEN conjunct2, THEN conjunct2, THEN conjunct2, THEN conjunct2, THEN conjunct2, THEN conjunct2])
qed

lemmas frame_defs = past_insert_def done_with_def down_ok_def up_ok_def

text \<open>A step of the client that moves no frame.\<close>

lemma net_inv_client:
  assumes inv: "net_inv env fs0 s" and "client_inv c" and "next_id c = next_id (nc s)"
    and "\<And>i. calls c i = calls (nc s) i \<or> calls (nc s) i \<noteq> None \<and> calls c i \<notin> {None, Some Inserted}"
    and "\<And>i r. slot c i = Some r \<Longrightarrow> done_with i s r" and "\<And>i r. calls c i = Some (Returned r) \<Longrightarrow> done_with i s r"
  shows "net_inv env fs0 (s\<lparr>nc := c\<rparr>)"
proof -
  have p: "past_insert i (s\<lparr>nc := c\<rparr>)" if "past_insert i s" for i
    using that assms(3) assms(4) [of i] by (auto simp: past_insert_def)
  have d: "down_ok env (s\<lparr>nc := c\<rparr>) v" if "down_ok env s v" for v
    using that p unfolding down_ok_def by fastforce
  have q: "requests s i \<noteq> None \<longleftrightarrow> calls c i \<noteq> None" for i
    using net_invD(3) [OF inv, of i] assms(4) [of i] by auto
  show ?thesis
    unfolding net_inv_def list_all_iff using net_invD [OF inv] assms(2,3,5,6) p d q
    by (simp add: done_with_def up_ok_def)
qed

lemma net_inv_frames:
  assumes inv: "net_inv env fs0 s" and "\<And>v. v \<in> set ds \<Longrightarrow> down_ok env s v" and "distinct (map frame_id (down s @ ds))"
    and "\<And>w. w \<in> set us \<Longrightarrow> up_ok s w"
  shows "net_inv env fs0 (s\<lparr>down := down s @ ds, up := up s @ us\<rparr>)"
proof -
  have "down_ok env (s\<lparr>down := x, up := y\<rparr>) v = down_ok env s v" "up_ok (s\<lparr>down := x, up := y\<rparr>) v = up_ok s v" for x y v
    by (simp_all add: frame_defs)
  then show ?thesis
    unfolding net_inv_def list_all_iff using net_invD [OF inv] assms(2-4)
    by (auto simp: done_with_def past_insert_def)
qed

lemma net_inv_lose:
  assumes "net_inv env fs0 s"
  shows "net_inv env fs0 (s\<lparr>down := remove1 v (down s), up := remove1 w (up s)\<rparr>)"
  using net_invD [OF assms] set_remove1_subset [of v "down s"] set_remove1_subset [of w "up s"]
  unfolding net_inv_def list_all_iff frame_defs
  by (auto simp: distinct_map intro: inj_on_subset)

section \<open>Every step keeps it\<close>

lemma net_inv_start:
  assumes inv: "net_inv env fs0 s" and "next_id (nc s) + 1 < 2 ^ 64" and "file_method env m \<noteq> None"
  shows "net_inv env fs0 (net_start m ps s)"
proof -
  note i = net_invD [OF inv]
  let ?i = "next_id (nc s)" and ?c = "snd (start_call (nc s))"
  have s': "net_start m ps s = s\<lparr>nc := ?c, requests := (requests s)(?i \<mapsto> (m, ps))\<rparr>"
    by (simp add: net_start_def start_call_def Let_def)
  have fresh: "calls (nc s) ?i = None" using i(1) by (simp add: client_inv_def)
  have c: "client_inv ?c" by (rule client_step_keeps [OF cl_start [OF assms(2)] i(1)])
  have e: "next_id ?c = ?i + 1" "calls ?c = (calls (nc s))(?i \<mapsto> Inserted)" "slot ?c = slot (nc s)"
    using assms(2) by (simp_all add: start_call_def Let_def u64_add_def)
  have same: "requests (net_start m ps s) = (requests s)(?i \<mapsto> (m, ps))" "executed (net_start m ps s) = executed s"
    "files (net_start m ps s) = files s" by (simp_all add: s')
  have p: "past_insert j (net_start m ps s) \<and> j \<noteq> ?i" if "past_insert j s" for j
    using that unfolding past_insert_def s' by (auto simp: e fresh)
  have d: "down_ok env (net_start m ps s) v" if "down_ok env s v" for v
  proof -
    obtain j n qs where "v = request_value j n qs" "j < 2 ^ 64" "requests s j = Some (n, qs)" "past_insert j s"
      "j \<notin> fst ` set (executed s)" using \<open>down_ok env s v\<close> unfolding down_ok_def by blast
    then show ?thesis using p [of j] unfolding down_ok_def s' by fastforce
  qed
  have runs: "map (\<lambda>(j, _). the (((requests s)(?i \<mapsto> (m, ps))) j)) (executed s) =
      map (\<lambda>(j, _). the (requests s j)) (executed s)"
    using i(11) p by (force intro!: map_cong)
  show ?thesis
    unfolding net_inv_def list_all_iff
  proof (intro conjI)
    show "\<forall>j. requests (net_start m ps s) j \<noteq> None \<longleftrightarrow> calls (nc (net_start m ps s)) j \<noteq> None"
      using i(3) by (simp add: s' e)
    show "\<forall>j n qs. requests (net_start m ps s) j = Some (n, qs) \<longrightarrow> file_method env n \<noteq> None"
      using i(4) assms(3) by (auto simp: s' split: if_splits)
    show "\<forall>j r. calls (nc (net_start m ps s)) j = Some (Returned r) \<longrightarrow> done_with j (net_start m ps s) r"
      using i(9) by (simp add: s' e done_with_def)
    show "\<forall>j r. slot (nc (net_start m ps s)) j = Some r \<longrightarrow> done_with j (net_start m ps s) r"
      using i(8) by (simp add: s' e done_with_def)
    show "Ball (set (down (net_start m ps s))) (down_ok env (net_start m ps s))" using i(5) d by (simp add: s')
    show "Ball (set (up (net_start m ps s))) (up_ok (net_start m ps s))"
      using i(7) by (simp add: s' up_ok_def done_with_def)
    show "\<forall>j \<in> fst ` set (executed (net_start m ps s)). past_insert j (net_start m ps s)"
      using i(11) p by (simp add: s')
    show "run_calls env (map (\<lambda>(j, _). the (requests (net_start m ps s) j)) (executed (net_start m ps s))) fs0 =
        (map snd (executed (net_start m ps s)), files (net_start m ps s))" unfolding same runs i(12) ..
  qed (use c e(1) i(6,10) assms(2) in \<open>simp_all add: s'\<close>)
qed

lemma net_inv_receive:
  assumes inv: "net_inv env fs0 s" and "w \<in> set (up s)" and "reading (nc s)"
  shows "net_inv env fs0 (s\<lparr>nc := receive_frame w (nc s), up := remove1 w (up s)\<rparr>)"
proof -
  let ?c = "receive_frame w (nc s)"
  note i = net_invD [OF inv]
  obtain j where j: "get w ''id'' = Some (JInt (int j))" "j < 2 ^ 64" "done_with j s (response_result w)"
    using i(7) [OF assms(2)] by (auto simp: up_ok_def)
  have "client_inv ?c" by (rule client_step_keeps [OF cl_receive [OF assms(3)] i(1)])
  then have "net_inv env fs0 (s\<lparr>nc := ?c\<rparr>)"
    by (rule net_inv_client [OF inv]) (use i(8,9) j in \<open>auto simp: receive_frame_def split: if_splits\<close>)
  from net_inv_lose [OF this, where v = JNull and w = w]
  have "net_inv env fs0 (s\<lparr>nc := ?c, down := remove1 JNull (down s), up := remove1 w (up s)\<rparr>)" by simp
  moreover have "JNull \<notin> set (down s)" using i(5) by (auto simp: down_ok_def request_value_def)
  ultimately show ?thesis by (simp add: remove1_idem)
qed

lemma net_inv_send:
  assumes inv: "net_inv env fs0 s" and pair: "paired h a b token" and ins: "calls (nc s) i = Some Inserted"
    and req: "requests s i = Some (m, ps)"
  shows "net_inv env fs0 (net_send h a b token accepts ok i m ps s)"
proof -
  note n = net_invD [OF inv]
  let ?c = "send_call ok i (nc s)"
  have i: "i < next_id (nc s)" "i < 2 ^ 64"
    using n(1) ins n(2) unfolding client_inv_def by (metis linorder_not_less option.distinct(1) order.strict_trans2 order_less_imp_le)+
  have not_yet: "i \<notin> fst ` set (executed s)" using n(11) ins by (auto simp: past_insert_def)
  have "client_inv ?c" by (rule client_step_keeps [OF cl_send [OF ins] n(1)])
  then have sent: "net_inv env fs0 (s\<lparr>nc := ?c\<rparr>)"
  proof (rule net_inv_client [OF inv])
    show "calls ?c j = calls (nc s) j \<or> calls (nc s) j \<noteq> None \<and> calls ?c j \<notin> {None, Some Inserted}" for j
      using ins by (simp add: send_call_def split: option.split)
    show "done_with j s r" if "calls ?c j = Some (Returned r)" for j r
      using that n(9) by (auto simp: send_call_def done_with_def offline_error_def split: option.splits if_splits)
  qed (use n(8) in \<open>auto simp: send_call_def split: option.splits if_splits\<close>)
  define out where "out = (if ok \<and> sink (nc s) \<noteq> None then handle_frame accepts [] h b token (request_value i m ps) else [])"
  have s': "net_send h a b token accepts ok i m ps s = s\<lparr>nc := ?c, down := down s @ frames_to a out, up := up s @ frames_to b out\<rparr>"
    unfolding net_send_def out_def Let_def ..
  have "frames_to a out = [] \<and> frames_to b out = [] \<or> frames_to a out = [request_value i m ps] \<and> frames_to b out = [] \<and> calls ?c i = Some Waiting \<or>
    frames_to a out = [] \<and> (\<forall>w \<in> set (frames_to b out). get w ''id'' = Some (JInt (int i)) \<and> (\<exists>e. response_result w = Inl e))"
  proof (cases "ok \<and> sink (nc s) \<noteq> None")
    case True
    then have "calls ?c i = Some Waiting" by (auto simp: send_call_def)
    then show ?thesis using relay_request [OF pair n(4) [OF req] i(2), of out accepts] True unfolding out_def by auto
  next
    case False
    then have "out = []" unfolding out_def by (rule if_not_P)
    then show ?thesis by (simp add: frames_to_def)
  qed
  then show ?thesis
  proof (elim disjE conjE)
    assume "frames_to a out = []" "frames_to b out = []"
    then show ?thesis using sent by (simp add: s')
  next
    assume f: "frames_to a out = [request_value i m ps]" "frames_to b out = []" and w: "calls ?c i = Some Waiting"
    have d: "down_ok env (s\<lparr>nc := ?c\<rparr>) (request_value i m ps)"
      unfolding down_ok_def past_insert_def using i req not_yet w by (auto simp: send_call_def split: option.split)
    have "frame_id (request_value i m ps) = i" using i(2) by (simp add: frame_id_def)
    moreover have "frame_id v \<noteq> i" if "v \<in> set (down s)" for v
      using n(5) [OF that] ins by (auto simp: down_ok_def past_insert_def frame_id_def)
    ultimately have "distinct (map frame_id (down s @ [request_value i m ps]))" using n(6) by auto
    with net_inv_frames [OF sent, of "[request_value i m ps]" "[]"] d show ?thesis by (simp add: s' f)
  next
    assume "frames_to a out = []"
      and u: "\<forall>w \<in> set (frames_to b out). get w ''id'' = Some (JInt (int i)) \<and> (\<exists>e. response_result w = Inl e)"
    then have "up_ok (s\<lparr>nc := ?c\<rparr>) w" if "w \<in> set (frames_to b out)" for w
      using that i(2) unfolding up_ok_def done_with_def by fastforce
    with net_inv_frames [OF sent, of "[]" "frames_to b out"] n(6) \<open>frames_to a out = []\<close> show ?thesis by (simp add: s')
  qed
qed

lemma net_inv_execute:
  assumes inv: "net_inv env fs0 s" and pair: "paired h a b token" and v: "v \<in> set (down s)"
    and id: "Option.bind (get v ''id'') as_u64 = Some i"
  shows "net_inv env fs0 (net_execute env h a b token accepts st i v s)"
proof -
  note n = net_invD [OF inv]
  obtain m ps where q: "v = request_value i m ps" "i < 2 ^ 64" "requests s i = Some (m, ps)" "past_insert i s"
      "i \<notin> fst ` set (executed s)"
    using n(5) [OF v] id by (auto simp: down_ok_def)
  obtain r fs where r: "agent_rpc env m ps (files s) = (r, fs)" by fastforce
  obtain w where w: "dispatch env v (files s) st = ([w], False, fs, st)" "get w ''id'' = Some (JInt (int i))"
      "is_response w" "response_result w = r"
    using dispatch_file_method [OF n(4) [OF q(3)] q(2) r] q(1) by blast
  let ?us = "frames_to b (handle_frame accepts [] h a token w)"
  let ?s = "s\<lparr>down := remove1 v (down s), files := fs, up := up s @ ?us, executed := executed s @ [(i, r)]\<rparr>"
  have s': "net_execute env h a b token accepts st i v s = ?s" by (simp add: net_execute_def w)
  have past: "past_insert j ?s = past_insert j s" for j by (simp add: past_insert_def)
  have dw: "done_with j ?s x" if "done_with j s x" for j x using that by (auto simp: done_with_def)
  have down: "down_ok env ?s x" if x: "x \<in> set (remove1 v (down s))" for x
  proof -
    have dist: "distinct (map frame_id (down s))" by (rule n(6))
    then have "x \<noteq> v" using x by (auto simp: distinct_map)
    moreover have "x \<in> set (down s)" using x by (meson notin_set_remove1)
    ultimately have "frame_id x \<noteq> frame_id v" using dist v by (auto simp: distinct_map inj_on_def)
    moreover obtain j m' ps' where x: "x = request_value j m' ps'" "j < 2 ^ 64" "requests s j = Some (m', ps')"
        "past_insert j s" "j \<notin> fst ` set (executed s)"
      using n(5) [OF \<open>x \<in> set (down s)\<close>] by (auto simp: down_ok_def)
    ultimately have "j \<noteq> i" using q(1) by (auto simp: frame_id_def)
    then show ?thesis unfolding down_ok_def past using x by (intro exI [of _ j] exI [of _ m'] exI [of _ ps']) simp
  qed
  have dist: "distinct (map frame_id (remove1 v (down s)))"
    using n(6) set_remove1_subset [of v "down s"] by (auto simp: distinct_map intro: inj_on_subset)
  have up: "up_ok ?s x" if "x \<in> set (up s) \<or> x \<in> set ?us" for x
  proof (cases "x \<in> set (up s)")
    case True
    then show ?thesis using n(7) dw unfolding up_ok_def by blast
  next
    case False
    then have "x = w" using that relay_response [OF pair w(3), of accepts] by blast
    then show ?thesis using w q(2) by (auto simp: up_ok_def done_with_def)
  qed
  have runs: "run_calls env (map (\<lambda>(j, _). the (requests s j)) (executed s @ [(i, r)])) fs0 =
      (map snd (executed s @ [(i, r)]), fs)"
    using n(12) by (simp add: q(3) run_calls_snoc r)
  show ?thesis
    unfolding net_inv_def list_all_iff s'
  proof (intro conjI)
    show "\<forall>j x. slot (nc ?s) j = Some x \<longrightarrow> done_with j ?s x" using n(8) dw by simp
    show "\<forall>j x. calls (nc ?s) j = Some (Returned x) \<longrightarrow> done_with j ?s x" using n(9) dw by simp
    show "\<forall>j n qs. requests ?s j = Some (n, qs) \<longrightarrow> file_method env n \<noteq> None" using n(4) by simp
    show "\<forall>j \<in> fst ` set (executed ?s). past_insert j ?s" using n(11) q(4) past by auto
    show "Ball (set (up ?s)) (up_ok ?s)" using up by auto
    show "Ball (set (down ?s)) (down_ok env ?s)" using down by simp
  qed (use n dist runs q(5) in simp_all)
qed

lemma net_step_keeps:
  assumes "net_step env h a b token s t" and "paired h a b token" and "net_inv env fs0 s"
  shows "net_inv env fs0 t"
  using assms
proof (induction rule: net_step.induct)
  case (nt_finish s i)
  note n = net_invD [OF nt_finish(4)]
  have "client_inv (finish_call i (nc s))" by (rule client_step_keeps [OF cl_finish [OF nt_finish(1,2)] n(1)])
  then show ?case
    by (rule net_inv_client [OF nt_finish(4)])
      (use n(8,9) nt_finish(1) in \<open>auto simp: finish_call_def split: option.splits if_splits\<close>)
next
  case (nt_expire s i)
  note n = net_invD [OF nt_expire(4)]
  have "client_inv (expire_call i (nc s))" by (rule client_step_keeps [OF cl_expire [OF nt_expire(1,2)] n(1)])
  then show ?case
    by (rule net_inv_client [OF nt_expire(4)])
      (use n(8,9) nt_expire(1) in \<open>auto simp: expire_call_def done_with_def split: if_splits\<close>)
next
  case (nt_read_end s)
  note n = net_invD [OF nt_read_end(3)]
  have "client_inv (fail_pending (nc s))" by (rule client_step_keeps [OF cl_read_end [OF nt_read_end(1)] n(1)])
  then show ?case
    by (rule net_inv_client [OF nt_read_end(3)])
      (use n(8,9) in \<open>auto simp: fail_pending_def done_with_def offline_error_def split: if_splits\<close>)
next
  case (nt_install s x)
  note n = net_invD [OF nt_install(3)]
  have "client_inv (install_connection x (nc s))" by (rule client_step_keeps [OF cl_install [OF nt_install(1)] n(1)])
  then show ?case
    by (rule net_inv_client [OF nt_install(3)]) (use n(8,9) in \<open>auto simp: install_connection_def Let_def\<close>)
next
  case (nt_clear s)
  note n = net_invD [OF nt_clear(4)]
  have "client_inv (clear_connection (nc s))" by (rule client_step_keeps [OF cl_clear [OF nt_clear(1,2)] n(1)])
  then show ?case
    by (rule net_inv_client [OF nt_clear(4)]) (use n(8,9) in \<open>auto simp: clear_connection_def\<close>)
qed (auto intro: net_inv_start net_inv_send net_inv_execute net_inv_receive net_inv_lose)

lemma net_steps_keep:
  assumes pair: "paired h a b token" and "(net_step env h a b token)\<^sup>*\<^sup>* s t" and "net_inv env fs0 s"
  shows "net_inv env fs0 t"
proof -
  have "step_invariant (net_step env h a b token) (net_inv env fs0)"
    by (rule step_invariant.intro) (rule net_step_keeps [OF _ pair])
  then show ?thesis using assms(2,3) by (rule step_invariant.steps_keep)
qed


text \<open>The first call, sent on the first connection, and undisturbed from there.\<close>

lemma call_sent:
  assumes pair: "paired h a b token" and m: "file_method env m \<noteq> None"
    and pick: "pick_agent (request_value 1 m ps) [a] = Some a"
  shows "\<exists>s. (net_step env h a b token)\<^sup>*\<^sup>* (new_net fs0) s \<and> down s = [request_value 1 m ps] \<and> up s = [] \<and> files s = fs0 \<and>
    nc s = \<lparr>sink = Some 1, reading = True, next_id = 2, pending = {1}, slot = Map.empty, calls = [1 \<mapsto> Waiting],
      agent_id = None, connection_epoch = 1\<rparr>"
proof -
  let ?step = "net_step env h a b token"
  let ?v = "request_value 1 m ps"
  define s1 where "s1 = (new_net fs0)\<lparr>nc := install_connection None new_client\<rparr>"
  define s2 where "s2 = net_start m ps s1"
  define s3 where "s3 = net_send h a b token (\<lambda>_. True) True 1 m ps s2"
  have "m \<noteq> method_name LIST_TARGETS"
    using m by (auto simp: file_method_def method_name_inj simp del: method_name.simps)
  then have hf: "handle_frame (\<lambda>_. True) [] h b token ?v = [(rp_conn a, ?v)]"
    using pair pick by (simp add: paired_def handle_frame_def peer_kind_of_def route_request_def relay_send_def del: method_name.simps)
  have c1: "nc s1 = \<lparr>sink = Some 1, reading = True, next_id = 1, pending = {}, slot = Map.empty, calls = Map.empty,
      agent_id = None, connection_epoch = 1\<rparr>"
    by (simp add: s1_def install_connection_def new_client_def Let_def)
  have c2: "nc s2 = (nc s1)\<lparr>next_id := 2, pending := {1}, calls := [1 \<mapsto> Inserted]\<rparr>" "requests s2 = [1 \<mapsto> (m, ps)]"
    "down s2 = []" "up s2 = []" "files s2 = fs0"
    by (simp_all add: s2_def net_start_def start_call_def c1 Let_def u64_add_def)
      (simp_all add: s1_def new_net_def)
  have c3: "nc s3 = (nc s2)\<lparr>calls := [1 \<mapsto> Waiting]\<rparr>" "down s3 = [?v]" "up s3 = []" "files s3 = fs0"
    using pair by (simp_all add: s3_def net_send_def send_call_def c2 c1 hf [simplified] frames_to_def paired_def Let_def)
  have "?step (new_net fs0) s1" unfolding s1_def
    using nt_install [of "new_net fs0" env h a b token None] by (simp add: new_net_def new_client_def)
  moreover have "?step s1 s2" unfolding s2_def by (rule nt_start [OF _ m]) (simp add: c1)
  moreover have "?step s2 s3" unfolding s3_def by (rule nt_send) (simp_all add: c2)
  ultimately have "?step\<^sup>*\<^sup>* (new_net fs0) s3"
    by (meson rtranclp.rtrancl_into_rtrancl rtranclp.rtrancl_refl)
  then show ?thesis using c1 c2 c3 by (intro exI [of _ s3]) simp
qed

lemma call_completes:
  assumes pair: "paired h a b token" and m: "file_method env m \<noteq> None" and r: "agent_rpc env m ps fs0 = (r, fs)"
    and pick: "pick_agent (request_value 1 m ps) [a] = Some a"
  shows "\<exists>s. (net_step env h a b token)\<^sup>*\<^sup>* (new_net fs0) s \<and> calls (nc s) 1 = Some (Returned r) \<and> files s = fs"
proof -
  let ?step = "net_step env h a b token"
  let ?v = "request_value 1 m ps"
  obtain s3 where s3: "?step\<^sup>*\<^sup>* (new_net fs0) s3" and c3: "down s3 = [?v]" "up s3 = []" "files s3 = fs0"
      "nc s3 = \<lparr>sink = Some 1, reading = True, next_id = 2, pending = {1}, slot = Map.empty, calls = [1 \<mapsto> Waiting],
        agent_id = None, connection_epoch = 1\<rparr>"
    using call_sent [OF pair m pick] by blast
  obtain w where w: "dispatch env ?v fs0 new_agent_state = ([w], False, fs, new_agent_state)"
      "get w ''id'' = Some (JInt (int 1))" "is_response w" "response_result w = r"
    using dispatch_file_method [OF m _ r, of 1 new_agent_state] by auto
  define s4 where "s4 = net_execute env h a b token (\<lambda>_. True) new_agent_state 1 ?v s3"
  define s5 where "s5 = s4\<lparr>nc := receive_frame w (nc s4), up := remove1 w (up s4)\<rparr>"
  define s6 where "s6 = s5\<lparr>nc := finish_call 1 (nc s5)\<rparr>"
  have hb: "frames_to b (handle_frame (\<lambda>_. True) [] h a token w) = [w]"
    using pair w(3) by (simp add: paired_def handle_frame_def peer_kind_of_def forward_to_bridges_def relay_send_def frames_to_def)
  have c4: "nc s4 = nc s3" "up s4 = [w]" "files s4 = fs"
    by (simp_all add: s4_def net_execute_def c3 w(1) [simplified] hb)
  have c5: "nc s5 = (nc s4)\<lparr>pending := {}, slot := [1 \<mapsto> r]\<rparr>" "files s5 = fs"
    using w(2,4) by (simp_all add: s5_def receive_frame_def c4 c3)
  have c6: "calls (nc s6) 1 = Some (Returned r)" "files s6 = fs"
    by (simp_all add: s6_def finish_call_def c5)
  have "?step s3 s4" unfolding s4_def by (rule nt_execute) (simp_all add: c3)
  moreover have "?step s4 s5" unfolding s5_def by (rule nt_receive) (simp_all add: c4 c3)
  moreover have "?step s5 s6" unfolding s6_def by (rule nt_finish) (simp_all add: c5 c4 c3)
  ultimately have "?step\<^sup>*\<^sup>* (new_net fs0) s6"
    using s3 by (meson rtranclp.rtrancl_into_rtrancl)
  with c6 show ?thesis by blast
qed

lemma sample_pair: "paired (app sample_hub) sample_agent sample_bridge ''t''"
  by (simp add: paired_def sample_hub_app get_vec_def sample_agent_def sample_bridge_def peer_kind_of_def sample_hello_def)


end
