(* ===== verification/Lost_Calls.thy ===== *)
theory Lost_Calls
  imports Rpc_System
begin

text \<open>
  What becomes of a call whose request or answer is lost, in the composed system of client, relay
  and agent.
\<close>

section \<open>A target that goes away\<close>

text \<open>A call past its sending with no frame of its number under way; \<open>e\<close> is the generation of the
  connection it was found on.\<close>

definition abandoned :: "nat \<Rightarrow> nat \<Rightarrow> rpc_net \<Rightarrow> bool" where
  "abandoned i e s \<longleftrightarrow> past_insert i s \<and> (\<forall>v \<in> set (down s). frame_id v \<noteq> i) \<and>
     (\<forall>w \<in> set (up s). get w ''id'' \<noteq> Some (JInt (int i))) \<and>
     slot (nc s) i \<in> {None, Some (offline_error ''connection to agent lost'')} \<and>
     calls (nc s) i \<in> {Some Waiting, Some (Returned (offline_error ''connection to agent lost'')),
       Some (Returned (Inl (rpc_error_new CANCELLED ''request timed out'')))} \<and>
     e \<le> connection_epoch (nc s) \<and>
     (slot (nc s) i \<noteq> None \<or> calls (nc s) i = Some (Returned (offline_error ''connection to agent lost'')) \<longrightarrow>
       \<not> reading (nc s) \<or> e < connection_epoch (nc s))"

lemma timeout_is_not_loss: "rpc_error_new CANCELLED m \<noteq> rpc_error_new AGENT_OFFLINE m'"
  by (simp add: rpc_error_new_def)

lemma abandonedD:
  assumes "abandoned i e s"
  shows "past_insert i s" and "v \<in> set (down s) \<Longrightarrow> frame_id v \<noteq> i" and "w \<in> set (up s) \<Longrightarrow> get w ''id'' \<noteq> Some (JInt (int i))"
  using assms by (auto simp: abandoned_def)

text \<open>A change of the client that leaves the call alone, and frames of other numbers.\<close>

lemma abandoned_elsewhere:
  assumes "abandoned i e s" and "slot c i = slot (nc s) i" and "calls c i = calls (nc s) i" and "next_id (nc s) \<le> next_id c"
    and "reading c = reading (nc s)" and "connection_epoch c = connection_epoch (nc s)"
    and "nc t = c" and "\<And>v. v \<in> set (down t) \<Longrightarrow> v \<in> set (down s) \<or> frame_id v \<noteq> i"
    and "\<And>w. w \<in> set (up t) \<Longrightarrow> w \<in> set (up s) \<or> get w ''id'' \<noteq> Some (JInt (int i))"
  shows "abandoned i e t"
  unfolding abandoned_def
proof (intro conjI ballI)
  note ab = assms(1) [unfolded abandoned_def]
  show "past_insert i t" using ab [THEN conjunct1] assms(3,4) by (auto simp: past_insert_def assms(7))
  show "frame_id v \<noteq> i" if "v \<in> set (down t)" for v using assms(8) [OF that] abandonedD(2) [OF assms(1)] by blast
  show "get w ''id'' \<noteq> Some (JInt (int i))" if "w \<in> set (up t)" for w
    using assms(9) [OF that] abandonedD(3) [OF assms(1)] by blast
  note rest = assms(1) [unfolded abandoned_def, THEN conjunct2, THEN conjunct2, THEN conjunct2]
  note same = assms(2,3,5,6,7)
  show "slot (nc t) i \<in> {None, Some (offline_error ''connection to agent lost'')}"
    unfolding same by (rule rest [THEN conjunct1])
  show "calls (nc t) i \<in> {Some Waiting, Some (Returned (offline_error ''connection to agent lost'')),
      Some (Returned (Inl (rpc_error_new CANCELLED ''request timed out'')))}"
    unfolding same by (rule rest [THEN conjunct2, THEN conjunct1])
  show "e \<le> connection_epoch (nc t)" unfolding same by (rule rest [THEN conjunct2, THEN conjunct2, THEN conjunct1])
  show "slot (nc t) i \<noteq> None \<or> calls (nc t) i = Some (Returned (offline_error ''connection to agent lost'')) \<longrightarrow>
      \<not> reading (nc t) \<or> e < connection_epoch (nc t)"
    unfolding same by (rule rest [THEN conjunct2, THEN conjunct2, THEN conjunct2])
qed

lemma abandoned_send:
  assumes ab: "abandoned i e s" and inv: "net_inv env fs0 s" and pair: "paired h a b token"
    and ins: "calls (nc s) j = Some Inserted" and req: "requests s j = Some (m, ps)"
  shows "abandoned i e (net_send h a b token accepts ok j m ps s)"
proof -
  note n = net_invD [OF inv]
  have ij: "j \<noteq> i" using ab ins by (auto simp: abandoned_def)
  have j: "j < 2 ^ 64" using n(1,2) ins unfolding client_inv_def by (metis linorder_not_less option.distinct(1) order.strict_trans)
  define out where "out = (if ok \<and> sink (nc s) \<noteq> None then handle_frame accepts [] h b token (request_value j m ps) else [])"
  have s': "net_send h a b token accepts ok j m ps s = s\<lparr>nc := send_call ok j (nc s), down := down s @ frames_to a out, up := up s @ frames_to b out\<rparr>"
    unfolding net_send_def out_def Let_def ..
  have rr: "set (frames_to a out) \<subseteq> {request_value j m ps} \<and> (\<forall>w \<in> set (frames_to b out). get w ''id'' = Some (JInt (int j)))"
  proof (cases "ok \<and> sink (nc s) \<noteq> None")
    case True
    then have "out = handle_frame accepts [] h b token (request_value j m ps)" unfolding out_def by (rule if_P)
    from relay_request [OF pair n(4) [OF req] j this] show ?thesis by (elim disjE conjE) (simp_all)
  next
    case False
    then have "out = []" unfolding out_def by (rule if_not_P)
    then show ?thesis by (simp add: frames_to_def)
  qed
  have fid: "frame_id (request_value j m ps) = j" using j by (simp add: frame_id_def)
  have d: "frame_id v \<noteq> i" if v: "v \<in> set (frames_to a out)" for v
  proof -
    have "v = request_value j m ps" using rr [THEN conjunct1, THEN subsetD, OF v] by (rule singletonD)
    then show ?thesis using fid ij by (simp only: not_False_eq_True)
  qed
  have u: "get w ''id'' \<noteq> Some (JInt (int i))" if "w \<in> set (frames_to b out)" for w
    using rr [THEN conjunct2, rule_format, OF that] ij by simp
  let ?c = "send_call ok j (nc s)"
  show ?thesis
  proof (rule abandoned_elsewhere [OF ab, where c = ?c])
    show "nc (net_send h a b token accepts ok j m ps s) = ?c" by (simp add: s')
    show "v \<in> set (down s) \<or> frame_id v \<noteq> i" if "v \<in> set (down (net_send h a b token accepts ok j m ps s))" for v
      using that d [of v] unfolding s' by simp blast
    show "w \<in> set (up s) \<or> get w ''id'' \<noteq> Some (JInt (int i))" if "w \<in> set (up (net_send h a b token accepts ok j m ps s))" for w
      using that u [of w] unfolding s' by simp blast
  qed (use ij in \<open>simp_all add: send_call_def split: option.split\<close>)
qed

lemma abandoned_execute:
  assumes ab: "abandoned i e s" and inv: "net_inv env fs0 s" and pair: "paired h a b token"
    and v: "v \<in> set (down s)" and id: "Option.bind (get v ''id'') as_u64 = Some j"
  shows "abandoned i e (net_execute env h a b token accepts st j v s)"
proof -
  note n = net_invD [OF inv]
  obtain m ps where q: "v = request_value j m ps" "j < 2 ^ 64" "requests s j = Some (m, ps)"
    using n(5) [OF v] id by (auto simp: down_ok_def)
  have ij: "j \<noteq> i" using abandonedD(2) [OF ab v] q(1,2) by (auto simp: frame_id_def)
  obtain r fs where r: "agent_rpc env m ps (files s) = (r, fs)" by fastforce
  obtain w where w: "dispatch env v (files s) st = ([w], False, fs, st)" "get w ''id'' = Some (JInt (int j))" "is_response w"
    using dispatch_file_method [OF n(4) [OF q(3)] q(2) r] q(1) by blast
  show ?thesis
  proof (rule abandoned_elsewhere [OF ab refl refl order_refl refl refl])
    show "nc (net_execute env h a b token accepts st j v s) = nc s" by (simp add: net_execute_def w(1))
    show "x \<in> set (down (net_execute env h a b token accepts st j v s)) \<Longrightarrow> x \<in> set (down s) \<or> frame_id x \<noteq> i" for x
      by (simp add: net_execute_def w(1)) (meson notin_set_remove1)
    show "x \<in> set (up (net_execute env h a b token accepts st j v s)) \<Longrightarrow>
        x \<in> set (up s) \<or> get x ''id'' \<noteq> Some (JInt (int i))" for x
      using relay_response [OF pair w(3), of accepts] w(2) ij by (auto simp: net_execute_def w(1))
  qed
qed

lemma net_step_abandoned:
  assumes "net_step env h a b token s t" and "paired h a b token" and "net_inv env fs0 s" and "abandoned i e s"
  shows "abandoned i e t"
  using assms
proof (induction rule: net_step.induct)
  case (nt_start s m ps)
  have "next_id (nc s) \<noteq> i" using abandonedD(1) [OF nt_start(5)] by (auto simp: past_insert_def)
  then show ?case
    by (intro abandoned_elsewhere [OF nt_start(5)])
      (use nt_start(1) in \<open>auto simp: net_start_def start_call_def Let_def u64_add_def\<close>)
next
  case (nt_receive w s)
  obtain j where j: "get w ''id'' = Some (JInt (int j))" "j < 2 ^ 64"
    using net_invD(7) [OF nt_receive(4) nt_receive(1)] by (auto simp: up_ok_def)
  have "j \<noteq> i" using abandonedD(3) [OF nt_receive(5,1)] j by auto
  then show ?case
    by (intro abandoned_elsewhere [OF nt_receive(5)])
      (use j in \<open>auto simp: receive_frame_def dest: notin_set_remove1\<close>)
next
  case (nt_lose s v w)
  show ?case by (rule abandoned_elsewhere [OF nt_lose(3)]) (auto dest: notin_set_remove1)
next
  case (nt_send s j m ps accepts ok)
  then show ?case by (intro abandoned_send)
next
  case (nt_execute v s j accepts st)
  then show ?case by (intro abandoned_execute)
next
  case (nt_finish s j)
  have "calls (finish_call j (nc s)) i \<noteq> calls (nc s) i \<longrightarrow> i = j" by (simp add: finish_call_def split: option.split)
  show ?case
  proof (cases "j = i")
    case True
    then show ?thesis using nt_finish(2,5)
      by (auto simp: abandoned_def past_insert_def finish_call_def)
  next
    case False
    then show ?thesis by (intro abandoned_elsewhere [OF nt_finish(5)]) (auto simp: finish_call_def split: option.split)
  qed
next
  case (nt_expire s j)
  show ?case
  proof (cases "j = i")
    case True
    then show ?thesis using nt_expire(2,5) by (auto simp: abandoned_def past_insert_def expire_call_def offline_error_def timeout_is_not_loss)
  next
    case False
    then show ?thesis by (intro abandoned_elsewhere [OF nt_expire(5)]) (auto simp: expire_call_def)
  qed
next
  case (nt_read_end s)
  then show ?case by (auto simp: abandoned_def past_insert_def fail_pending_def)
next
  case (nt_install s x)
  then show ?case by (auto simp: abandoned_def past_insert_def install_connection_def Let_def)
next
  case (nt_clear s)
  then show ?case by (auto simp: abandoned_def past_insert_def clear_connection_def)
qed

text \<open>C16: a request lost with its target is never answered. When an agent goes away the relay only
  announces it to the bridges, and the announcement touches no call; a call whose frames are gone
  then ends only with the bridge's own connection to the relay or, for a call with a deadline, with
  that: as long as the connection lives a \<open>call\<close>, which has none, waits.\<close>

theorem lost_request_is_never_answered:
  assumes "paired h a b token" and "(net_step env h a b token)\<^sup>*\<^sup>* (new_net fs0) s"
    and "calls (nc s) i = Some Waiting" and "slot (nc s) i = None" and "\<forall>v \<in> set (down s). frame_id v \<noteq> i"
    and "\<forall>w \<in> set (up s). get w ''id'' \<noteq> Some (JInt (int i))" and "(net_step env h a b token)\<^sup>*\<^sup>* s t"
  shows "(calls (nc t) i = Some Waiting \<or> calls (nc t) i = Some (Returned (Inl (rpc_error_new CANCELLED ''request timed out''))) \<or>
      calls (nc t) i = Some (Returned (offline_error ''connection to agent lost'')) \<and>
        (\<not> reading (nc t) \<or> connection_epoch (nc s) < connection_epoch (nc t))) \<and>
    (\<forall>h' out x c. cleanup accepts h a token = (h', out) \<and> x \<in> set out \<longrightarrow> fst x = rp_conn b \<and>
       calls (receive_frame (snd x) c) = calls c \<and> slot (receive_frame (snd x) c) = slot c)"
proof
  have inv: "net_inv env fs0 s" by (rule net_steps_keep [OF assms(1,2) net_inv_new])
  have "past_insert i s" using net_invD(1) [OF inv] assms(3) unfolding client_inv_def past_insert_def
    by (metis insert_iff linorder_not_less option.distinct(1) option.inject call_phase.distinct(1) empty_iff)
  then have ab: "abandoned i (connection_epoch (nc s)) s" using assms(3-6) by (auto simp: abandoned_def)
  have "net_inv env fs0 t \<and> abandoned i (connection_epoch (nc s)) t"
    using assms(7)
  proof (induction rule: rtranclp_induct)
    case (step t u)
    then show ?case using net_step_keeps [OF _ assms(1)] net_step_abandoned [OF _ assms(1)] by blast
  qed (use inv ab in blast)
  then show "calls (nc t) i = Some Waiting \<or> calls (nc t) i = Some (Returned (Inl (rpc_error_new CANCELLED ''request timed out''))) \<or>
      calls (nc t) i = Some (Returned (offline_error ''connection to agent lost'')) \<and>
        (\<not> reading (nc t) \<or> connection_epoch (nc s) < connection_epoch (nc t))"
    unfolding abandoned_def by blast
  show "\<forall>h' out x c. cleanup accepts h a token = (h', out) \<and> x \<in> set out \<longrightarrow> fst x = rp_conn b \<and>
       calls (receive_frame (snd x) c) = calls c \<and> slot (receive_frame (snd x) c) = slot c"
    using assms(1) by (auto simp: paired_def cleanup_def peer_kind_of_def get_vec_def forward_to_bridges_def relay_send_def
        agent_gone_def receive_frame_def Let_def split: option.splits if_splits)
qed

theorem lost_request_is_never_answered_witness:
  "\<exists>s :: rpc_net. (net_step sample_env (app sample_hub) sample_agent sample_bridge ''t'')\<^sup>*\<^sup>* (new_net sample_os) s \<and>
     down s = [] \<and> up s = [] \<and> reading (nc s) \<and>
     snd (cleanup (\<lambda>_. True) (app sample_hub) sample_agent ''t'') = [(1, agent_gone ''pc'')] \<and>
     calls (receive_frame (agent_gone ''pc'') (nc s)) 1 = Some Waiting"
proof -
  let ?ps = "JObj [(''path'', JStr ''/d/f'')]"
  let ?step = "net_step sample_env (app sample_hub) sample_agent sample_bridge ''t''"
  let ?v = "request_value 1 (method_name STAT) ?ps"
  have "file_method sample_env (method_name STAT) \<noteq> None" unfolding file_method_agent by blast
  moreover have "pick_agent ?v [sample_agent] = Some sample_agent" by (simp add: pick_agent_def hint_def or_else_def)
  ultimately obtain s where s: "?step\<^sup>*\<^sup>* (new_net sample_os) s" "down s = [?v]" "up s = []"
      and c: "nc s = \<lparr>sink = Some 1, reading = True, next_id = 2, pending = {1}, slot = Map.empty, calls = [1 \<mapsto> Waiting],
        agent_id = None, connection_epoch = 1\<rparr>"
    using call_sent [OF sample_pair] by blast
  let ?t = "s\<lparr>down := [], up := []\<rparr>"
  have "?step s (s\<lparr>down := remove1 ?v (down s), up := remove1 ?v (up s)\<rparr>)" by (rule nt_lose)
  then have t: "?step\<^sup>*\<^sup>* (new_net sample_os) ?t" using s by (simp add: rtranclp.rtrancl_into_rtrancl)
  have w: "calls (nc ?t) 1 = Some Waiting" "slot (nc ?t) 1 = None" "reading (nc ?t)" using c by simp_all
  have cl: "cleanup (\<lambda>_. True) (app sample_hub) sample_agent ''t'' =
      ((app sample_hub)\<lparr>agents := (agents (app sample_hub))(''t'' := None)\<rparr>, [(1, agent_gone ''pc'')])"
    by (simp add: cleanup_def sample_hub_app sample_agent_def sample_bridge_def sample_hello_def without_def
        forward_to_bridges_def relay_send_def get_vec_def)
  have "\<forall>v \<in> set (down ?t). frame_id v \<noteq> 1" "\<forall>w \<in> set (up ?t). get w ''id'' \<noteq> Some (JInt (int 1))" by simp_all
  note lost = lost_request_is_never_answered [where accepts = "\<lambda>_. True", OF sample_pair t w(1,2) this rtranclp.rtrancl_refl]
  have "calls (receive_frame (snd (1 :: nat, agent_gone ''pc'')) (nc ?t)) = calls (nc ?t)"
    by (rule lost [THEN conjunct2, rule_format, OF conjI [OF cl], THEN conjunct2, THEN conjunct1]) simp
  then show ?thesis using t w cl by (intro exI [of _ ?t]) simp
qed

end
