(* ===== verification/Connections.thy ===== *)
theory Connections
  imports Client_Props Agent_Conn
begin

text \<open>
  The three read loops at the level of WebSocket messages: the relay's \<open>read_frame\<close> and
  \<open>handle_connection\<close> (\<open>crates/relay/src/lib.rs\<close>) and the bridge's \<open>read_loop\<close>
  (\<open>crates/bridge/src/client.rs\<close>), beside the agent's \<open>serve\<close>. A connection is the list of the
  messages it delivers; its end is a closed stream.
\<close>

section \<open>The relay's side\<close>

text \<open>\<open>None\<close>: the connection is over. The library of the relay has no raw frames.\<close>

fun relay_read_frame :: "(string \<Rightarrow> json option) \<Rightarrow> ws_message list \<Rightarrow> json option \<times> ws_message list" where
  "relay_read_frame parse [] = (None, [])"
| "relay_read_frame parse (m # ms) =
     (case m of
        Text t \<Rightarrow> (parse t, ms)
      | Binary _ \<Rightarrow> (None, ms)
      | Close \<Rightarrow> (None, ms)
      | WsFailed \<Rightarrow> (None, ms)
      | _ \<Rightarrow> relay_read_frame parse ms)"

lemma relay_read_frame_shorter:
  "relay_read_frame parse ms = (Some v, rest) \<Longrightarrow> length rest < length ms"
proof (induction ms)
  case (Cons m ms)
  then show ?case by (cases m) auto
qed simp

text \<open>The frames the read loop handles.\<close>

function relay_frames :: "(string \<Rightarrow> json option) \<Rightarrow> ws_message list \<Rightarrow> json list" where
  "relay_frames parse ms = (case relay_read_frame parse ms of
     (None, _) \<Rightarrow> [] | (Some v, rest) \<Rightarrow> v # relay_frames parse rest)"
  by auto

termination
  by (relation "measure (\<lambda>(parse, ms). length ms)") (auto dest: sym relay_read_frame_shorter)

declare relay_frames.simps [simp del]

text \<open>
  A whole connection task, when no other task changes the registries meanwhile: hello,
  registration, acknowledgement, the frames, the clean-up. \<open>keys\<close> is the iteration order of
  the map of agents.
\<close>

definition open_peer ::
  "(nat \<Rightarrow> bool) \<Rightarrow> (app_state \<Rightarrow> string list) \<Rightarrow> nat \<Rightarrow> nat \<Rightarrow> nat \<Rightarrow> nat \<Rightarrow> json \<Rightarrow> hub \<Rightarrow>
   (relay_peer \<times> string \<times> outs \<times> hub) option" where
  "open_peer accepts keys timestamp r16 r32 c v s =
     (case accept_hello (required_token (app s)) v of
        None \<Rightarrow> None
      | Some (h, token) \<Rightarrow> (case register accepts (keys (app s)) timestamp r16 r32 (app s) token h c of
          (st, p, out) \<Rightarrow> Some (p, token, out @ acknowledge accepts st token p,
            s\<lparr>app := st, live := (live s)(c \<mapsto> (p, token, True))\<rparr>)))"

definition handle_connection ::
  "(nat \<Rightarrow> bool) \<Rightarrow> (app_state \<Rightarrow> string list) \<Rightarrow> nat \<Rightarrow> nat \<Rightarrow> nat \<Rightarrow> (string \<Rightarrow> json option) \<Rightarrow> nat \<Rightarrow>
   ws_message list \<Rightarrow> hub \<Rightarrow> outs \<times> hub" where
  "handle_connection accepts keys timestamp r16 r32 parse c ms s =
     (case relay_read_frame parse ms of
        (None, _) \<Rightarrow> ([], s)
      | (Some v, rest) \<Rightarrow> (case open_peer accepts keys timestamp r16 r32 c v s of
          None \<Rightarrow> ([], s)
        | Some (p, token, out, s1) \<Rightarrow>
            (case cleanup accepts (app s1) p token of (st, gone) \<Rightarrow>
              (out @ concat (map (handle_frame accepts (keys (app s1)) (app s1) p token) (relay_frames parse rest)) @ gone,
               s1\<lparr>app := st, live := (live s1)(c := None)\<rparr>))))"

section \<open>The bridge's side\<close>

text \<open>Malformed text, binary and control messages are skipped; the outcome of a pong is ignored.\<close>

fun bridge_frames :: "(string \<Rightarrow> json option) \<Rightarrow> ws_message list \<Rightarrow> json list" where
  "bridge_frames parse [] = []"
| "bridge_frames parse (m # ms) =
     (case m of
        Text t \<Rightarrow> (case parse t of None \<Rightarrow> bridge_frames parse ms | Some v \<Rightarrow> v # bridge_frames parse ms)
      | Close \<Rightarrow> []
      | WsFailed \<Rightarrow> []
      | _ \<Rightarrow> bridge_frames parse ms)"

definition read_loop :: "(string \<Rightarrow> json option) \<Rightarrow> ws_message list \<Rightarrow> client \<Rightarrow> client" where
  "read_loop parse ms s = fail_pending (fold receive_frame (bridge_frames parse ms) s)"

text \<open>Without other tasks in between the loop is a run of the client's step relation.\<close>

lemma receive_frames_steps:
  "reading s \<Longrightarrow> client_step\<^sup>*\<^sup>* s (fold receive_frame vs s) \<and> reading (fold receive_frame vs s)"
proof (induction vs rule: rev_induct)
  case (snoc v vs)
  let ?s = "fold receive_frame vs s"
  have "client_step ?s (receive_frame v ?s)" by (rule cl_receive) (use snoc in blast)
  moreover have "reading (receive_frame v ?s)"
    using snoc by (auto simp: receive_frame_def [of v] split: option.split)
  ultimately show ?case using snoc by (auto intro: rtranclp.rtrancl_into_rtrancl)
qed simp

lemma read_loop_steps: "reading s \<Longrightarrow> client_step\<^sup>*\<^sup>* s (read_loop parse ms s)"
  unfolding read_loop_def using receive_frames_steps [of s] cl_read_end by (meson rtranclp.rtrancl_into_rtrancl)

section \<open>A call by itself\<close>

text \<open>\<open>call\<close> from start to end when no other task touches the client but the read loop, which
  receives the frames \<open>vs\<close> meanwhile. \<open>None\<close>: it still waits.\<close>

definition call_alone :: "bool \<Rightarrow> json list \<Rightarrow> client \<Rightarrow> call_result option \<times> client" where
  "call_alone ok vs s = (case start_call s of (i, s1) \<Rightarrow>
     (let s2 = send_call ok i s1 in
      case calls s2 i of
        Some (Returned r) \<Rightarrow> (Some r, s2)
      | _ \<Rightarrow> (let s3 = finish_call i (fold receive_frame vs s2) in
          (case calls s3 i of Some (Returned r) \<Rightarrow> (Some r, s3) | _ \<Rightarrow> (None, s3)))))"

definition answers_call :: "nat \<Rightarrow> json \<Rightarrow> bool" where
  "answers_call i v \<longleftrightarrow> Option.bind (get v ''id'') as_u64 = Some i"

lemma calls_receive_frame [simp]: "calls (receive_frame v s) = calls s"
  by (auto simp: receive_frame_def split: option.split)

lemma calls_receive_frames [simp]: "calls (fold receive_frame vs s) = calls s"
  by (induction vs arbitrary: s) simp_all

lemma slot_kept: "i \<notin> pending s \<Longrightarrow> slot (fold receive_frame vs s) i = slot s i"
proof (induction vs arbitrary: s)
  case (Cons v vs)
  have "i \<notin> pending (receive_frame v s) \<and> slot (receive_frame v s) i = slot s i"
    using Cons.prems by (auto simp: receive_frame_def split: option.split)
  then show ?case using Cons.IH [of "receive_frame v s"] by simp
qed simp

lemma slot_first_answer:
  "i \<in> pending s \<Longrightarrow> slot s i = None \<Longrightarrow>
   slot (fold receive_frame vs s) i = map_option response_result (find (answers_call i) vs)"
proof (induction vs arbitrary: s)
  case (Cons v vs)
  show ?case
  proof (cases "answers_call i v")
    case True
    then have "i \<notin> pending (receive_frame v s)" "slot (receive_frame v s) i = Some (response_result v)"
      using Cons.prems by (simp_all add: receive_frame_def answers_call_def)
    then show ?thesis using slot_kept True by simp
  next
    case False
    then have "i \<in> pending (receive_frame v s)" "slot (receive_frame v s) i = None"
      using Cons.prems by (auto simp: receive_frame_def answers_call_def split: option.split)
    then show ?thesis using Cons.IH False by simp
  qed
qed simp

text \<open>What \<open>call\<close> returns: offline without a connection, a failed send as such, else the result in
  the first frame under its own number, whatever frames come before and after; when no such frame
  comes it does not return.\<close>

theorem call_returns_first_answer:
  assumes "client_step\<^sup>*\<^sup>* new_client s" and "next_id s + 1 < 2 ^ 64"
  shows "fst (call_alone ok vs s) =
    (if sink s = None then Some (offline_error ''relay connection offline (reconnecting)'')
     else if \<not> ok then Some (Inl (rpc_error_new INTERNAL_ERROR ''send failed''))
     else map_option response_result (find (answers_call (next_id s)) vs))"
proof -
  let ?i = "next_id s"
  have fresh: "slot s ?i = None" using reachable_client_inv [OF assms(1)] by (simp add: client_inv_def)
  obtain t where t: "start_call s = (?i, t)" "calls t ?i = Some Inserted" "slot t = slot s" "?i \<in> pending t" "sink t = sink s"
    by (simp add: start_call_def Let_def)
  show ?thesis
  proof (cases "sink s = None \<or> \<not> ok")
    case True
    then show ?thesis using t(5) by (auto simp: call_alone_def t(1) send_call_def split: option.split)
  next
    case False
    let ?u = "t\<lparr>calls := (calls t)(?i \<mapsto> Waiting)\<rparr>"
    have ok: "ok = True" and u: "send_call True ?i t = ?u" using False t(5) by (auto simp: send_call_def)
    have "slot (fold receive_frame vs ?u) ?i = map_option response_result (find (answers_call ?i) vs)"
      by (rule slot_first_answer) (use t fresh in simp_all)
    then show ?thesis using False
      by (auto simp: call_alone_def t(1) ok u finish_call_def Let_def split: option.split)
  qed
qed

theorem call_returns_first_answer_witness:
  "fst (call_alone True [response_value 7 (Some JNull) None, response_value 1 (Some (JBool True)) None] (install_connection None new_client)) =
     Some (Inr (JBool True))"
proof -
  let ?s = "install_connection None new_client"
  have "client_step new_client ?s" by (rule cl_install) (simp add: new_client_def)
  then have r: "client_step\<^sup>*\<^sup>* new_client ?s" by blast
  have s: "next_id ?s = 1" "sink ?s = Some 1" by (simp_all add: install_connection_def new_client_def Let_def)
  show ?thesis
    using call_returns_first_answer [OF r, of True "[response_value 7 (Some JNull) None, response_value 1 (Some (JBool True)) None]"]
    by (simp add: s answers_call_def response_result_def as_u64_def)
qed

section \<open>The loops agree\<close>

definition malformed :: "(string \<Rightarrow> json option) \<Rightarrow> ws_message \<Rightarrow> bool" where
  "malformed parse m = (case m of Text t \<Rightarrow> parse t = None | Binary _ \<Rightarrow> True | _ \<Rightarrow> False)"

lemma relay_frames_Cons:
  "relay_frames parse (m # ms) =
     (case m of
        Text t \<Rightarrow> (case parse t of None \<Rightarrow> [] | Some v \<Rightarrow> v # relay_frames parse ms)
      | Binary _ \<Rightarrow> [] | Close \<Rightarrow> [] | WsFailed \<Rightarrow> [] | _ \<Rightarrow> relay_frames parse ms)"
  by (subst relay_frames.simps, cases m)
    (simp_all add: relay_frames.simps [of parse ms] split: option.split)

lemma relay_frames_Nil [simp]: "relay_frames parse [] = []"
  by (subst relay_frames.simps) simp

text \<open>What a peer sent: the values of its text messages, up to the end of the stream.\<close>

definition sent_frames :: "(string \<Rightarrow> json option) \<Rightarrow> ws_message list \<Rightarrow> json list" where
  "sent_frames parse ms = List.map_filter (\<lambda>m. case m of Text t \<Rightarrow> parse t | _ \<Rightarrow> None)
     (takeWhile (\<lambda>m. m \<noteq> Close \<and> m \<noteq> WsFailed) ms)"

text \<open>The contract of a read loop, and what follows for every reader that keeps it.\<close>

locale frame_reader =
  fixes frames :: "(string \<Rightarrow> json option) \<Rightarrow> ws_message list \<Rightarrow> json list"
  assumes no_message: "frames parse [] = []"
    and text_message: "parse t = Some v \<Longrightarrow> frames parse (Text t # ms) = v # frames parse ms"
    and control_message: "m \<in> {Ping, Pong, RawFrame} \<Longrightarrow> frames parse (m # ms) = frames parse ms"
    and end_message: "m \<in> {Close, WsFailed} \<Longrightarrow> frames parse (m # ms) = []"
begin

lemma delivers_sent:
  "\<forall>m \<in> set ms. \<not> malformed parse m \<Longrightarrow> frames parse ms = sent_frames parse ms"
proof (induction ms)
  case (Cons m ms)
  then show ?case
    by (cases m) (auto simp: malformed_def sent_frames_def List.map_filter_simps text_message control_message end_message)
qed (simp add: no_message sent_frames_def List.map_filter_simps)

end

interpretation relay_reader: frame_reader relay_frames
  by unfold_locales (auto simp: relay_frames_Cons)

interpretation bridge_reader: frame_reader bridge_frames
  by unfold_locales auto

interpretation agent_reader: frame_reader "\<lambda>parse ms. fst (serve parse (map (\<lambda>m. (m, True)) ms))"
  by unfold_locales (auto split: prod.split)

lemma relay_stops_at_malformed: "relay_frames parse ms = relay_frames parse (takeWhile (\<lambda>m. \<not> malformed parse m) ms)"
proof (induction ms)
  case (Cons m ms)
  then show ?case by (cases m) (auto simp: relay_frames_Cons malformed_def split: option.split)
qed simp

lemma bridge_skips_malformed: "bridge_frames parse ms = bridge_frames parse (filter (\<lambda>m. \<not> malformed parse m) ms)"
proof (induction ms)
  case (Cons m ms)
  then show ?case by (cases m) (auto simp: malformed_def split: option.split)
qed simp

lemma agent_skips_malformed:
  "fst (serve parse (map (\<lambda>m. (m, True)) ms)) = fst (serve parse (map (\<lambda>m. (m, True)) (filter (\<lambda>m. \<not> malformed parse m) ms)))"
proof (induction ms)
  case (Cons m ms)
  then show ?case by (cases m) (auto simp: malformed_def split: option.split prod.splits)
qed simp

text \<open>C40: the read loops of relay, bridge and agent deliver what was sent, in order, and differ only on
  malformed messages: the bridge and the agent skip one, for the relay it is the end of the
  connection. (The agent's loop also ends at a ping it cannot answer.)\<close>

theorem read_loops_agree:
  "relay_frames parse ms = sent_frames parse (takeWhile (\<lambda>m. \<not> malformed parse m) ms) \<and>
   bridge_frames parse ms = sent_frames parse (filter (\<lambda>m. \<not> malformed parse m) ms) \<and>
   fst (serve parse (map (\<lambda>m. (m, True)) ms)) = sent_frames parse (filter (\<lambda>m. \<not> malformed parse m) ms)"
proof (intro conjI)
  have "relay_frames parse (takeWhile (\<lambda>m. \<not> malformed parse m) ms) = sent_frames parse (takeWhile (\<lambda>m. \<not> malformed parse m) ms)"
    by (rule relay_reader.delivers_sent) (blast dest: set_takeWhileD)
  with relay_stops_at_malformed
  show "relay_frames parse ms = sent_frames parse (takeWhile (\<lambda>m. \<not> malformed parse m) ms)" by (rule trans)
  have "bridge_frames parse (filter (\<lambda>m. \<not> malformed parse m) ms) = sent_frames parse (filter (\<lambda>m. \<not> malformed parse m) ms)"
    by (rule bridge_reader.delivers_sent) simp
  with bridge_skips_malformed
  show "bridge_frames parse ms = sent_frames parse (filter (\<lambda>m. \<not> malformed parse m) ms)" by (rule trans)
  have "fst (serve parse (map (\<lambda>m. (m, True)) (filter (\<lambda>m. \<not> malformed parse m) ms))) =
      sent_frames parse (filter (\<lambda>m. \<not> malformed parse m) ms)"
    by (rule agent_reader.delivers_sent) simp
  with agent_skips_malformed
  show "fst (serve parse (map (\<lambda>m. (m, True)) ms)) = sent_frames parse (filter (\<lambda>m. \<not> malformed parse m) ms)" by (rule trans)
qed

section \<open>One connection on the hub\<close>

lemma open_peer_moves:
  assumes "live s c = None" and "set (keys (app s)) = dom (agents (app s))"
    and "open_peer accepts keys timestamp r16 r32 c v s = Some (p, token, out, s1)"
  shows "hub_moves\<^sup>*\<^sup>* s s1" and "live s1 = (live s)(c \<mapsto> (p, token, True))" and "rp_conn p = c"
    and "get_vec (registry k (app s1)) t = (if k = peer_kind_of p \<and> t = token
      then get_vec (registry k (app s)) t @ [p] else get_vec (registry k (app s)) t)"
proof -
  obtain h st out1 where h: "accept_hello (required_token (app s)) v = Some (h, token)"
    and r: "register accepts (keys (app s)) timestamp r16 r32 (app s) token h c = (st, p, out1)"
    and s1: "s1 = s\<lparr>app := st, live := (live s)(c \<mapsto> (p, token, True))\<rparr>"
    using assms(3) by (auto simp: open_peer_def split: option.splits prod.splits)
  note e = register_effect [OF r]
  define mid where "mid = s\<lparr>app := st, live := (live s)(c \<mapsto> (p, token, False))\<rparr>"
  have m: "hub_moves s mid"
    unfolding hub_moves_def mid_def by (rule exI, rule hub_register [OF _ h assms(2) r]) (use assms(1) in auto)
  have "hub_moves mid (mid\<lparr>live := (live mid)(c \<mapsto> (p, token, True))\<rparr>)"
    unfolding hub_moves_def by (rule exI, rule hub_ack) (simp add: mid_def)
  moreover have "mid\<lparr>live := (live mid)(c \<mapsto> (p, token, True))\<rparr> = s1" by (simp add: mid_def s1)
  ultimately show "hub_moves\<^sup>*\<^sup>* s s1" using m by (metis (no_types) rtranclp.simps)
  show "live s1 = (live s)(c \<mapsto> (p, token, True))" by (simp add: s1)
  show "rp_conn p = c" by (rule e(1))
  show "get_vec (registry k (app s1)) t = (if k = peer_kind_of p \<and> t = token
      then get_vec (registry k (app s)) t @ [p] else get_vec (registry k (app s)) t)"
    using e(5) [of k t] by (simp add: s1 e(2))
qed

text \<open>A connection leaves no trace on the hub. Whatever messages it delivers, malformed ones and
  a refused hello included, its task is a run of the hub's steps, ends, and leaves the live
  connections and every token's registered peers as they were.\<close>

theorem connection_leaves_no_trace:
  assumes "hub_moves\<^sup>*\<^sup>* (new_hub required) s" and "live s c = None" and "set (keys (app s)) = dom (agents (app s))"
    and "handle_connection accepts keys timestamp r16 r32 parse c ms s = (out, s')"
  shows "hub_moves\<^sup>*\<^sup>* s s' \<and> live s' = live s \<and> get_vec (registry k (app s')) t = get_vec (registry k (app s)) t"
proof (cases "s' = s")
  case False
  then obtain v rest p token out1 s1 where o: "open_peer accepts keys timestamp r16 r32 c v s = Some (p, token, out1, s1)"
    and s': "s' = s1\<lparr>app := fst (cleanup accepts (app s1) p token), live := (live s1)(c := None)\<rparr>"
    using assms(4) by (auto simp: handle_connection_def split: prod.splits option.splits)
  note e = open_peer_moves [OF assms(2,3) o]
  obtain st gone where cl: "cleanup accepts (app s1) p token = (st, gone)" by fastforce
  have "hub_moves s1 s'"
    unfolding hub_moves_def s' cl fst_conv by (rule exI, rule hub_close [OF _ cl]) (simp add: e(2))
  with e(1) have "hub_moves\<^sup>*\<^sup>* s s'" by (rule rtranclp.rtrancl_into_rtrancl)
  moreover have "live s' = live s" using e(2) assms(2) by (auto simp: s')
  moreover have "c \<notin> rp_conn ` set (get_vec (registry k (app s)) t)" for k t
    using hub_invD(2) [OF reachable_hub_inv [OF assms(1)], of _ k t] assms(2) by auto
  then have "without p (get_vec (registry k (app s)) t) = get_vec (registry k (app s)) t" for k t
    unfolding without_def e(3) by (intro filter_True) (auto simp: image_iff)
  then have "get_vec (registry k (app s')) t = get_vec (registry k (app s)) t"
    using cleanup_effect(2) [OF cl, of k t] e(4) [of k t] by (auto simp: s' cl without_def)
  ultimately show ?thesis by blast
qed simp

theorem connection_leaves_no_trace_witness:
  "get_vec (bridges (app (snd (handle_connection (\<lambda>_. True) (\<lambda>_. [''t'', ''u'']) 0 0 3
      (\<lambda>_. Some (hello_json (sample_hello Bridge ''b2'' ''t''))) 5 [Ping, Text ''hello'', Binary []] sample_hub)))) ''t'' = [sample_bridge]"
proof -
  let ?h = "handle_connection (\<lambda>_. True) (\<lambda>_. [''t'', ''u'']) 0 0 3
      (\<lambda>_. Some (hello_json (sample_hello Bridge ''b2'' ''t''))) 5 [Ping, Text ''hello'', Binary []] sample_hub"
  obtain out s' where h: "?h = (out, s')" by fastforce
  have "set [''t'', ''u''] = dom (agents (app sample_hub))" by (auto simp: sample_hub_app split: if_splits)
  moreover have "live sample_hub 5 = None" by (simp add: sample_hub_def Let_def split: prod.split)
  ultimately show ?thesis
    using connection_leaves_no_trace [OF sample_hub_reachable _ _ h, of Bridge "''t''"] h
    by (simp add: sample_hub_app get_vec_def)
qed

end
