(* ===== verification/Supervisor.thy ===== *)
theory Supervisor
  imports Client
begin

text \<open>
  The loops that keep the program connected: the reconnect schedule shared by the agent's
  \<open>run\<close> (\<open>crates/agent/src/lib.rs\<close>) and the bridge's \<open>supervisor\<close>
  (\<open>crates/bridge/src/client.rs\<close>), and the keepalive task each connection of the bridge spawns.
  A keepalive task is stopped only by looking at the connection's generation, so an old one can
  still be between its look and its ping when the next connection is installed.
\<close>

section \<open>Retrying\<close>

definition LONG_LIVED :: nat where "LONG_LIVED = 30 * 1000"

text \<open>After an attempt that took \<open>elapsed\<close> ms, whether it failed or served for a while.\<close>

definition after_attempt :: "nat \<Rightarrow> reconnect_backoff \<Rightarrow> nat \<times> reconnect_backoff" where
  "after_attempt elapsed b = next_delay (if LONG_LIVED \<le> elapsed then reset_backoff b else b)"

fun retry_delays :: "nat list \<Rightarrow> reconnect_backoff \<Rightarrow> nat list" where
  "retry_delays [] b = []"
| "retry_delays (t # ts) b = (case after_attempt t b of (d, b') \<Rightarrow> d # retry_delays ts b')"

definition agent_backoff :: "64 word \<Rightarrow> reconnect_backoff" where
  "agent_backoff reconnect_secs = new_backoff (max (unat reconnect_secs) 1 * 1000)"

definition bridge_backoff :: reconnect_backoff where
  "bridge_backoff = new_backoff 5000"

definition short_attempts :: "nat list \<Rightarrow> nat" where
  "short_attempts ts = length (takeWhile (\<lambda>t. t < LONG_LIVED) (rev ts))"

definition backoff_inv :: "nat \<Rightarrow> reconnect_backoff \<Rightarrow> bool" where
  "backoff_inv k b \<longleftrightarrow> next_ms b = min (BACKOFF_INITIAL * 2 ^ k) (max_ms b)"

lemma after_attempt_inv:
  assumes "backoff_inv k b" and "after_attempt t b = (d, b')"
  shows "max_ms b' = max_ms b"
    and "d = min (BACKOFF_INITIAL * 2 ^ (if LONG_LIVED \<le> t then 0 else k)) (max_ms b)"
    and "backoff_inv (if LONG_LIVED \<le> t then 1 else Suc k) b'"
  using assms by (auto simp: backoff_inv_def after_attempt_def next_delay_def reset_backoff_def min_def)

definition backoff_after :: "nat list \<Rightarrow> reconnect_backoff \<Rightarrow> reconnect_backoff" where
  "backoff_after ts b = fold (\<lambda>t b. snd (after_attempt t b)) ts b"

lemma retry_delays_nth:
  "i < length ts \<Longrightarrow> retry_delays ts b ! i = fst (after_attempt (ts ! i) (backoff_after (take i ts) b))"
proof (induction ts arbitrary: b i)
  case (Cons t ts)
  then show ?case by (cases i) (simp_all add: backoff_after_def split: prod.split)
qed simp

lemma short_attempts_snoc [simp]:
  "short_attempts (ts @ [t]) = (if LONG_LIVED \<le> t then 0 else Suc (short_attempts ts))"
  by (simp add: short_attempts_def)

lemma backoff_after_inv:
  assumes "backoff_inv 0 b"
  shows "backoff_inv (if ts = [] then 0 else Suc (short_attempts (tl ts))) (backoff_after ts b) \<and>
    max_ms (backoff_after ts b) = max_ms b"
proof (induction ts rule: rev_induct)
  case Nil
  then show ?case using assms by (simp add: backoff_after_def)
next
  case (snoc t ts)
  obtain d b' where a: "after_attempt t (backoff_after ts b) = (d, b')" by fastforce
  then have b': "backoff_after (ts @ [t]) b = b'" by (simp add: backoff_after_def)
  show ?case
  proof (cases "ts = []")
    case True
    then show ?thesis using after_attempt_inv [OF snoc [THEN conjunct1] a] snoc b'
      by (simp add: short_attempts_def split: if_splits)
  next
    case False
    then show ?thesis using after_attempt_inv [OF snoc [THEN conjunct1] a] snoc b'
      by (simp split: if_splits)
  qed
qed

text \<open>The wait before the next attempt, on the agent and on the bridge: 250 ms doubled once for every
  attempt of less than 30 s in an unbroken row up to now (the first attempt of all is not
  counted), at most the maximum. A connection that lived 30 s resets the row.\<close>

theorem retry_waits_double:
  assumes "i < length ts"
  shows "retry_delays ts (agent_backoff secs) ! i =
      min (250 * 2 ^ short_attempts (tl (take (Suc i) ts))) (max (unat secs) 1 * 1000) \<and>
    retry_delays ts bridge_backoff ! i = min (250 * 2 ^ short_attempts (tl (take (Suc i) ts))) 5000"
proof -
  have "retry_delays ts b ! i = min (250 * 2 ^ short_attempts (tl (take (Suc i) ts))) (max_ms b)"
    if b: "backoff_inv 0 b" for b
  proof -
    note inv = backoff_after_inv [OF b, of "take i ts"]
    obtain d b' where a: "after_attempt (ts ! i) (backoff_after (take i ts) b) = (d, b')" by fastforce
    have "take (Suc i) ts = take i ts @ [ts ! i]" using assms by (rule take_Suc_conv_app_nth)
    then show ?thesis
      using after_attempt_inv(2) [OF inv [THEN conjunct1] a] inv a assms
      by (cases "take i ts = []") (auto simp: retry_delays_nth BACKOFF_INITIAL_def short_attempts_def split: if_splits)
  qed
  then show ?thesis
    by (simp add: agent_backoff_def bridge_backoff_def new_backoff_def backoff_inv_def BACKOFF_INITIAL_def)
qed

theorem retry_waits_double_witness:
  "retry_delays [10, 10, 40000, 10] (agent_backoff 0) ! 3 = 500 \<and> retry_delays [10, 10, 40000, 10] bridge_backoff ! 3 = 500"
  using retry_waits_double [of 3 "[10, 10, 40000, 10]" 0]
  by (simp add: short_attempts_def LONG_LIVED_def)

section \<open>Keepalive\<close>

text \<open>A task is named by its generation. \<open>Checked\<close>: it has seen its generation as the current one
  and goes on to take the sink's lock. \<open>pings\<close> lists who pinged on which connection.\<close>

datatype keepalive = Ticking | Checked

record kept =
  kc :: client
  keepers :: "nat \<rightharpoonup> keepalive"
  pings :: "(nat \<times> nat) list"

definition new_kept :: kept where
  "new_kept = \<lparr>kc = new_client, keepers = Map.empty, pings = []\<rparr>"

definition connect_kept :: "string option \<Rightarrow> kept \<Rightarrow> kept" where
  "connect_kept a s = (let c = install_connection a (kc s) in
     s\<lparr>kc := c, keepers := (keepers s)(connection_epoch c \<mapsto> Ticking)\<rparr>)"

text \<open>A look at the generation, before or after the tick.\<close>

definition keeper_look :: "nat \<Rightarrow> kept \<Rightarrow> kept" where
  "keeper_look e s =
     (if connection_epoch (kc s) = e then s\<lparr>keepers := (keepers s)(e \<mapsto> Checked)\<rparr>
      else s\<lparr>keepers := (keepers s)(e := None)\<rparr>)"

definition keeper_ping :: "bool \<Rightarrow> nat \<Rightarrow> kept \<Rightarrow> kept" where
  "keeper_ping ok e s = (case sink (kc s) of
     None \<Rightarrow> s\<lparr>keepers := (keepers s)(e := None)\<rparr>
   | Some c \<Rightarrow>
       if ok then s\<lparr>keepers := (keepers s)(e \<mapsto> Ticking), pings := pings s @ [(e, c)]\<rparr>
       else s\<lparr>keepers := (keepers s)(e := None)\<rparr>)"

inductive kept_step :: "kept \<Rightarrow> kept \<Rightarrow> bool" where
  kp_client: "client_step (kc s) c \<Longrightarrow> connection_epoch c = connection_epoch (kc s) \<Longrightarrow> kept_step s (s\<lparr>kc := c\<rparr>)"
| kp_connect: "sink (kc s) = None \<Longrightarrow> kept_step s (connect_kept a s)"
| kp_lost: "sink (kc s) \<noteq> None \<Longrightarrow> \<not> reading (kc s) \<Longrightarrow> kept_step s (s\<lparr>kc := clear_connection (kc s)\<rparr>)"
| kp_look: "keepers s e = Some Ticking \<Longrightarrow> kept_step s (keeper_look e s)"
| kp_ping: "keepers s e = Some Checked \<Longrightarrow> kept_step s (keeper_ping ok e s)"

definition strays :: "nat \<Rightarrow> kept \<Rightarrow> nat" where
  "strays e s = length (filter (\<lambda>(x, c). x = e \<and> c \<noteq> e) (pings s))"

definition kept_inv :: "kept \<Rightarrow> bool" where
  "kept_inv s \<longleftrightarrow> (\<forall>c. sink (kc s) = Some c \<longrightarrow> c = connection_epoch (kc s)) \<and>
     (\<forall>e. keepers s e \<noteq> None \<longrightarrow> e \<le> connection_epoch (kc s)) \<and>
     (\<forall>(e, c) \<in> set (pings s). e \<le> c \<and> c \<le> connection_epoch (kc s)) \<and>
     (\<forall>e. strays e s \<le> 1 \<and> (strays e s = 1 \<longrightarrow> keepers s e \<noteq> Some Checked \<and> e < connection_epoch (kc s)))"

lemma client_step_same_epoch:
  "client_step s c \<Longrightarrow> connection_epoch c = connection_epoch s \<Longrightarrow> sink c = sink s"
  by (induction rule: client_step.induct)
    (auto simp: start_call_def send_call_def finish_call_def expire_call_def receive_frame_def note_agent_def
      fail_pending_def install_connection_def clear_connection_def Let_def split: option.splits)

lemma keeper_ping_keeps:
  assumes "kept_inv s" and "keepers s e = Some Checked"
  shows "kept_inv (keeper_ping ok e s)"
proof (cases "sink (kc s)")
  case None
  then show ?thesis using assms by (auto simp: kept_inv_def keeper_ping_def strays_def)
next
  case (Some c)
  have c: "c = connection_epoch (kc s)" "e \<le> c" using assms Some by (auto simp: kept_inv_def)
  have "strays e s = 0" using assms by (auto simp: kept_inv_def le_Suc_eq)
  moreover have "strays x (keeper_ping True e s) = (if x = e \<and> c \<noteq> e then Suc (strays x s) else strays x s)" for x
    by (simp add: keeper_ping_def Some strays_def)
  ultimately have t: "kept_inv (keeper_ping True e s)"
    using assms c Some by (auto simp: kept_inv_def keeper_ping_def split: if_splits)
  show ?thesis
  proof (cases ok)
    case False
    then show ?thesis using assms Some by (auto simp: kept_inv_def keeper_ping_def strays_def)
  qed (use t in simp)
qed

lemma kept_step_keeps: "kept_step s t \<Longrightarrow> kept_inv s \<Longrightarrow> kept_inv t"
proof (induction rule: kept_step.induct)
  case (kp_client s c)
  then show ?case using client_step_same_epoch [OF kp_client(1,2)] by (simp add: kept_inv_def strays_def)
next
  case (kp_connect s a)
  then show ?case
    by (auto simp: kept_inv_def connect_kept_def install_connection_def strays_def Let_def le_SucI less_SucI)
next
  case (kp_lost s)
  then show ?case by (auto simp: kept_inv_def clear_connection_def strays_def le_SucI less_SucI)
next
  case (kp_look s e)
  then show ?case by (auto simp: kept_inv_def keeper_look_def strays_def)
next
  case (kp_ping s e ok)
  then show ?case by (simp add: keeper_ping_keeps)
qed

interpretation keepalive: step_invariant kept_step kept_inv
  by unfold_locales (rule kept_step_keeps)

text \<open>Keepalive tasks stay with their connection: a ping goes out on the connection of its own task
  or, at most once in the life of a task, on a later one, when the connection was replaced
  between the task's look at the generation and its turn at the sink.\<close>

theorem keepalive_leaves_once:
  assumes "kept_step\<^sup>*\<^sup>* new_kept s"
  shows "(\<forall>(e, c) \<in> set (pings s). e \<le> c) \<and> length (filter (\<lambda>(x, c). x = e \<and> c \<noteq> e) (pings s)) \<le> 1"
proof -
  have "kept_inv new_kept" by (simp add: kept_inv_def new_kept_def new_client_def strays_def)
  from keepalive.steps_keep [OF assms this] show ?thesis by (auto simp: kept_inv_def strays_def)
qed

definition stray_run :: kept where
  "stray_run = (let s = keeper_look 1 (connect_kept None new_kept); t = s\<lparr>kc := fail_pending (kc s)\<rparr>;
     u = t\<lparr>kc := clear_connection (kc t)\<rparr> in keeper_ping True 1 (connect_kept None u))"

lemma stray_run_steps: "kept_step\<^sup>*\<^sup>* new_kept stray_run \<and> pings stray_run = [(1, 3)]"
proof -
  let ?a = "connect_kept None new_kept"
  let ?s = "keeper_look 1 ?a"
  let ?t = "?s\<lparr>kc := fail_pending (kc ?s)\<rparr>"
  let ?u = "?t\<lparr>kc := clear_connection (kc ?t)\<rparr>"
  let ?v = "connect_kept None ?u"
  note defs = connect_kept_def keeper_look_def keeper_ping_def install_connection_def fail_pending_def
    clear_connection_def new_kept_def new_client_def Let_def
  have "kept_step new_kept ?a" by (rule kp_connect) (simp add: defs)
  moreover have "kept_step ?a ?s" by (rule kp_look) (simp add: defs)
  moreover have "kept_step ?s ?t" by (rule kp_client [OF cl_read_end]) (simp_all add: defs)
  moreover have "kept_step ?t ?u" by (rule kp_lost) (simp_all add: defs)
  moreover have "kept_step ?u ?v" by (rule kp_connect) (simp add: defs)
  moreover have "kept_step ?v (keeper_ping True 1 ?v)" by (rule kp_ping) (simp add: defs)
  ultimately have "kept_step\<^sup>*\<^sup>* new_kept (keeper_ping True 1 ?v)"
    by (meson rtranclp.rtrancl_into_rtrancl rtranclp.rtrancl_refl)
  then show ?thesis unfolding stray_run_def Let_def by (simp add: defs)
qed

theorem keepalive_leaves_once_witness:
  "pings stray_run = [(1, 3)] \<and> length (filter (\<lambda>(x, c). x = 1 \<and> c \<noteq> 1) (pings stray_run)) \<le> 1"
  using keepalive_leaves_once [OF stray_run_steps [THEN conjunct1], of 1] stray_run_steps by simp

end
