(* ===== verification/Bridge_Run.thy ===== *)
theory Bridge_Run
  imports Connections Supervisor
begin

text \<open>
  The bridge in stdio mode (\<open>run\<close> and \<open>serve_once\<close> of \<open>crates/bridge/src/lib.rs\<close>, with the
  hello of \<open>open_connection\<close> in \<open>client.rs\<close>). Every round makes a client of its own, whose
  supervisor is a detached task: it connects to the relay, keeps that connection and reconnects,
  and nothing ever stops it. The round itself ends when the MCP session on stdio does, or when it
  cannot start because stdin is at its end. Then the loop waits and goes round again.
\<close>

section \<open>Rounds\<close>

definition bridge_hello :: "string \<Rightarrow> string \<Rightarrow> string \<Rightarrow> hello" where
  "bridge_hello token id' name = \<lparr>hello_kind = Bridge, hello_id = id', hello_name = name, hello_token = Some token\<rparr>"

text \<open>How the MCP session of a round went; both ends let the loop go on.\<close>

datatype stdio_outcome = ServingFailed | SessionEnded

definition RECONNECT_SECS :: nat where "RECONNECT_SECS = 5"

text \<open>The process and the relay: the clients made so far (newest last), the hub, the milliseconds
  gone by. The relay is reachable and its other connections rest.\<close>

record bridge_process =
  supervised :: "client list"
  relay_hub :: hub
  clock_ms :: nat

text \<open>
  One round, connected under number \<open>c\<close> with session number \<open>r\<close>. A relay that refuses the
  hello closes the connection: the supervisor retries, the round goes on without it. \<open>ack\<close> is
  the agent named by the acknowledgement. The wait for the connection is at most 15 s.
\<close>

definition serve_once ::
  "string \<Rightarrow> string \<Rightarrow> string \<Rightarrow> string list \<Rightarrow> nat \<times> nat \<times> string option \<times> nat \<times> stdio_outcome \<Rightarrow>
   bridge_process \<Rightarrow> stdio_outcome \<times> bridge_process" where
  "serve_once token id' name keys round s = (case round of (c, r, ack, served, outcome) \<Rightarrow>
     (case open_peer (\<lambda>_. True) (\<lambda>_. keys) 0 0 r c (hello_json (bridge_hello token id' name)) (relay_hub s) of
        None \<Rightarrow> (outcome, s\<lparr>supervised := supervised s @ [new_client], clock_ms := clock_ms s + 15000 + served\<rparr>)
      | Some (_, _, _, h) \<Rightarrow> (outcome, s\<lparr>supervised := supervised s @ [install_connection ack new_client],
            relay_hub := h, clock_ms := clock_ms s + served\<rparr>)))"

text \<open>The loop has no exit; these are its first rounds.\<close>

fun bridge_run ::
  "string \<Rightarrow> string \<Rightarrow> string \<Rightarrow> string list \<Rightarrow>
   (nat \<times> nat \<times> string option \<times> nat \<times> stdio_outcome) list \<Rightarrow> bridge_process \<Rightarrow> bridge_process" where
  "bridge_run token id' name keys [] s = s"
| "bridge_run token id' name keys (round # rounds) s =
     (case serve_once token id' name keys round s of
        (_, s1) \<Rightarrow> bridge_run token id' name keys rounds (s1\<lparr>clock_ms := clock_ms s1 + RECONNECT_SECS * 1000\<rparr>))"

section \<open>What a round adds\<close>

lemma bridge_hello_opens:
  assumes "token \<noteq> []" and "required_token (app s) = None \<or> required_token (app s) = Some token"
  shows "\<exists>p out h. open_peer accepts keys timestamp r16 r c (hello_json (bridge_hello token id' name)) s = Some (p, token, out, h) \<and>
    peer_kind_of p = Bridge \<and> agents (app h) = agents (app s) \<and> required_token (app h) = required_token (app s)"
proof -
  have "accept_hello (required_token (app s)) (hello_json (bridge_hello token id' name)) = Some (bridge_hello token id' name, token)"
    using assms by (simp add: accept_hello_iff hello_roundtrip bridge_hello_def)
  then show ?thesis
    by (auto simp: open_peer_def register_def register_bridge_def bridge_hello_def peer_kind_of_def Let_def)
qed

lemma serve_once_adds:
  assumes "token \<noteq> []" and "required_token (app (relay_hub s)) = None \<or> required_token (app (relay_hub s)) = Some token"
    and "live (relay_hub s) (fst round) = None" and "set keys = dom (agents (app (relay_hub s)))"
    and "serve_once token id' name keys round s = (outcome, t)"
  shows "hub_moves\<^sup>*\<^sup>* (relay_hub s) (relay_hub t)" and "length (supervised t) = Suc (length (supervised s))"
    and "map rp_conn (get_vec (bridges (app (relay_hub t))) token) =
      map rp_conn (get_vec (bridges (app (relay_hub s))) token) @ [fst round]"
    and "agents (app (relay_hub t)) = agents (app (relay_hub s))"
    and "required_token (app (relay_hub t)) = required_token (app (relay_hub s))"
    and "c \<noteq> fst round \<Longrightarrow> live (relay_hub t) c = live (relay_hub s) c" and "clock_ms s \<le> clock_ms t"
proof -
  obtain c r ack served e where round: "round = (c, r, ack, served, e)" by (metis prod.exhaust)
  obtain p out h where o: "open_peer (\<lambda>_. True) (\<lambda>_. keys) 0 0 r c (hello_json (bridge_hello token id' name)) (relay_hub s) =
      Some (p, token, out, h)" and p: "peer_kind_of p = Bridge" "agents (app h) = agents (app (relay_hub s))"
      "required_token (app h) = required_token (app (relay_hub s))"
    using bridge_hello_opens [OF assms(1,2)] by blast
  have t: "t = s\<lparr>supervised := supervised s @ [install_connection ack new_client], relay_hub := h, clock_ms := clock_ms s + served\<rparr>"
    using assms(5) o by (simp add: serve_once_def round)
  note m = open_peer_moves [OF assms(3) [unfolded round fst_conv] assms(4) o]
  show "hub_moves\<^sup>*\<^sup>* (relay_hub s) (relay_hub t)" using m(1) by (simp add: t)
  show "map rp_conn (get_vec (bridges (app (relay_hub t))) token) =
      map rp_conn (get_vec (bridges (app (relay_hub s))) token) @ [fst round]"
    using m(3) m(4) [of Bridge token] p(1) by (simp add: t round)
  show "c' \<noteq> fst round \<Longrightarrow> live (relay_hub t) c' = live (relay_hub s) c'" for c' by (simp add: t m(2) round)
  show "length (supervised t) = Suc (length (supervised s))" "agents (app (relay_hub t)) = agents (app (relay_hub s))"
    "required_token (app (relay_hub t)) = required_token (app (relay_hub s))" "clock_ms s \<le> clock_ms t"
    by (simp_all add: t p)
qed

text \<open>C39: the stdio bridge piles up connections. When its MCP session is over the process does not
  end: every round of its loop leaves one more supervised client and one more registered bridge at
  the relay, all of them kept, so after \<open>n\<close> rounds, five seconds apart, each response of an agent
  is sent \<open>n\<close> times to that process.\<close>

theorem bridge_rounds_pile_up:
  assumes "token \<noteq> []" and "required_token (app (relay_hub s)) = None \<or> required_token (app (relay_hub s)) = Some token"
    and "distinct (map fst rounds)" and "\<forall>c \<in> fst ` set rounds. live (relay_hub s) c = None"
    and "set keys = dom (agents (app (relay_hub s)))" and "bridge_run token id' name keys rounds s = t"
    and "peer_kind_of a = Agent" and "is_response v"
  shows "hub_moves\<^sup>*\<^sup>* (relay_hub s) (relay_hub t) \<and> length (supervised t) = length (supervised s) + length rounds \<and>
    map fst (handle_frame (\<lambda>_. True) keys' (app (relay_hub t)) a token v) =
      map rp_conn (get_vec (bridges (app (relay_hub s))) token) @ map fst rounds \<and>
    clock_ms s + 5000 * length rounds \<le> clock_ms t"
proof -
  have "hub_moves\<^sup>*\<^sup>* (relay_hub s) (relay_hub t) \<and> length (supervised t) = length (supervised s) + length rounds \<and>
    map rp_conn (get_vec (bridges (app (relay_hub t))) token) =
      map rp_conn (get_vec (bridges (app (relay_hub s))) token) @ map fst rounds \<and>
    clock_ms s + 5000 * length rounds \<le> clock_ms t"
    using assms(2-6)
  proof (induction rounds arbitrary: s)
    case (Cons x xs)
    obtain e u where u: "serve_once token id' name keys x s = (e, u)" by fastforce
    note a = serve_once_adds [OF assms(1) Cons.prems(1) _ Cons.prems(4) u]
    have x: "live (relay_hub s) (fst x) = None" using Cons.prems(3) by simp
    let ?u = "u\<lparr>clock_ms := clock_ms u + RECONNECT_SECS * 1000\<rparr>"
    have "\<forall>c \<in> fst ` set xs. live (relay_hub ?u) c = None"
    proof
      fix c
      assume c: "c \<in> fst ` set xs"
      have "fst x \<notin> fst ` set xs" using Cons.prems(2) by simp
      then have "c \<noteq> fst x" using c by blast
      from a(6) [OF x this] c Cons.prems(3) show "live (relay_hub ?u) c = None" by simp
    qed
    moreover have "bridge_run token id' name keys xs ?u = t" using Cons.prems(5) u by simp
    ultimately have "hub_moves\<^sup>*\<^sup>* (relay_hub ?u) (relay_hub t) \<and> length (supervised t) = length (supervised ?u) + length xs \<and>
      map rp_conn (get_vec (bridges (app (relay_hub t))) token) =
        map rp_conn (get_vec (bridges (app (relay_hub ?u))) token) @ map fst xs \<and>
      clock_ms ?u + 5000 * length xs \<le> clock_ms t"
      using Cons.IH [of ?u] Cons.prems a [OF x] by simp
    then show ?case using a(1,2,3,7) [OF x] by (auto simp: RECONNECT_SECS_def intro: rtranclp_trans)
  qed simp
  moreover have "map fst (handle_frame (\<lambda>_. True) keys' st a token v) = map rp_conn (get_vec (bridges st) token)" for st
    using assms(7,8) by (simp add: handle_frame_def peer_kind_of_def forward_to_bridges_def relay_send_def map_concat comp_def)
  ultimately show ?thesis by simp
qed

theorem bridge_rounds_pile_up_witness:
  "map fst (handle_frame (\<lambda>_. True) [''t'', ''u''] (app (relay_hub (bridge_run ''t'' ''br'' ''n'' [''t'', ''u'']
      [(5, 0, None, 0, SessionEnded), (6, 0, None, 0, ServingFailed)] \<lparr>supervised = [], relay_hub = sample_hub, clock_ms = 0\<rparr>)))
      sample_agent ''t'' (response_value 1 (Some JNull) None)) = [1, 5, 6]"
proof -
  let ?s = "\<lparr>supervised = [], relay_hub = sample_hub, clock_ms = 0\<rparr>"
  let ?rounds = "[(5, 0, None, 0, SessionEnded), (6, 0, None, 0, ServingFailed)]"
  have "live sample_hub 5 = None" "live sample_hub 6 = None" by (simp_all add: sample_hub_def Let_def split: prod.split)
  then have "\<forall>c \<in> fst ` set ?rounds. live (relay_hub ?s) c = None" by simp
  moreover have "set [''t'', ''u''] = dom (agents (app (relay_hub ?s)))" by (auto simp: sample_hub_app split: if_splits)
  moreover have "required_token (app (relay_hub ?s)) = None \<or> required_token (app (relay_hub ?s)) = Some ''t''"
    by (simp add: sample_hub_app)
  moreover have "peer_kind_of sample_agent = Agent" by (simp add: sample_agent_def peer_kind_of_def sample_hello_def)
  ultimately show ?thesis
    using bridge_rounds_pile_up [of "''t''" ?s ?rounds "[''t'', ''u'']", OF _ _ _ _ _ refl _ frame_kinds(1)]
    by (simp add: sample_hub_app get_vec_def sample_bridge_def)
qed

end
