(* ===== verification/Command_Input.thy ===== *)
theory Command_Input
  imports Agent_Commands
begin

text \<open>
  The input of a command (\<open>run_command\<close> of \<open>crates/agent/src/commands.rs\<close>): the child is started
  with its three streams piped; a given input is written to the end and the stream closed before
  anything of the child's output is read, and before the child is tracked and its timeout runs.
  Without an input the agent keeps the stream open. The child is a filter as \<open>cat\<close> is one: it
  passes on every byte, holding at most \<open>hold\<close> of them, and ends at the end of its input (a child
  that ends before, so that the write fails, is left out). A pipe
  holds \<open>cap\<close> bytes; a write to a full one and a read from an empty one wait.
\<close>

section \<open>Pipes\<close>

record feed =
  unsent :: bytes
  writing :: bool \<comment> \<open>in \<open>write_all\<close>\<close>
  stdin_open :: bool
  stdin_pipe :: bytes
  held :: bytes
  stdout_pipe :: bytes
  stdout_open :: bool
  received :: bytes

definition start_feed :: "bytes option \<Rightarrow> feed" where
  "start_feed input = \<lparr>unsent = (case input of None \<Rightarrow> [] | Some bs \<Rightarrow> bs), writing = (input \<noteq> None), stdin_open = True,
     stdin_pipe = [], held = [], stdout_pipe = [], stdout_open = True, received = []\<rparr>"

inductive feed_step :: "nat \<Rightarrow> nat \<Rightarrow> feed \<Rightarrow> feed \<Rightarrow> bool" for cap hold where
  fd_write: "writing s \<Longrightarrow> unsent s = b # bs \<Longrightarrow> length (stdin_pipe s) < cap \<Longrightarrow>
     feed_step cap hold s (s\<lparr>unsent := bs, stdin_pipe := stdin_pipe s @ [b]\<rparr>)"
| fd_close: "writing s \<Longrightarrow> unsent s = [] \<Longrightarrow> feed_step cap hold s (s\<lparr>writing := False, stdin_open := False\<rparr>)"
| fd_child_read: "stdin_pipe s = b # bs \<Longrightarrow> length (held s) < hold \<Longrightarrow>
     feed_step cap hold s (s\<lparr>stdin_pipe := bs, held := held s @ [b]\<rparr>)"
| fd_child_write: "held s = b # bs \<Longrightarrow> length (stdout_pipe s) < cap \<Longrightarrow>
     feed_step cap hold s (s\<lparr>held := bs, stdout_pipe := stdout_pipe s @ [b]\<rparr>)"
| fd_child_exit: "stdout_open s \<Longrightarrow> \<not> stdin_open s \<Longrightarrow> stdin_pipe s = [] \<Longrightarrow> held s = [] \<Longrightarrow>
     feed_step cap hold s (s\<lparr>stdout_open := False\<rparr>)"
| fd_stream: "\<not> writing s \<Longrightarrow> stdout_pipe s = b # bs \<Longrightarrow>
     feed_step cap hold s (s\<lparr>stdout_pipe := bs, received := received s @ [b]\<rparr>)"

text \<open>The output is at its end: \<open>stream_output\<close> returns.\<close>

definition output_ended :: "feed \<Rightarrow> bool" where
  "output_ended s \<longleftrightarrow> \<not> writing s \<and> \<not> stdout_open s \<and> stdout_pipe s = []"

section \<open>The invariant\<close>

definition feed_inv :: "nat \<Rightarrow> nat \<Rightarrow> bytes \<Rightarrow> feed \<Rightarrow> bool" where
  "feed_inv cap hold bs s \<longleftrightarrow> received s @ stdout_pipe s @ held s @ stdin_pipe s @ unsent s = bs \<and>
     length (stdin_pipe s) \<le> cap \<and> length (held s) \<le> hold \<and> length (stdout_pipe s) \<le> cap \<and>
     (writing s \<longrightarrow> received s = []) \<and> (writing s \<longleftrightarrow> stdin_open s) \<and> (\<not> writing s \<longrightarrow> unsent s = [] \<and> length bs \<le> 2 * cap + hold) \<and>
     (\<not> stdout_open s \<longrightarrow> \<not> writing s \<and> stdin_pipe s = [] \<and> held s = [])"

lemma feed_inv_start: "feed_inv cap hold bs (start_feed (Some bs))"
  by (simp add: feed_inv_def start_feed_def)

lemma feed_step_keeps: "feed_step cap hold s t \<Longrightarrow> feed_inv cap hold bs s \<Longrightarrow> feed_inv cap hold bs t"
  by (induction rule: feed_step.induct) (auto simp: feed_inv_def)

interpretation command_feed: step_invariant "feed_step cap hold" "feed_inv cap hold bs" for cap hold bs
  by unfold_locales (rule feed_step_keeps)

text \<open>Every step moves one byte one place on, or closes a stream.\<close>

definition feed_work :: "feed \<Rightarrow> nat" where
  "feed_work s = 4 * length (unsent s) + 3 * length (stdin_pipe s) + 2 * length (held s) + length (stdout_pipe s) +
     (if writing s then 1 else 0) + (if stdout_open s then 1 else 0)"

lemma feed_step_work: "feed_step cap hold s t \<Longrightarrow> feed_work s = Suc (feed_work t)"
  by (induction rule: feed_step.induct) (auto simp: feed_work_def)

lemma feed_steps_work: "(feed_step cap hold ^^ n) s t \<Longrightarrow> feed_work s = n + feed_work t"
proof (induction n arbitrary: t)
  case (Suc n)
  then obtain u where "(feed_step cap hold ^^ n) s u" "feed_step cap hold u t" by auto
  then show ?case using Suc.IH [of u] feed_step_work [of cap hold u t] by simp
qed simp

lemma feed_progress:
  assumes "feed_inv cap hold bs s" and "length bs \<le> 2 * cap + hold" and "0 < cap" and "0 < hold"
  shows "output_ended s \<or> (\<exists>t. feed_step cap hold s t)"
proof (rule ccontr)
  assume c: "\<not> ?thesis"
  then have stuck: "\<not> feed_step cap hold s t" for t by blast
  note i = assms(1) [unfolded feed_inv_def]
  have r: "stdin_pipe s = [] \<or> length (held s) = hold"
    using stuck fd_child_read [of s _ _ hold cap] i by (metis le_neq_implies_less neq_Nil_conv)
  have w: "held s = [] \<or> length (stdout_pipe s) = cap"
    using stuck fd_child_write [of s _ _ cap hold] i by (metis le_neq_implies_less neq_Nil_conv)
  show False
  proof (cases "writing s")
    case True
    then obtain b us where u: "unsent s = b # us" using stuck fd_close [OF True, of cap hold] by (cases "unsent s") auto
    then have "length (stdin_pipe s) = cap" using stuck fd_write [OF True u, of cap hold] i by (meson le_neq_implies_less)
    moreover from this have "length (held s) = hold" using r assms(3) by auto
    moreover from this have "length (stdout_pipe s) = cap" using w assms(4) by auto
    ultimately have "2 * cap + hold < length bs" using i u by auto
    then show False using assms(2) by simp
  next
    case False
    then have "stdout_pipe s = []" using stuck fd_stream [OF False] by (metis neq_Nil_conv)
    moreover from this have "held s = []" using w assms(3) by auto
    moreover from this have "stdin_pipe s = []" using r assms(4) by auto
    moreover have "\<not> stdin_open s" using i False by simp
    ultimately have "\<not> stdout_open s" using stuck fd_child_exit by blast
    then show False using c False \<open>stdout_pipe s = []\<close> by (simp add: output_ended_def)
  qed
qed

section \<open>Properties\<close>



end
