(* ===== verification/Mcp_Agent.thy ===== *)
theory Mcp_Agent
  imports Transfers_Props
begin

text \<open>
  The MCP tools from the arguments a client sends to the agent's files: the argument structs with
  serde's decoders, the choice of the tool by its name (\<open>#[tool_router]\<close> of
  \<open>crates/bridge/src/mcp.rs\<close>), and what a tool call does over the agent's own handlers. The tools
  that need the mounts or the local disk are in \<open>Mounts\<close> and \<open>Transfers\<close>.
\<close>

section \<open>Arguments\<close>

definition of_run_command_args :: "json \<Rightarrow> run_command_args option" where
  "of_run_command_args j = do {
     f \<leftarrow> struct_src [''command'', ''cwd'', ''timeout_secs'', ''request_timeout_secs'', ''wait'', ''input'', ''target''] j;
     c \<leftarrow> req f ''command'' of_str;
     d \<leftarrow> opt_default f ''cwd'' of_str;
     t \<leftarrow> opt_default f ''timeout_secs'' of_unsigned;
     r \<leftarrow> opt_default f ''request_timeout_secs'' of_unsigned;
     w \<leftarrow> opt_default f ''wait'' of_bool;
     i \<leftarrow> opt_default f ''input'' of_str;
     g \<leftarrow> opt_default f ''target'' of_str;
     Some \<lparr>ra_command = c, ra_cwd = d, ra_timeout_secs = t, ra_request_timeout_secs = r, ra_wait = w,
       ra_input = i, ra_target = g\<rparr> }"

definition of_get_command_result_args :: "json \<Rightarrow> get_command_result_args option" where
  "of_get_command_result_args j = do {
     f \<leftarrow> struct_src [''execution_id'', ''head'', ''tail''] j;
     i \<leftarrow> req f ''execution_id'' of_unsigned;
     h \<leftarrow> opt_default f ''head'' of_unsigned;
     t \<leftarrow> opt_default f ''tail'' of_unsigned;
     Some \<lparr>ga_execution_id = i, ga_head = h, ga_tail = t\<rparr> }"

definition of_path_args :: "json \<Rightarrow> string option" where
  "of_path_args j = do { f \<leftarrow> struct_src [''path''] j; req f ''path'' of_str }"

definition of_read_file_args :: "json \<Rightarrow> read_file_args option" where
  "of_read_file_args j = do {
     f \<leftarrow> struct_src [''path'', ''offset'', ''limit''] j;
     p \<leftarrow> req f ''path'' of_str;
     d \<leftarrow> opt_default f ''offset'' of_unsigned;
     l \<leftarrow> opt_default f ''limit'' of_unsigned;
     Some \<lparr>rfa_path = p, rfa_offset = d, rfa_limit = l\<rparr> }"

definition of_write_file_args :: "json \<Rightarrow> write_file_args option" where
  "of_write_file_args j = do {
     f \<leftarrow> struct_src [''path'', ''content'', ''create_dirs''] j;
     p \<leftarrow> req f ''path'' of_str;
     c \<leftarrow> req f ''content'' of_str;
     d \<leftarrow> opt_default f ''create_dirs'' of_bool;
     Some \<lparr>wfa_path = p, wfa_content = c, wfa_create_dirs = d\<rparr> }"

definition of_mkdir_args :: "json \<Rightarrow> (string \<times> 32 word option) option" where
  "of_mkdir_args j = do {
     f \<leftarrow> struct_src [''path'', ''mode''] j;
     p \<leftarrow> req f ''path'' of_str;
     m \<leftarrow> opt_default f ''mode'' of_unsigned;
     Some (p, m) }"

definition of_remove_args :: "json \<Rightarrow> (string \<times> bool option) option" where
  "of_remove_args j = do {
     f \<leftarrow> struct_src [''path'', ''recursive''] j;
     p \<leftarrow> req f ''path'' of_str;
     r \<leftarrow> opt_default f ''recursive'' of_bool;
     Some (p, r) }"

definition of_rename_args :: "json \<Rightarrow> (string \<times> string) option" where
  "of_rename_args j = do {
     f \<leftarrow> struct_src [''from'', ''to''] j;
     a \<leftarrow> req f ''from'' of_str;
     b \<leftarrow> req f ''to'' of_str;
     Some (a, b) }"

definition of_copy_args :: "json \<Rightarrow> (string \<times> string \<times> bool option) option" where
  "of_copy_args j = do {
     f \<leftarrow> struct_src [''from'', ''to'', ''recursive''] j;
     a \<leftarrow> req f ''from'' of_str;
     b \<leftarrow> req f ''to'' of_str;
     r \<leftarrow> opt_default f ''recursive'' of_bool;
     Some (a, b, r) }"

section \<open>Calling a tool\<close>

datatype tool_outcome = UnknownTool | InvalidArguments | ToolFailed string | ToolResult content

definition run_tool :: "'r tool \<Rightarrow> 'r \<Rightarrow> tool_outcome \<times> 'r" where
  "run_tool t r = (case t r of (Inl m, r1) \<Rightarrow> (ToolFailed m, r1) | (Inr c, r1) \<Rightarrow> (ToolResult c, r1))"

definition with_args :: "'a option \<Rightarrow> ('a \<Rightarrow> 'r tool) \<Rightarrow> 'r \<Rightarrow> tool_outcome \<times> 'r" where
  "with_args x t r = (case x of None \<Rightarrow> (InvalidArguments, r) | Some a \<Rightarrow> run_tool (t a) r)"

definition call_tool :: "'r mcp_env \<Rightarrow> string \<Rightarrow> json \<Rightarrow> 'r \<Rightarrow> tool_outcome \<times> 'r" where
  "call_tool env name args =
     (if name = ''run_command'' then with_args (of_run_command_args args) (mcp_run_command env)
      else if name = ''get_command_result'' then with_args (of_get_command_result_args args) (mcp_get_command_result env)
      else if name = ''read_file'' then with_args (of_read_file_args args) (mcp_read_file env)
      else if name = ''write_file'' then with_args (of_write_file_args args) (mcp_write_file env)
      else if name = ''list_dir'' then with_args (of_path_args args) (mcp_list_dir env)
      else if name = ''stat'' then with_args (of_path_args args) (mcp_stat env)
      else if name = ''mkdir'' then with_args (of_mkdir_args args) (\<lambda>(p, m). mcp_mkdir env p m)
      else if name = ''remove'' then with_args (of_remove_args args) (\<lambda>(p, r). mcp_remove env p r)
      else if name = ''rename'' then with_args (of_rename_args args) (\<lambda>(a, b). mcp_rename env a b)
      else if name = ''copy'' then with_args (of_copy_args args) (\<lambda>(a, b, r). mcp_copy env a b r)
      else if name = ''ping'' then run_tool (mcp_ping env)
      else if name = ''list_targets'' then run_tool (mcp_list_targets env)
      else if name = ''list_devices'' then run_tool (mcp_list_devices env)
      else (\<lambda>r. (UnknownTool, r)))"

text \<open>Arguments a tool cannot read reach no target, whatever the target.\<close>

lemma invalid_arguments_do_nothing: "call_tool env name args r = (InvalidArguments, r') \<Longrightarrow> r' = r"
  by (auto simp: call_tool_def with_args_def run_tool_def split: if_splits option.splits prod.splits sum.splits)

section \<open>Writing and reading back\<close>

lemma created_file:
  assumes "os_path s True p = Inr q" and "\<And>n. node_at s q = Some n \<Longrightarrow> \<exists>m c. n = NFile m c"
  shows "\<exists>m. os_create_file mode p s = (Inr q, put_node q (NFile m []) s) \<and>
    os_node (put_node q (NFile m []) s) True p = Inr (q, NFile m [])"
proof (cases "node_at s q")
  case None
  then show ?thesis using assms(1) os_node_new_file [OF assms(1) None] by (auto simp: os_create_file_def)
next
  case (Some n)
  then obtain m c where n: "node_at s q = Some (NFile m c)" using assms(2) by blast
  let ?s = "put_node q (NFile (touch s m) []) s"
  have "os_path ?s True p = os_path s True p" by (rule os_path_same_shape) (auto simp: n)
  then have "os_node ?s True p = Inr (q, NFile (touch s m) [])" using assms(1) by (simp add: os_node_def)
  then show ?thesis using assms(1) n by (auto simp: os_create_file_def)
qed

lemma write_bytes_all [simp]: "write_bytes 0 b [] = b"
  by (simp add: write_bytes_def)

lemma read_all_call:
  "of_read_file_params (JObj [(''path'', JStr w), (''offset'', opt_json unsigned_json (None :: 64 word option)), (''limit'', opt_json unsigned_json (None :: 64 word option))]) =
     Some \<lparr>rf_path = w, rf_offset = None, rf_limit = None\<rparr>"
  using read_file_params_roundtrip [of "\<lparr>rf_path = w, rf_offset = None, rf_limit = None\<rparr>"]
  by (simp add: read_file_params_json_def obj_fields.simps)

lemma tool_arguments:
  "of_write_file_args (JObj [(''path'', JStr w), (''content'', JStr c)]) = Some \<lparr>wfa_path = w, wfa_content = c, wfa_create_dirs = None\<rparr>"
  "of_read_file_args (JObj [(''path'', JStr w)]) = Some \<lparr>rfa_path = w, rfa_offset = None, rfa_limit = None\<rparr>"
  by (simp_all add: of_write_file_args_def of_read_file_args_def req_def opt_default_def)

text \<open>C31: what the \<open>write_file\<close> tool writes, the \<open>read_file\<close> tool reads back. From the tools' JSON
  arguments to the target's files and back: the file has exactly the content, no other file
  changes, and reading without a range gives its first MiB, at its end only when it is shorter.\<close>

theorem written_file_reads_back:
  assumes "base64_env a" and "os_path fs True (path_of w) = Inr q"
    and "\<And>n. node_at fs q = Some n \<Longrightarrow> \<exists>m c. n = NFile m c" and "length content \<le> MAX_DIRECT_FILE_BYTES"
  shows "\<exists>fs' m. call_tool (agent_mcp a) ''write_file'' (JObj [(''path'', JStr w), (''content'', JStr content)]) fs =
      (ToolResult (content.Text (''wrote '' @ show_nat (length content) @ '' bytes'')), fs') \<and>
    node_at fs' q = Some (NFile m (str_bytes content)) \<and> (\<forall>x. x \<noteq> q \<longrightarrow> node_at fs' x = node_at fs x) \<and>
    call_tool (agent_mcp a) ''read_file'' (JObj [(''path'', JStr w)]) fs' =
      (ToolResult (JsonText (JObj [(''data'', JStr (env_enc a (take (1024 * 1024) (str_bytes content)))),
        (''eof'', JBool (length content < 1024 * 1024))])), fs')"
proof -
  let ?b = "str_bytes content"
  have len: "length ?b = length content" by (simp add: str_bytes_def)
  obtain m where c: "os_create_file 438 (path_of w) fs = (Inr q, put_node q (NFile m []) fs)"
    and n: "os_node (put_node q (NFile m []) fs) True (path_of w) = Inr (q, NFile m [])"
    using created_file [OF assms(2,3)] by blast
  let ?fs = "os_modify (write_bytes 0 ?b) q (put_node q (NFile m []) fs)"
  have node: "os_node ?fs True (path_of w) = Inr (q, NFile (touch (put_node q (NFile m []) fs) m) ?b)"
    using os_node_modify [OF n, of "write_bytes 0 ?b"] by simp
  have at: "node_at ?fs q = Some (NFile (touch (put_node q (NFile m []) fs) m) ?b)" by (simp add: node_at_modify)
  have dec: "decode_data (env_dec a) (env_enc a ?b) = Inr ?b" using base64_decode_data [OF assms(1)] assms(4) len by simp
  have "agent_write_file (env_dec a) (JObj [(''path'', JStr w), (''data'', JStr (env_enc a ?b)), (''create_dirs'', opt_json JBool None)]) fs =
      (Inr (write_file_result_json \<lparr>wfr_bytes_written = u64 (length ?b)\<rparr>), ?fs)"
    unfolding agent_write_file_def write_file_call by (simp add: c dec Let_def split: option.split)
  note w = call_agent [OF file_methods(1) this]
  have "unat (u64 (length content)) = length content"
    using assms(4) by (simp add: MAX_DIRECT_FILE_BYTES_def u64_def unat_of_nat)
  then have wrote: "call_tool (agent_mcp a) ''write_file'' (JObj [(''path'', JStr w), (''content'', JStr content)]) fs =
      (ToolResult (content.Text (''wrote '' @ show_nat (length content) @ '' bytes'')), ?fs)"
    using w by (simp add: call_tool_def with_args_def tool_arguments run_tool_def mcp_write_file_def with_call_def
        decoded_def write_file_result_roundtrip len)
  have once: "read_once 0 (1024 * 1024) ?b = take (1024 * 1024) ?b" by (simp add: read_once_def os_read_cap_def)
  have "agent_read_file (env_enc a) (JObj [(''path'', JStr w), (''offset'', opt_json unsigned_json (None :: 64 word option)), (''limit'', opt_json unsigned_json (None :: 64 word option))]) ?fs =
      (Inr (read_file_result_json \<lparr>rfr_data = env_enc a (take (1024 * 1024) ?b), rfr_eof = length content < 1024 * 1024\<rparr>), ?fs)"
    unfolding agent_read_file_def read_all_call using node at once
    by (simp add: os_open_read_def os_read_at_def Let_def MAX_DIRECT_FILE_BYTES_def len min_def)
  note r = call_agent [OF file_method_agent(3) this]
  have "call_tool (agent_mcp a) ''read_file'' (JObj [(''path'', JStr w)]) ?fs =
      (ToolResult (JsonText (JObj [(''data'', JStr (env_enc a (take (1024 * 1024) ?b))),
        (''eof'', JBool (length content < 1024 * 1024))])), ?fs)"
    using r by (simp add: call_tool_def with_args_def tool_arguments run_tool_def mcp_read_file_def with_call_def
        decoded_def read_file_result_roundtrip)
  moreover have "node_at ?fs x = node_at fs x" if "x \<noteq> q" for x using that by (simp add: node_at_modify)
  ultimately show ?thesis using wrote at by blast
qed

theorem written_file_reads_back_witness:
  "\<exists>fs'. call_tool (agent_mcp sample_env) ''read_file'' (JObj [(''path'', JStr ''/d/f'')]) fs' =
     (ToolResult (JsonText (JObj [(''data'', JStr (env_enc sample_env (str_bytes ''hi''))), (''eof'', JBool True)])), fs')"
proof -
  have p: "os_path sample_os True (path_of ''/d/f'') = Inr [RootDir, Normal ''d'', Normal ''f'']"
    using sample_node [of True] by (auto simp: os_node_def split: sum.splits option.splits)
  have n: "\<exists>m c. n = NFile m c" if "node_at sample_os [RootDir, Normal ''d'', Normal ''f''] = Some n" for n
    using that by (auto simp: sample_os_def node_at_def)
  show ?thesis
    using written_file_reads_back [OF base64_sample_env p n, of "''hi''"]
    by (auto simp: str_bytes_def MAX_DIRECT_FILE_BYTES_def)
qed

end
