(* ===== verification/Spec2Isabelle.thy ===== *)
theory Spec2Isabelle
  imports Upload_Queue_Props Write_Behind Protocol_Props Client_Props Agent_Conn Fuse_Props Cache_Sync_Props Transfers_Props
    Http_Server Mounts Cli Lost_Calls Bridge_Run Command_Input Mcp_Agent
begin

text \<open>
  A verification library of relayfs: remote shell and file access over a relay. A target machine
  runs the agent, a developer's machine (or a server) runs the bridge, and both connect out to the
  relay hub, which pairs them by a token. The bridge offers the target as MCP tools, over stdio or
  HTTP, and as a FUSE mount with a local cache and a write-behind queue.

  \<^bold>\<open>How the parts interact.\<close> A tool or a file system request becomes a numbered JSON-RPC call of the
  client; the relay routes the frame to one agent of the token; the agent's dispatcher runs a file
  operation or starts a command and answers under the call's number; the relay sends the answer
  to the token's bridges, whose read loop resolves the waiting call. A write to a mounted file
  ends in the local cache file and in the upload queue, whose flusher sends it with \<open>WRITE_AT\<close>.

  \<^bold>\<open>Theories and code\<close> (paths under \<open>src/crates/\<close>).
  \<^item> \<open>Prelude\<close>: basic types, Rust's wrapping addition, the string functions of the standard library, and
    the locale \<open>step_invariant\<close> that every state machine interprets.
  \<^item> \<open>Json\<close>, \<open>Protocol\<close>, \<open>Protocol_Params\<close>, \<open>Protocol_Results\<close>, \<open>Protocol_Props\<close>: \<open>protocol/src/lib.rs\<close>, each
    struct a record with its serde encoder and decoder. The locales \<open>codec\<close> and \<open>value_codec\<close> are
    serde's contract for a field's type.
  \<^item> \<open>Rpc\<close>: \<open>rpc/src/lib.rs\<close>, frame values, address normalisation and reconnect schedule.
  \<^item> \<open>Relay\<close>, \<open>Relay_Props\<close>: \<open>relay/src/lib.rs\<close>; \<open>app_state\<close> is \<open>AppState\<close>, \<open>handle_frame\<close> the body of the read
    loop, \<open>hub_step\<close> the interleaving of connections.
  \<^item> \<open>Client\<close>, \<open>Client_Props\<close>, \<open>Supervisor\<close>: \<open>bridge/src/client.rs\<close>; a call is cut at its awaits into
    \<open>start_call\<close>, \<open>send_call\<close>, \<open>finish_call\<close> and \<open>expire_call\<close>. \<open>Supervisor\<close> also holds the loop of
    \<open>agent/src/lib.rs\<close>.
  \<^item> \<open>Connections\<close>: the read loops of relay, bridge and agent over WebSocket messages, each an
    interpretation of the locale \<open>frame_reader\<close>, a whole connection task of the relay
    (\<open>handle_connection\<close>) and a whole \<open>call\<close>. \<open>Bridge_Run\<close>: \<open>bridge/src/lib.rs\<close>, the rounds of the
    stdio loop over the relay's hub.
  \<^item> \<open>Rpc_System\<close>, \<open>Lost_Calls\<close>: the composition. \<open>net_step\<close> interleaves the client's operations, the relay's
    routing between one bridge and one agent, and the agent's dispatcher, with frames that overtake
    each other and get lost. \<open>run_calls\<close> is its specification: atomic calls of the agent's handlers,
    \<open>agent_rpc\<close>, which is what the mount and the transfers are run against.
  \<^item> \<open>Paths\<close>, \<open>Os_Fs\<close>, \<open>Os_Fs_Props\<close>: \<open>std::path\<close> and the Unix file system calls the program uses.
  \<^item> \<open>Agent_Files\<close>, \<open>Agent_Commands\<close>, \<open>Agent_Conn\<close> with their \<open>_Props\<close>: \<open>agent/src/files.rs\<close>,
    \<open>commands.rs\<close> and \<open>conn.rs\<close>, one function per handler, the command tasks as \<open>agent_step\<close>.
    \<open>Command_Input\<close> is the writing of a command's input into pipes of bounded size.
    \<open>Reply_Types\<close> relates the handlers to the bridge's decoders.
  \<^item> \<open>Ranges\<close>, \<open>Upload_Queue\<close> with \<open>_Inv\<close>, \<open>_Steps\<close>, \<open>_Props\<close>, \<open>Write_Behind\<close>: \<open>merge_range\<close>, \<open>UploadQueue\<close>
    and the flusher of \<open>bridge/src/fuse_fs.rs\<close>. Each queue method is one atomic function, as it
    takes the mutex once; \<open>wb_step\<close> adds the cache, the target and the sends on their way.
  \<^item> \<open>Inodes\<close>, \<open>Fuse_Fs\<close>, \<open>Fuse_Requests\<close>, \<open>Fuse_Props\<close>: \<open>InodeMap\<close> and \<open>RemoteFs\<close> of the same file, one function
    per kernel request over \<open>fuse\<close>, whose field \<open>remote\<close> is reached only through the environment's
    \<open>rpc\<close>. \<open>Cache_Sync\<close>, \<open>Cache_Sync_Props\<close>: prefetch and background mirror. \<open>Mounts\<close>: \<open>MountManager\<close>.
  \<^item> \<open>Mcp_Tools\<close>, \<open>Transfers\<close>, \<open>Transfers_Props\<close>, \<open>Mcp_Agent\<close>: \<open>bridge/src/mcp.rs\<close>; the last has the argument
    structs and a tool call over the agent's files.
  \<^item> \<open>Percent\<close>, \<open>Http_Auth\<close>, \<open>Http_Auth_Props\<close>: \<open>bridge/src/http.rs\<close>, with \<open>http_step\<close> what a
    handler does; \<open>Http_Server\<close> the router's paths and methods and the replies with their headers.
  \<^item> \<open>Cli\<close>: \<open>relayfs/src/main.rs\<close>.

  \<^bold>\<open>What is shown.\<close>
  \<^item> Upload queue: the invariant \<open>queue_inv\<close> holds in every reachable state; two sends in flight never
    overlap; no pending byte is lost by claiming, and \<open>finish\<close> does what each outcome asks. A
    backlog counter leaks on merges, and a dropped send lets a drain succeed.
  \<^item> Write-behind pipeline: \<open>wb_inv\<close> gives the refinement that a drained target has the bytes the
    user last wrote, while no cache fill and no late request interferes; both are then shown to
    break it.
  \<^item> Protocol, relay, client: encoders and decoders are inverse; frames stay within their token; the
    registry is the set of live connections; a request is forwarded or answered; a call resolves
    at most once, and the races in which it hangs or another bridge's answer resolves it. The read
    loops deliver the same frames up to the first malformed one, and a connection leaves no trace
    on the hub.
  \<^item> Composition: with one bridge on a token the remote calls are atomic calls of the agent, none
    executed twice; a call to a target that goes away is never answered; the stdio bridge piles up
    connections.
  \<^item> Agent: the file operations change exactly what they are asked to; every request is answered
    once, with a value of its method's type; what happens to commands at a disconnect,
    and when a command's input gets through.
  \<^item> Mount: read your writes, stable inode numbers, the read-only guard and its gaps, downloads into the
    cache in any order of chunks, the mirror that writes wherever the target says, and what a
    manager leaves mounted.
  \<^item> Tools: what \<open>write_file\<close> writes, \<open>read_file\<close> reads back. Transfers: upload and download are exact between two file systems and leave the destination
    alone on failure.
  \<^item> HTTP and command line: access needs the token or a fresh code given to a holder of it; which
    services start unprotected, and that the relay then refuses their bridge; without the token the
    replies do not depend on the MCP service.

  Some properties state behaviour the code does not mean to have; they are the findings of the
  development, each at the line of the code that causes it.

  \<^bold>\<open>Parameters.\<close> Code outside the repository is an argument: base64 (\<open>enc\<close>, \<open>dec\<close>, with \<open>dec (enc b) = Some b\<close>
  as hypothesis where a property needs it, for the transfers in \<open>base64_env\<close>), the text of serde's errors, JSON parsing of
  a frame, clap's parsers, fuser, \<open>fusermount3\<close>, the shell, random numbers, clocks, and the order
  in which a hash map lists its keys.

  \<^bold>\<open>Fuel and bounds.\<close> \<open>MAX_LINKS\<close> is the kernel's limit of 40 links in one walk. Recursive copy, the mirror
  and a download are bounded by fuel since the other side decides when they end: \<open>None\<close> is a run
  that has not ended. A download needs one unit per started MiB, which is what its
  exactness theorem assumes of the fuel. All other loops terminate by a measure. Lengths and
  offsets are naturals; a \<open>u64\<close> that the code adds to or that crosses the wire is a word or goes
  through \<open>u64_add\<close>. Theorems that rely on it state the bound.

  \<^bold>\<open>Not modelled.\<close> Sockets, TLS, the MCP protocol and the logger are libraries the program calls. The
  constant texts (the skill document of \<open>skill/src/lib.rs\<close>, the HTML of the pages) carry no
  decision. The keep-alive pings of relay and agent change no state. The tests are left out. Of the commands, the
  environment of the shell is the operating system's. Of
  the mount, attributes that are constants, and of the downloads, a full local disk.
\<close>

end
